(* ===== verification/Pcl_Prelude.thy ===== *)
theory Pcl_Prelude
  imports Main "HOL-Library.Word" "HOL-Library.Monad_Syntax" "HOL-Library.Multiset"
begin

text \<open>
  Vocabulary shared by the theories of the development: bit operations on words, the C string
  operations the code uses, and the generic lemmas about options that several components need.
\<close>

unbundle bit_operations_syntax

lemma bind_Some_iff [simp]: "Option.bind m f = Some y \<longleftrightarrow> (\<exists>x. m = Some x \<and> f x = Some y)"
  by (cases m) auto

section \<open>C strings\<close>

text \<open>
  A C string is the list of its characters without the terminating NUL.  Copying it into an array of
  \<open>n\<close> characters with \<^verbatim>\<open>strncpy\<close> followed by a NUL in the last place, or with \<^verbatim>\<open>snprintf\<close>, keeps the first
  \<open>n - 1\<close> characters.
\<close>

definition c_copy :: "nat \<Rightarrow> string \<Rightarrow> string" where
  "c_copy n s = take (n - 1) s"

lemma c_copy_fits [simp]: "length s < n \<Longrightarrow> c_copy n s = s"
  by (simp add: c_copy_def)

lemma c_copy_copy [simp]: "c_copy n (c_copy n s) = c_copy n s"
  by (simp add: c_copy_def)

lemma length_c_copy: "0 < n \<Longrightarrow> length (c_copy n s) < n"
  by (simp add: c_copy_def)

text \<open>The string in a character array: its bytes up to the first NUL.\<close>

definition cstr :: "string \<Rightarrow> string" where
  "cstr buf = takeWhile (\<lambda>c. c \<noteq> CHR 0x00) buf"

lemma cstr_id [simp]: "CHR 0x00 \<notin> set s \<Longrightarrow> cstr s = s"
  by (auto simp: cstr_def intro: takeWhile_eq_all_conv [THEN iffD2])

section \<open>State machines\<close>

text \<open>
  Several components are state machines: the allocator of handle numbers, the poll array under the
  callbacks of libdbus, the threads that wait for the main loop.  An invariant that holds at the start
  and that every step keeps holds in every reachable state.
\<close>

locale state_machine =
  fixes start :: 's
    and step :: "'s \<Rightarrow> 's \<Rightarrow> bool"
    and good :: "'s \<Rightarrow> bool"
  assumes good_start: "good start"
    and good_step: "step s t \<Longrightarrow> good s \<Longrightarrow> good t"
begin

lemma good_steps: "step\<^sup>*\<^sup>* s t \<Longrightarrow> good s \<Longrightarrow> good t"
  by (induction rule: rtranclp_induct) (auto intro: good_step)

lemma good_reachable: "step\<^sup>*\<^sup>* start t \<Longrightarrow> good t"
  using good_steps good_start by blast

lemma good_before_after: "step\<^sup>*\<^sup>* start s \<Longrightarrow> step s t \<Longrightarrow> good s \<and> good t"
  using good_reachable good_step by blast

end

end
