(* ===== verification/Pcl_Config.thy ===== *)
theory Pcl_Config
  imports Pcl_Prelude
begin

text \<open>
  The constants of the library and the names it takes from the persistence common object.  The error
  codes are those of \<^verbatim>\<open>include/persistence_client_library_error_def.h\<close>, the other constants those of
  \<^verbatim>\<open>persistence_client_library_data_organization.h\<close>.  The common object's headers are not part of the
  sources: its enumerators and lengths are the fields of the record \<open>pco\<close>, an argument of the
  definitions that use them, and \<open>pco_ok\<close> states what its documentation says of them.
\<close>

section \<open>Error codes\<close>

abbreviation (input) EPERS_COMMON :: int where "EPERS_COMMON \<equiv> -1"
abbreviation (input) EPERS_LOCKFS :: int where "EPERS_LOCKFS \<equiv> -2"
abbreviation (input) EPERS_BADPOL :: int where "EPERS_BADPOL \<equiv> -3"
abbreviation (input) EPERS_MAXHANDLE :: int where "EPERS_MAXHANDLE \<equiv> -4"
abbreviation (input) EPERS_BUFLIMIT :: int where "EPERS_BUFLIMIT \<equiv> -5"
abbreviation (input) EPERS_NOPRCTABLE :: int where "EPERS_NOPRCTABLE \<equiv> -6"
abbreviation (input) EPERS_NOKEY :: int where "EPERS_NOKEY \<equiv> -7"
abbreviation (input) EPERS_NOKEYDATA :: int where "EPERS_NOKEYDATA \<equiv> -8"
abbreviation (input) EPERS_SETDTAFAILED :: int where "EPERS_SETDTAFAILED \<equiv> -9"
abbreviation (input) EPERS_OPENFILE :: int where "EPERS_OPENFILE \<equiv> -10"
abbreviation (input) EPERS_NOPLUGINFCNT :: int where "EPERS_NOPLUGINFCNT \<equiv> -22"
abbreviation (input) EPERS_DLOPENERROR :: int where "EPERS_DLOPENERROR \<equiv> -23"
abbreviation (input) EPERS_NOPLUGINFUNCT :: int where "EPERS_NOPLUGINFUNCT \<equiv> -24"
abbreviation (input) EPERS_FILEREMOVE :: int where "EPERS_FILEREMOVE \<equiv> -25"
abbreviation (input) EPERS_DB_ERROR_INTERNAL :: int where "EPERS_DB_ERROR_INTERNAL \<equiv> -27"
abbreviation (input) EPERS_DB_KEY_SIZE :: int where "EPERS_DB_KEY_SIZE \<equiv> -28"
abbreviation (input) EPERS_DB_VALUE_SIZE :: int where "EPERS_DB_VALUE_SIZE \<equiv> -29"
abbreviation (input) EPERS_RES_NO_KEY :: int where "EPERS_RES_NO_KEY \<equiv> -30"
abbreviation (input) EPERS_NOTIFY_SIG :: int where "EPERS_NOTIFY_SIG \<equiv> -31"
abbreviation (input) EPERS_NOT_INITIALIZED :: int where "EPERS_NOT_INITIALIZED \<equiv> -32"
abbreviation (input) EPERS_MAX_BUFF_SIZE :: int where "EPERS_MAX_BUFF_SIZE \<equiv> -33"
abbreviation (input) EPERS_DBUS_MAINLOOP :: int where "EPERS_DBUS_MAINLOOP \<equiv> -34"
abbreviation (input) EPERS_REGISTER_LIFECYCLE :: int where "EPERS_REGISTER_LIFECYCLE \<equiv> -35"
abbreviation (input) EPERS_REGISTER_ADMIN :: int where "EPERS_REGISTER_ADMIN \<equiv> -36"
abbreviation (input) EPERS_NOTIFY_NOT_ALLOWED :: int where "EPERS_NOTIFY_NOT_ALLOWED \<equiv> -37"
abbreviation (input) EPERS_RESOURCE_NO_FILE :: int where "EPERS_RESOURCE_NO_FILE \<equiv> -38"
abbreviation (input) EPERS_RESOURCE_READ_ONLY :: int where "EPERS_RESOURCE_READ_ONLY \<equiv> -39"
abbreviation (input) EPERS_SHUTDOWN_MAX_CANCEL :: int where "EPERS_SHUTDOWN_MAX_CANCEL \<equiv> -40"
abbreviation (input) EPERS_SHUTDOWN_NO_PERMIT :: int where "EPERS_SHUTDOWN_NO_PERMIT \<equiv> -42"
abbreviation (input) EPERS_SHUTDOWN_NO_TRUSTED :: int where "EPERS_SHUTDOWN_NO_TRUSTED \<equiv> -43"
abbreviation (input) EPERS_NOT_RESP_APP :: int where "EPERS_NOT_RESP_APP \<equiv> -44"
abbreviation (input) EPERS_NO_PLUGIN_FUNCT :: int where "EPERS_NO_PLUGIN_FUNCT \<equiv> -45"
abbreviation (input) EPERS_NO_PLUGIN_VAR :: int where "EPERS_NO_PLUGIN_VAR \<equiv> -46"
abbreviation (input) EPERS_NO_REG_TO_PAS :: int where "EPERS_NO_REG_TO_PAS \<equiv> -47"
abbreviation (input) EPERS_INVALID_HANDLE :: int where "EPERS_INVALID_HANDLE \<equiv> -1000"

section \<open>Constants\<close>

abbreviation (input) MaxPersHandle :: int where "MaxPersHandle \<equiv> 512"
abbreviation (input) PrctDbTableSize :: int where "PrctDbTableSize \<equiv> 1024"
abbreviation (input) DbTableSize :: int where "DbTableSize \<equiv> 1024"
abbreviation (input) Shutdown_Partial :: int where "Shutdown_Partial \<equiv> 0"
abbreviation (input) Shutdown_Full :: int where "Shutdown_Full \<equiv> 1"
abbreviation (input) Shutdown_MaxCount :: int where "Shutdown_MaxCount \<equiv> 3"
abbreviation (input) NsmShutdownNormal :: int where "NsmShutdownNormal \<equiv> 1"
abbreviation (input) NsmErrorStatus_OK :: int where "NsmErrorStatus_OK \<equiv> 1"
abbreviation (input) NsmErrorStatus_Fail :: int where "NsmErrorStatus_Fail \<equiv> -1"
abbreviation (input) NsmErrorStatus_ResponsePending :: int where "NsmErrorStatus_ResponsePending \<equiv> 7"
abbreviation (input) PasMsg_Block :: int where "PasMsg_Block \<equiv> 1"
abbreviation (input) PasMsg_Unblock :: int where "PasMsg_Unblock \<equiv> 2"
abbreviation (input) PasMsg_WriteBack :: int where "PasMsg_WriteBack \<equiv> 16"
abbreviation (input) PasErrorStatus_RespPend :: int where "PasErrorStatus_RespPend \<equiv> 1"
abbreviation (input) PasErrorStatus_OK :: int where "PasErrorStatus_OK \<equiv> 2"
abbreviation (input) PasErrorStatus_FAIL :: int where "PasErrorStatus_FAIL \<equiv> 0x8000"

section \<open>The persistence common object\<close>

record pco =
  key_name_len :: nat
  path_len :: nat
  policy_wc :: int
  policy_wt :: int
  policy_last :: int
  storage_local :: int
  storage_shared :: int
  storage_custom :: int
  storage_last :: int
  perm_rw :: int
  perm_ro :: int
  perm_wo :: int
  perm_last :: int
  type_key :: int
  type_file :: int
  cfg_size :: int
  max_key_data :: int
  resp_len :: nat

definition pco_ok :: "pco \<Rightarrow> bool" where
  "pco_ok P \<longleftrightarrow>
     0 < key_name_len P \<and> 0 < path_len P \<and>
     distinct [policy_wc P, policy_wt P, policy_last P] \<and>
     distinct [storage_local P, storage_shared P, storage_custom P, storage_last P] \<and>
     distinct [perm_rw P, perm_ro P, perm_wo P, perm_last P] \<and>
     0 \<le> perm_rw P \<and> 0 \<le> perm_ro P \<and> 0 \<le> perm_wo P \<and> 0 \<le> perm_last P \<and>
     0 \<le> storage_local P \<and> 0 \<le> storage_shared P \<and> 0 \<le> storage_custom P \<and>
     type_key P \<noteq> type_file P \<and> 0 \<le> max_key_data P \<and> 0 < resp_len P"

text \<open>The values of the common object the library is built with.\<close>

definition pco_1 :: pco where
  "pco_1 = \<lparr>key_name_len = 128, path_len = 512, policy_wc = 0, policy_wt = 1, policy_last = 3,
     storage_local = 0, storage_shared = 1, storage_custom = 2, storage_last = 3,
     perm_rw = 0, perm_ro = 1, perm_wo = 2, perm_last = 3, type_key = 0, type_file = 1,
     cfg_size = 144, max_key_data = 16384, resp_len = 32\<rparr>"

lemma pco_1_ok: "pco_ok pco_1"
  by (simp add: pco_ok_def pco_1_def)

end
