(* ===== verification/Data_Organization.thy ===== *)
theory Data_Organization
  imports Pcl_Config
begin

text \<open>
  The data organisation: the path templates of \<^verbatim>\<open>persistence_client_library_data_organization.c\<close>, the
  number formats of \<^verbatim>\<open>snprintf\<close> they are filled with, and the configuration record of a resource.
  The root path and the folder and database names come from the common object and are fields of \<open>names\<close>.
\<close>

section \<open>Number formats\<close>

definition digit_char :: "nat \<Rightarrow> char" where
  "digit_char d = char_of (if d < 10 then 48 + d else 87 + d)"

fun show_base :: "nat \<Rightarrow> nat \<Rightarrow> string" where
  "show_base b n = (if b < 2 \<or> n < b then [digit_char n] else show_base b (n div b) @ [digit_char (n mod b)])"

text \<open>The conversions \<^verbatim>\<open>%u\<close> and \<^verbatim>\<open>%x\<close> of an unsigned int.\<close>

definition fmt_u :: "32 word \<Rightarrow> string" where
  "fmt_u w = show_base 10 (unat w)"

definition fmt_x :: "32 word \<Rightarrow> string" where
  "fmt_x w = show_base 16 (unat w)"

section \<open>Names and paths\<close>

record names =
  org_root :: string
  gNode :: string
  gUser :: string
  gSeat :: string
  gResTableCfg :: string
  gLocalWt :: string
  gLocalCached :: string
  gLocalConfigurableDefault :: string
  gLocalFactoryDefault :: string

definition CACHEPREFIX :: "names \<Rightarrow> string" where
  "CACHEPREFIX N = org_root N @ ''/mnt-c/''"

definition WTPREFIX :: "names \<Rightarrow> string" where
  "WTPREFIX N = org_root N @ ''/mnt-wt/''"

definition getLocalCachePath :: "names \<Rightarrow> string \<Rightarrow> string" where
  "getLocalCachePath N app = CACHEPREFIX N @ app"

definition getLocalWtPath :: "names \<Rightarrow> string \<Rightarrow> string" where
  "getLocalWtPath N app = WTPREFIX N @ app"

definition getSharedCachePath :: "names \<Rightarrow> string \<Rightarrow> 32 word \<Rightarrow> string" where
  "getSharedCachePath N app g = CACHEPREFIX N @ app @ ''/shared_group_'' @ fmt_x g"

definition getSharedWtPath :: "names \<Rightarrow> string \<Rightarrow> 32 word \<Rightarrow> string" where
  "getSharedWtPath N app g = WTPREFIX N @ app @ ''/shared_group_'' @ fmt_x g"

definition getSharedPublicCachePath :: "names \<Rightarrow> string \<Rightarrow> string" where
  "getSharedPublicCachePath N app = CACHEPREFIX N @ app @ ''/shared_public''"

definition getSharedPublicWtPath :: "names \<Rightarrow> string \<Rightarrow> string" where
  "getSharedPublicWtPath N app = WTPREFIX N @ app @ ''/shared_public''"

definition getLocalCachePathKey :: "names \<Rightarrow> string \<Rightarrow> string \<Rightarrow> string" where
  "getLocalCachePathKey N app key = CACHEPREFIX N @ app @ key"

definition getLocalWtPathKey :: "names \<Rightarrow> string \<Rightarrow> string \<Rightarrow> string" where
  "getLocalWtPathKey N app key = WTPREFIX N @ app @ key"

definition getSharedCachePathKey :: "names \<Rightarrow> string \<Rightarrow> 32 word \<Rightarrow> string \<Rightarrow> string" where
  "getSharedCachePathKey N app g key = CACHEPREFIX N @ app @ ''/shared_group_'' @ fmt_x g @ key"

definition getSharedWtPathKey :: "names \<Rightarrow> string \<Rightarrow> 32 word \<Rightarrow> string \<Rightarrow> string" where
  "getSharedWtPathKey N app g key = WTPREFIX N @ app @ ''/shared_group_'' @ fmt_x g @ key"

definition getSharedPublicCachePathKey :: "names \<Rightarrow> string \<Rightarrow> string \<Rightarrow> string" where
  "getSharedPublicCachePathKey N app key = CACHEPREFIX N @ app @ ''/shared_public'' @ key"

definition getSharedPublicWtPathKey :: "names \<Rightarrow> string \<Rightarrow> string \<Rightarrow> string" where
  "getSharedPublicWtPathKey N app key = WTPREFIX N @ app @ ''/shared_public'' @ key"

section \<open>Resource configuration\<close>

text \<open>\<^verbatim>\<open>PersistenceConfigurationKey_s\<close>, \<^verbatim>\<open>PersistenceDbContext_s\<close> and \<^verbatim>\<open>PersistenceInfo_s\<close>.\<close>

record config_key =
  cpolicy :: int
  cstorage :: int
  ctype :: int
  cpermission :: int
  cmax_size :: int
  creponsible :: string
  ccustom_name :: string
  ccustomID :: string

record db_context =
  ctx_ldbid :: "32 word"
  ctx_user :: "32 word"
  ctx_seat :: "32 word"

record pers_info =
  dbctx :: db_context
  configKey :: config_key

abbreviation (input) PCL_LDBID_LOCAL :: "32 word" where "PCL_LDBID_LOCAL \<equiv> 0xFF"
abbreviation (input) PCL_LDBID_PUBLIC :: "32 word" where "PCL_LDBID_PUBLIC \<equiv> 0"

section \<open>Reading numbers back\<close>

lemma of_digit_char: "d < 16 \<Longrightarrow> (of_char (digit_char d) :: nat) = (if d < 10 then 48 + d else 87 + d)"
  by (simp add: digit_char_def take_bit_nat_eq_self)

lemma digit_char_inj: "a < 16 \<Longrightarrow> b < 16 \<Longrightarrow> digit_char a = digit_char b \<Longrightarrow> a = b"
proof -
  assume a: "a < 16" and b: "b < 16" and e: "digit_char a = digit_char b"
  from of_digit_char [OF a] of_digit_char [OF b, folded e]
  have "(if a < 10 then 48 + a else 87 + a) = (if b < 10 then 48 + b else 87 + b)"
    by (rule trans [OF sym])
  then show "a = b"
    by (simp split: if_splits)
qed

lemma slash_not_digit: "d < 16 \<Longrightarrow> digit_char d \<noteq> CHR ''/''"
  using of_digit_char [of d] by (auto split: if_splits)

declare show_base.simps [simp del]

lemma show_base_nonempty [simp]: "show_base b n \<noteq> []"
  by (simp add: show_base.simps [of b n])

lemma show_base_small: "n < b \<Longrightarrow> show_base b n = [digit_char n]"
  by (simp add: show_base.simps [of b n])

lemma show_base_big:
  "2 \<le> b \<Longrightarrow> \<not> n < b \<Longrightarrow> show_base b n = show_base b (n div b) @ [digit_char (n mod b)]"
  by (simp add: show_base.simps [of b n])

lemma show_base_small_big:
  assumes "2 \<le> b" "m < b" "\<not> n < b"
  shows "show_base b m \<noteq> show_base b n"
proof
  assume "show_base b m = show_base b n"
  then have "[digit_char m] = show_base b (n div b) @ [digit_char (n mod b)]"
    using show_base_small [OF assms(2)] show_base_big [OF assms(1,3)] by metis
  then show False
    by (cases "show_base b (n div b)") simp_all
qed

lemma show_base_inj:
  assumes "2 \<le> b" "b \<le> 16"
  shows "show_base b m = show_base b n \<Longrightarrow> m = n"
proof (induction m arbitrary: n rule: less_induct)
  case (less m)
  consider (ss) "m < b" "n < b" | (sb) "m < b" "\<not> n < b" | (bs) "\<not> m < b" "n < b"
    | (bb) "\<not> m < b" "\<not> n < b"
    by blast
  then show ?case
  proof cases
    case ss
    with less(2) assms show ?thesis by (simp add: show_base_small digit_char_inj)
  next
    case sb
    with less(2) assms show ?thesis by (metis show_base_small_big)
  next
    case bs
    with less(2) assms show ?thesis by (metis show_base_small_big)
  next
    case bb
    then have e: "show_base b (m div b) = show_base b (n div b)" "digit_char (m mod b) = digit_char (n mod b)"
      using less(2) assms by (simp_all add: show_base_big)
    have "m div b = n div b"
      using less(1) [OF _ e(1)] bb(1) assms by simp
    moreover have "m mod b = n mod b"
    proof (rule digit_char_inj [OF _ _ e(2)])
      show "m mod b < 16" "n mod b < 16"
        using mod_less_divisor [of b m] mod_less_divisor [of b n] assms by linarith+
    qed
    ultimately show ?thesis
      by (metis div_mult_mod_eq)
  qed
qed

lemma show_base_digits: "2 \<le> b \<Longrightarrow> set (show_base b n) \<subseteq> digit_char ` {..<b}"
proof (induction b n rule: show_base.induct)
  case (1 b n)
  then show ?case
    by (cases "n < b") (auto simp: show_base_small show_base_big)
qed

lemma show_base_no_slash: "2 \<le> b \<Longrightarrow> b \<le> 16 \<Longrightarrow> CHR ''/'' \<notin> set (show_base b n)"
  using subsetD [OF show_base_digits, of b "CHR ''/''" n] slash_not_digit
  by (metis imageE lessThan_iff order_less_le_trans)

lemma show_base_length: "2 \<le> b \<Longrightarrow> n < b ^ Suc k \<Longrightarrow> length (show_base b n) \<le> Suc k"
proof (induction k arbitrary: n)
  case 0
  then show ?case
    by (simp add: show_base_small)
next
  case (Suc k)
  show ?case
  proof (cases "n < b")
    case True
    then show ?thesis
      by (simp add: show_base_small)
  next
    case False
    have "n div b < b ^ Suc k"
      using Suc.prems by (simp add: div_less_iff_less_mult mult.commute)
    then show ?thesis
      using Suc.IH [of "n div b"] Suc.prems(1) False by (simp add: show_base_big)
  qed
qed

lemma fmt_u_length: "length (fmt_u v) \<le> 10"
proof -
  have "unat v < 2 ^ 32"
    using unsigned_less [of v] by simp
  then have "unat v < 10 ^ Suc 9"
    by (rule less_trans) simp
  then show ?thesis
    using show_base_length [of 10 "unat v" 9] by (simp add: fmt_u_def)
qed

lemma fmt_x_length: "length (fmt_x v) \<le> 8"
  using unsigned_less [of v] show_base_length [of 16 "unat v" 7] by (simp add: fmt_x_def)

lemma fmt_x_no_NUL [simp]: "CHR 0x00 \<notin> set (fmt_x a)"
proof
  assume "CHR 0x00 \<in> set (fmt_x a)"
  then obtain d where "d < 16" "CHR 0x00 = digit_char d"
    using show_base_digits [of 16 "unat a"] by (auto simp: fmt_x_def)
  then have "(of_char (CHR 0x00) :: nat) = (if d < 10 then 48 + d else 87 + d)"
    by (metis of_digit_char)
  then show False
    by (simp split: if_splits)
qed

lemma fmt_u_inj: "fmt_u a = fmt_u b \<longleftrightarrow> a = b"
  using show_base_inj [of 10 "unat a" "unat b"] by (auto simp: fmt_u_def word_unat_eq_iff)

lemma fmt_x_inj: "fmt_x a = fmt_x b \<longleftrightarrow> a = b"
  using show_base_inj [of 16 "unat a" "unat b"] by (auto simp: fmt_x_def word_unat_eq_iff)

lemma fmt_u_no_slash [simp]: "CHR ''/'' \<notin> set (fmt_u a)"
  by (simp add: fmt_u_def show_base_no_slash)

lemma fmt_x_no_slash [simp]: "CHR ''/'' \<notin> set (fmt_x a)"
  by (simp add: fmt_x_def show_base_no_slash)

text \<open>Splitting a key at its slashes.\<close>

fun split_slash :: "string \<Rightarrow> string list" where
  "split_slash [] = [[]]"
| "split_slash (c # s) =
     (if c = CHR ''/'' then [] # split_slash s
      else case split_slash s of a # l \<Rightarrow> (c # a) # l | [] \<Rightarrow> [])"

lemma split_slash_word [simp]: "CHR ''/'' \<notin> set a \<Longrightarrow> split_slash a = [a]"
  by (induction a) auto

lemma split_slash_append [simp]:
  "CHR ''/'' \<notin> set a \<Longrightarrow> split_slash (a @ CHR ''/'' # s) = a # split_slash s"
  by (induction a) auto

end
