(* ===== verification/Prct_Access.thy ===== *)
theory Prct_Access
  imports Data_Organization
begin

text \<open>
  The resource configuration tables (\<^verbatim>\<open>persistence_client_library_prct_access.c\<close>): which table a
  logical database identifier belongs to, the array of open tables, the lookup of a resource, and the
  database path and key a resource gets.  The three functions of the common object's plugin are the
  record \<open>rct_plugin\<close>, each an option because the code tests the function pointers, over a world
  \<open>'w\<close> that the plugin reads and changes.  Reading a table gives the number of bytes read and the entry.
\<close>

section \<open>State and plugin\<close>

datatype prct = PersistenceRCT_local | PersistenceRCT_shared_public | PersistenceRCT_shared_group
  | PersistenceRCT_LastEntry

fun prct_num :: "prct \<Rightarrow> int" where
  "prct_num PersistenceRCT_local = 0"
| "prct_num PersistenceRCT_shared_public = 1"
| "prct_num PersistenceRCT_shared_group = 2"
| "prct_num PersistenceRCT_LastEntry = 3"

record prct_state =
  gResource_table :: "int \<Rightarrow> int"
  gResourceOpen :: "int \<Rightarrow> int"

definition prct_init :: prct_state where
  "prct_init = \<lparr>gResource_table = (\<lambda>_. -1), gResourceOpen = (\<lambda>_. 0)\<rparr>"

record 'w rct_plugin =
  rct_open :: "(string \<Rightarrow> int \<Rightarrow> 'w \<Rightarrow> int \<times> 'w) option"
  rct_close :: "(int \<Rightarrow> 'w \<Rightarrow> int \<times> 'w) option"
  rct_read :: "(int \<Rightarrow> string \<Rightarrow> 'w \<Rightarrow> int \<times> config_key \<times> 'w) option"

section \<open>Operations\<close>

definition get_table_id :: "32 word \<Rightarrow> prct \<times> int" where
  "get_table_id ldbid =
     (if ldbid < 0x80 then
        if ldbid \<noteq> 0 then (PersistenceRCT_shared_group, sint ldbid)
        else (PersistenceRCT_shared_public, 0)
      else (PersistenceRCT_local, 0))"

definition get_resource_cfg_table_by_idx :: "prct_state \<Rightarrow> int \<Rightarrow> int" where
  "get_resource_cfg_table_by_idx s i =
     (if i \<ge> 0 \<and> i < PrctDbTableSize then gResource_table s i else -1)"

definition invalidate_resource_cfg_table :: "int \<Rightarrow> prct_state \<Rightarrow> prct_state" where
  "invalidate_resource_cfg_table i s =
     (if i \<ge> 0 \<and> i < PrctDbTableSize
      then s\<lparr>gResource_table := (gResource_table s)(i := -1), gResourceOpen := (gResourceOpen s)(i := 0)\<rparr>
      else s)"

definition prct_index :: "prct \<Rightarrow> int \<Rightarrow> int" where
  "prct_index rct grp = uint (word_of_int (prct_num rct) + word_of_int grp :: 32 word)"

definition prct_filename :: "pco \<Rightarrow> names \<Rightarrow> string \<Rightarrow> prct \<Rightarrow> int \<Rightarrow> string" where
  "prct_filename P N app rct grp =
     (case rct of
        PersistenceRCT_local \<Rightarrow> c_copy (path_len P) (getLocalWtPathKey N app (gResTableCfg N))
      | PersistenceRCT_shared_public \<Rightarrow> c_copy (path_len P) (getSharedPublicWtPathKey N app (gResTableCfg N))
      | PersistenceRCT_shared_group \<Rightarrow>
          c_copy (path_len P) (getSharedWtPathKey N app (word_of_int grp) (gResTableCfg N))
      | PersistenceRCT_LastEntry \<Rightarrow> [])"

definition get_resource_cfg_table ::
  "pco \<Rightarrow> names \<Rightarrow> string \<Rightarrow> 'w rct_plugin \<Rightarrow> prct \<Rightarrow> int \<Rightarrow> prct_state \<Rightarrow> 'w \<Rightarrow> int \<times> prct_state \<times> 'w" where
  "get_resource_cfg_table P N app G rct grp s w =
     (let arrayIdx = prct_index rct grp in
      if arrayIdx < PrctDbTableSize then
        if gResourceOpen s arrayIdx = 0 then
          case rct_open G of
            Some rctOpen \<Rightarrow>
              (let (h, w) = rctOpen (prct_filename P N app rct grp) 0x04 w;
                   s = s\<lparr>gResource_table := (gResource_table s)(arrayIdx := h),
                         gResourceOpen := (gResourceOpen s)(arrayIdx := if h < 0 then 0 else 1)\<rparr>
               in (h, s, w))
          | None \<Rightarrow> (gResource_table s arrayIdx, s, w)
        else (gResource_table s arrayIdx, s, w)
      else (EPERS_NOPRCTABLE, s, w))"

text \<open>The key of a resource inside its database.\<close>

definition make_db_key :: "pco \<Rightarrow> names \<Rightarrow> db_context \<Rightarrow> string \<Rightarrow> string" where
  "make_db_key P N c resource_id =
     c_copy (key_name_len P)
      (if ctx_ldbid c < 0x80 \<or> ctx_ldbid c = PCL_LDBID_LOCAL then
         if ctx_user c = 0 \<and> ctx_seat c = 0 then gNode N @ ''/'' @ resource_id
         else if ctx_seat c = 0 then gUser N @ fmt_u (ctx_user c) @ ''/'' @ resource_id
         else gUser N @ fmt_u (ctx_user c) @ gSeat N @ fmt_u (ctx_seat c) @ ''/'' @ resource_id
       else
         if ctx_seat c \<noteq> 0 then
           ''/'' @ fmt_x (ctx_ldbid c) @ gUser N @ fmt_u (ctx_user c) @ gSeat N @ fmt_u (ctx_seat c)
             @ ''/'' @ resource_id
         else ''/'' @ fmt_x (ctx_ldbid c) @ gUser N @ fmt_u (ctx_user c) @ ''/'' @ resource_id)"

text \<open>
  The path of the database; \<open>key_path\<close> is the template for the file of a resource, used when the
  resource is not a key.  A template that prints a NULL key is undefined behaviour, \<open>None\<close>.
\<close>

definition print_path :: "pco \<Rightarrow> nat \<Rightarrow> int \<Rightarrow> string \<Rightarrow> (string \<Rightarrow> string) \<Rightarrow> string option \<Rightarrow> string option" where
  "print_path P n rtype db_path key_path dbKey =
     (if rtype = type_key P then Some (c_copy n db_path)
      else case dbKey of Some key \<Rightarrow> Some (c_copy n (key_path key)) | None \<Rightarrow> None)"

definition make_db_path ::
  "pco \<Rightarrow> names \<Rightarrow> string \<Rightarrow> pers_info \<Rightarrow> string option \<Rightarrow> string \<Rightarrow> string option" where
  "make_db_path P N app info dbKey dbPath =
     (let g = ctx_ldbid (dbctx info); pol = cpolicy (configKey info); t = ctype (configKey info);
          n = path_len P
      in if g < 0x80 then
           if g \<noteq> PCL_LDBID_PUBLIC then
             if policy_wc P = pol then
               print_path P n t (getSharedCachePath N app g) (getSharedCachePathKey N app g) dbKey
             else if policy_wt P = pol then
               print_path P n t (getSharedWtPath N app g) (getSharedWtPathKey N app g) dbKey
             else Some dbPath
           else
             if policy_wc P = pol then
               print_path P n t (getSharedPublicCachePath N app) (getSharedPublicCachePathKey N app) dbKey
             else if policy_wt P = pol then
               print_path P n t (getSharedPublicWtPath N app) (getSharedPublicWtPathKey N app) dbKey
             else Some dbPath
         else
           if policy_wc P = pol then
             print_path P n t (getLocalCachePath N app) (getLocalCachePathKey N app) dbKey
           else if policy_wt P = pol then
             print_path P (n - 1) t (getLocalWtPath N app) (getLocalWtPathKey N app) dbKey
           else Some dbPath)"

definition get_db_path_and_key ::
  "pco \<Rightarrow> names \<Rightarrow> string \<Rightarrow> pers_info \<Rightarrow> string \<Rightarrow> string option \<Rightarrow> string
    \<Rightarrow> (int \<times> string option \<times> string) option" where
  "get_db_path_and_key P N app info resource_id dbKey dbPath =
     (let dbKey = map_option (\<lambda>_. make_db_key P N (dbctx info) resource_id) dbKey in
      case make_db_path P N app info dbKey dbPath of
        None \<Rightarrow> None
      | Some dbPath \<Rightarrow>
          Some (if ctx_ldbid (dbctx info) < 0x80 then storage_shared P else storage_local P, dbKey, dbPath))"

text \<open>
  The configuration of a local resource that has no table entry: the arrays of the structure on the
  caller's stack are overwritten from their start without a terminating NUL, except the custom
  identifier, whose NUL is copied.
\<close>

definition overlay :: "string \<Rightarrow> string \<Rightarrow> string" where
  "overlay new buf = new @ drop (length new) buf"

definition default_config :: "pco \<Rightarrow> bool \<Rightarrow> config_key \<Rightarrow> config_key" where
  "default_config P isFile c =
     c\<lparr>cpolicy := policy_wc P, cstorage := storage_local P, cpermission := perm_rw P,
       cmax_size := max_key_data P,
       ctype := if isFile then type_file P else type_key P,
       ccustomID := overlay (''A_CUSTOM_ID'' @ [CHR 0x00]) (ccustomID c),
       creponsible := overlay ''default'' (creponsible c),
       ccustom_name := overlay ''default'' (ccustom_name c)\<rparr>"

text \<open>
  The key and the path are returned as the strings in the caller's buffers, which the callers clear.
  For a custom storage both are copied with the length of their source: a name that does not fit
  in the buffer with its NUL is \<open>None\<close>.
\<close>

record db_ctx_result =
  res_rval :: int
  res_info :: pers_info
  res_key :: string
  res_path :: string

definition make_db_names ::
  "pco \<Rightarrow> names \<Rightarrow> string \<Rightarrow> pers_info \<Rightarrow> string \<Rightarrow> db_ctx_result option" where
  "make_db_names P N app info resource_id =
     (case get_db_path_and_key P N app info resource_id (Some []) [] of
        Some (r, Some key, path) \<Rightarrow>
          Some \<lparr>res_rval = (if 0 < r then 0 else r), res_info = info, res_key = key, res_path = path\<rparr>
      | _ \<Rightarrow> None)"

definition custom_db_names :: "pco \<Rightarrow> pers_info \<Rightarrow> string \<Rightarrow> db_ctx_result option" where
  "custom_db_names P info resource_id =
     (let name = cstr (ccustom_name (configKey info)) in
      if length name < path_len P \<and> length resource_id < key_name_len P
      then Some \<lparr>res_rval = 0, res_info = info, res_key = resource_id, res_path = name\<rparr>
      else None)"

definition db_context_not_found ::
  "pco \<Rightarrow> names \<Rightarrow> string \<Rightarrow> pers_info \<Rightarrow> string \<Rightarrow> bool \<Rightarrow> int \<Rightarrow> db_ctx_result option" where
  "db_context_not_found P N app info resource_id isFile rval =
     (if ctx_ldbid (dbctx info) = PCL_LDBID_LOCAL
      then make_db_names P N app (info\<lparr>configKey := default_config P isFile (configKey info)\<rparr>) resource_id
      else Some \<lparr>res_rval = (if 0 < rval then 0 else rval), res_info = info, res_key = [], res_path = []\<rparr>)"

definition get_db_context ::
  "pco \<Rightarrow> names \<Rightarrow> string \<Rightarrow> 'w rct_plugin \<Rightarrow> pers_info \<Rightarrow> string \<Rightarrow> bool \<Rightarrow> prct_state \<Rightarrow> 'w
    \<Rightarrow> (db_ctx_result \<times> prct_state \<times> 'w) option" where
  "get_db_context P N app G info resource_id isFile s w =
     (let (rct, groupId) = get_table_id (ctx_ldbid (dbctx info));
          (handleRCT, s, w) = get_resource_cfg_table P N app G rct groupId s w
      in if handleRCT \<ge> 0 then
           case rct_read G of
             Some rctRead \<Rightarrow>
               (let (code, sRctEntry, w) = rctRead handleRCT resource_id w in
                if code = cfg_size P then
                  map_option (\<lambda>r. (r, s, w))
                    (if cstorage sRctEntry \<noteq> storage_custom P
                     then make_db_names P N app (info\<lparr>configKey := sRctEntry\<rparr>) resource_id
                     else custom_db_names P (info\<lparr>configKey := sRctEntry\<rparr>) resource_id)
                else map_option (\<lambda>r. (r, s, w))
                       (db_context_not_found P N app info resource_id isFile EPERS_NOKEYDATA))
           | None \<Rightarrow> map_option (\<lambda>r. (r, s, w))
                       (db_context_not_found P N app info resource_id isFile EPERS_NO_PLUGIN_FUNCT)
         else map_option (\<lambda>r. (r, s, w))
                (db_context_not_found P N app info resource_id isFile handleRCT))"


section \<open>The table index\<close>

lemma sint_small: "(a :: 32 word) < 0x80 \<Longrightarrow> sint a = uint a"
proof -
  assume "a < 0x80"
  then have "uint a < 2 ^ 31"
    by (simp add: word_less_def)
  moreover have "- (2 ^ 31) \<le> uint a"
    by (rule order_trans [OF _ uint_ge_0]) simp
  ultimately show ?thesis
    by (simp add: sint_uint signed_take_bit_int_eq_self)
qed

lemma get_table_index:
  "prct_index (fst (get_table_id a)) (snd (get_table_id a)) =
     (if a < 0x80 then if a = 0 then 1 else 2 + uint a else 0)"
proof -
  have "uint (2 + a) = 2 + uint a" if "a < 0x80"
    using that by (simp add: uint_word_ariths word_less_def)
  then show ?thesis
    by (auto simp: get_table_id_def prct_index_def)
qed

text \<open>
  The index of the resource configuration table of a logical database identifier lies in the
  array of tables, and two identifiers share an entry only if they are equal or both belong to the
  local database (0x80 and above), so no shared database can read another one's table.
\<close>

lemma prct_index_injective:
  "0 \<le> prct_index (fst (get_table_id a)) (snd (get_table_id a)) \<and>
   prct_index (fst (get_table_id a)) (snd (get_table_id a)) < PrctDbTableSize \<and>
   (prct_index (fst (get_table_id a)) (snd (get_table_id a)) =
      prct_index (fst (get_table_id b)) (snd (get_table_id b))
    \<longleftrightarrow> a = b \<or> 0x80 \<le> a \<and> 0x80 \<le> b)"
proof -
  define x y where "x = uint a" and "y = uint b"
  have xy: "0 \<le> x" "0 \<le> y"
    by (simp_all add: x_def y_def)
  have *: "a < 0x80 \<longleftrightarrow> x < 0x80" "b < 0x80 \<longleftrightarrow> y < 0x80" "a = b \<longleftrightarrow> x = y" "a = 0 \<longleftrightarrow> x = 0"
    "b = 0 \<longleftrightarrow> y = 0"
    by (simp_all add: word_less_def x_def y_def word_uint_eq_iff)
  show ?thesis
    unfolding get_table_index not_less [symmetric] * x_def [symmetric] y_def [symmetric] using xy by (simp; linarith)
qed

section \<open>Opening a table once\<close>

definition prct_inv :: "prct_state \<Rightarrow> bool" where
  "prct_inv s \<longleftrightarrow> (\<forall>i. (gResourceOpen s i = 0 \<longrightarrow> gResource_table s i < 0) \<and>
                    (gResourceOpen s i \<noteq> 0 \<longrightarrow> 0 \<le> gResource_table s i))"

lemma prct_inv_init: "prct_inv prct_init"
  by (simp add: prct_inv_def prct_init_def)

lemma prct_inv_invalidate: "prct_inv s \<Longrightarrow> prct_inv (invalidate_resource_cfg_table i s)"
  by (simp add: prct_inv_def invalidate_resource_cfg_table_def)

lemma prct_inv_get:
  "prct_inv s \<Longrightarrow> get_resource_cfg_table P N app G rct grp s w = (h, s', w') \<Longrightarrow> prct_inv s'"
  by (auto simp: prct_inv_def get_resource_cfg_table_def Let_def split: if_splits option.splits prod.splits)

text \<open>
  A table that was opened stays open: after a call that gave a valid handle, the next call for
  the same table gives the same handle, whatever the plugin and the world, and calls no plugin
  function (the world and the array are unchanged), as long as the open flags agree with the array.
\<close>

lemma get_resource_cfg_table_cached:
  assumes "prct_inv s" "get_resource_cfg_table P N app G rct grp s w = (h, s', w')" "0 \<le> h"
  shows "get_resource_cfg_table P' N' app' G' rct grp s' w'' = (h, s', w'') \<and> prct_inv s' \<and>
         get_resource_cfg_table_by_idx s' (prct_index rct grp) = h"
proof -
  have "prct_inv s'"
    using assms(1,2) by (rule prct_inv_get)
  moreover have "0 \<le> prct_index rct grp"
    by (simp add: prct_index_def)
  ultimately show ?thesis
    using assms
    by (auto simp: get_resource_cfg_table_def get_resource_cfg_table_by_idx_def prct_inv_def Let_def
             split: if_splits option.splits prod.splits)
qed

definition names_1 :: names where
  "names_1 = \<lparr>org_root = ''/Data'', gNode = ''/Node'', gUser = ''/User/'', gSeat = ''/Seat/'',
     gResTableCfg = ''/resource-table-cfg.itz'', gLocalWt = ''/wt.itz'', gLocalCached = ''/cached.itz'',
     gLocalConfigurableDefault = ''/configurable-default-data.itz'',
     gLocalFactoryDefault = ''/default-data.itz''\<rparr>"

text \<open>A plugin that counts its calls in the world and holds one entry.\<close>

definition config_1 :: config_key where
  "config_1 = \<lparr>cpolicy = 1, cstorage = 0, ctype = 0, cpermission = 0, cmax_size = 16,
     creponsible = ''default'', ccustom_name = [], ccustomID = []\<rparr>"

definition rct_1 :: "nat rct_plugin" where
  "rct_1 = \<lparr>rct_open = Some (\<lambda>f m w. (3, w + 1)), rct_close = Some (\<lambda>h w. (0, w + 1)),
     rct_read = Some (\<lambda>h k w. (if k = ''pos'' then 144 else -1, config_1, w + 1))\<rparr>"

lemma get_resource_cfg_table_cached_witness:
  "fst (get_resource_cfg_table pco_1 names_1 ''app'' rct_1 PersistenceRCT_shared_group 5
     (fst (snd (get_resource_cfg_table pco_1 names_1 ''app'' rct_1 PersistenceRCT_shared_group 5 prct_init 0))) 7)
   = 3"
proof -
  obtain s' w' where "get_resource_cfg_table pco_1 names_1 ''app'' rct_1 PersistenceRCT_shared_group 5 prct_init 0
      = (3, s', w')"
    by (simp add: get_resource_cfg_table_def prct_index_def prct_init_def rct_1_def Let_def)
  from get_resource_cfg_table_cached [OF prct_inv_init this, of pco_1 names_1 "''app''" rct_1 7] this
  show ?thesis
    by simp
qed

section \<open>The database key\<close>

definition std_names :: "names \<Rightarrow> bool" where
  "std_names N \<longleftrightarrow> gNode N = ''/Node'' \<and> gUser N = ''/User/'' \<and> gSeat N = ''/Seat/''"

definition full_key :: "db_context \<Rightarrow> string \<Rightarrow> string list" where
  "full_key c r =
     (if ctx_ldbid c < 0x80 \<or> ctx_ldbid c = 0xFF then
        if ctx_user c = 0 \<and> ctx_seat c = 0 then [''Node'']
        else ''User'' # fmt_u (ctx_user c) # (if ctx_seat c = 0 then [] else [''Seat'', fmt_u (ctx_seat c)])
      else fmt_x (ctx_ldbid c) # ''User'' # fmt_u (ctx_user c)
        # (if ctx_seat c = 0 then [] else [''Seat'', fmt_u (ctx_seat c)])) @ [r]"

lemma split_slash_start: "split_slash (CHR ''/'' # s) = [] # split_slash s"
  by simp

lemma split_make_db_key:
  assumes "std_names N" "length (make_db_key P N c r) < key_name_len P - 1" "CHR ''/'' \<notin> set r"
  shows "split_slash (make_db_key P N c r) = [] # full_key c r"
proof -
  have u: "split_slash (''User/'' @ s) = ''User'' # split_slash s"
    and t: "split_slash (''Seat/'' @ s) = ''Seat'' # split_slash s"
    and n: "split_slash (''Node/'' @ s) = ''Node'' # split_slash s" for s
    using split_slash_append [of "''User''" s] split_slash_append [of "''Seat''" s]
      split_slash_append [of "''Node''" s] by simp_all
  show ?thesis
    using assms u t n
    by (simp add: std_names_def make_db_key_def c_copy_def full_key_def split_slash_start
          del: split_slash.simps(2))
qed


definition ctx_1 :: db_context where
  "ctx_1 = \<lparr>ctx_ldbid = 0xFF, ctx_user = 2, ctx_seat = 1\<rparr>"


section \<open>The context of a resource\<close>

definition store_policy :: "pco \<Rightarrow> 32 word \<Rightarrow> int" where
  "store_policy P g = (if g < 0x80 then storage_shared P else storage_local P)"

lemma make_db_names_total:
  "\<exists>path. make_db_names P N app info r =
     Some \<lparr>res_rval = (if 0 < store_policy P (ctx_ldbid (dbctx info)) then 0 else store_policy P (ctx_ldbid (dbctx info))),
           res_info = info, res_key = make_db_key P N (dbctx info) r, res_path = path\<rparr>"
  by (auto simp: make_db_names_def get_db_path_and_key_def make_db_path_def print_path_def Let_def store_policy_def)

lemma make_db_names_rval:
  "pco_ok P \<Longrightarrow> make_db_names P N app info r = Some x \<Longrightarrow>
     res_rval x = 0 \<and> res_info x = info \<and> res_key x = make_db_key P N (dbctx info) r"
  using make_db_names_total [of P N app info r] by (auto simp: pco_ok_def store_policy_def)

lemma custom_db_names_rval:
  "custom_db_names P info r = Some x \<Longrightarrow> res_rval x = 0 \<and> res_info x = info \<and> res_key x = r"
  by (auto simp: custom_db_names_def Let_def split: if_splits)

lemma db_context_not_found_rval:
  "pco_ok P \<Longrightarrow> db_context_not_found P N app info r f v = Some x \<Longrightarrow>
     (if ctx_ldbid (dbctx info) = PCL_LDBID_LOCAL
      then res_rval x = 0 \<and> res_info x = info\<lparr>configKey := default_config P f (configKey info)\<rparr>
      else res_rval x = (if 0 < v then 0 else v) \<and> res_info x = info)"
  by (auto simp: db_context_not_found_def dest!: make_db_names_rval)

lemma get_db_context_ctx:
  assumes "pco_ok P" "get_db_context P N app G info r isFile s w = Some (x, s', w')"
  shows "dbctx (res_info x) = dbctx info"
  using assms
  by (auto simp: get_db_context_def Let_def split: prod.splits if_splits option.splits
        dest!: db_context_not_found_rval [OF assms(1)] make_db_names_rval [OF assms(1)] custom_db_names_rval)

section \<open>Tables that are read only\<close>

text \<open>A plugin whose tables do not depend on the world: opening and reading them always give the same.\<close>

definition pure_rct :: "'w rct_plugin \<Rightarrow> bool" where
  "pure_rct G \<longleftrightarrow>
     (\<forall>f. rct_open G = Some f \<longrightarrow> (\<exists>g. f = (\<lambda>p m w. (g p m, w)))) \<and>
     (\<forall>f. rct_read G = Some f \<longrightarrow> (\<exists>g e. f = (\<lambda>h k w. (g h k, e h k, w))))"

lemma get_table_again:
  assumes "pure_rct G" "get_resource_cfg_table P N app G rct grp s w = (h, s', w')"
  shows "w' = w \<and> get_resource_cfg_table P N app G rct grp s' w2 = (h, s', w2)"
  using assms
  by (auto simp: get_resource_cfg_table_def pure_rct_def Let_def split: if_splits option.splits prod.splits)

lemma get_db_context_again:
  assumes "pure_rct G" "get_db_context P N app G info r isFile s w = Some (x, s', w')"
  shows "w' = w \<and> get_db_context P N app G info r isFile s' w2 = Some (x, s', w2)"
proof -
  obtain rct grp where t: "get_table_id (ctx_ldbid (dbctx info)) = (rct, grp)"
    by (cases "get_table_id (ctx_ldbid (dbctx info))")
  obtain h p v where g: "get_resource_cfg_table P N app G rct grp s w = (h, p, v)"
    by (metis prod_cases3)
  have "s' = p"
    using assms(2) t g by (auto simp: get_db_context_def Let_def split: prod.splits if_splits option.splits)
  moreover from get_table_again [OF assms(1) g]
  have "v = w" "\<And>w2. get_resource_cfg_table P N app G rct grp p w2 = (h, p, w2)"
    using get_table_again [OF assms(1) g] by simp_all
  ultimately show ?thesis
    using assms t g
    by (auto simp: get_db_context_def pure_rct_def Let_def split: if_splits option.splits prod.splits)
qed

text \<open>
  The result of a context lookup is 0 or an error of the documented kinds, never positive; an
  error is returned for identifiers other than the local one (0xFF) only, and leaves the caller's
  information unchanged.
\<close>

lemma get_db_context_result:
  assumes "pco_ok P" "get_db_context P N app G info r isFile s w = Some (x, s', w')"
  shows "res_rval x \<le> 0 \<and> dbctx (res_info x) = dbctx info \<and>
    (res_rval x < 0 \<longrightarrow>
       ctx_ldbid (dbctx info) \<noteq> PCL_LDBID_LOCAL \<and> res_info x = info \<and>
       (res_rval x \<in> {EPERS_NOKEYDATA, EPERS_NO_PLUGIN_FUNCT} \<or>
        (\<exists>rct grp. get_table_id (ctx_ldbid (dbctx info)) = (rct, grp) \<and>
           res_rval x = fst (get_resource_cfg_table P N app G rct grp s w))))"
  using assms
  by (auto simp: get_db_context_def Let_def split: prod.splits if_splits option.splits
        dest!: db_context_not_found_rval [OF assms(1)] make_db_names_rval [OF assms(1)] custom_db_names_rval)

definition info_1 :: pers_info where
  "info_1 = \<lparr>dbctx = \<lparr>ctx_ldbid = 5, ctx_user = 0, ctx_seat = 0\<rparr>,
     configKey = \<lparr>cpolicy = 0, cstorage = 0, ctype = 0, cpermission = 0, cmax_size = 0,
       creponsible = [], ccustom_name = [], ccustomID = []\<rparr>\<rparr>"

lemma get_db_context_result_witness:
  "case get_db_context pco_1 names_1 ''app'' rct_1 info_1 ''other'' False prct_init 0 of
     Some (x, _, _) \<Rightarrow> res_rval x \<le> 0 \<and> res_rval x = EPERS_NOKEYDATA | None \<Rightarrow> False"
proof -
  obtain x s' w' where *: "get_db_context pco_1 names_1 ''app'' rct_1 info_1 ''other'' False prct_init 0 = Some (x, s', w')"
    and "res_rval x = EPERS_NOKEYDATA"
    by (simp add: get_db_context_def get_table_id_def info_1_def get_resource_cfg_table_def prct_index_def
        prct_init_def rct_1_def pco_1_def Let_def db_context_not_found_def)
  with get_db_context_result [OF pco_1_ok *] show ?thesis
    by simp
qed

text \<open>
  A local resource that the configuration table does not hold is given the default
  configuration: cached, local, read-write, of the kind the caller asked for, with the largest data
  size, and its database is the application's cache; the lookup succeeds.
\<close>

lemma get_db_context_local_default:
  assumes "pco_ok P" "ctx_ldbid (dbctx info) = PCL_LDBID_LOCAL"
    and "get_resource_cfg_table P N app G PersistenceRCT_local 0 s w = (h, s', w')"
    and "h < 0 \<or> rct_read G = None \<or>
         (\<exists>f code e w'' . rct_read G = Some f \<and> f h r w' = (code, e, w'') \<and> code \<noteq> cfg_size P)"
  shows "\<exists>x w''. get_db_context P N app G info r False s w = Some (x, s', w'') \<and> res_rval x = 0 \<and>
    cpolicy (configKey (res_info x)) = policy_wc P \<and> cstorage (configKey (res_info x)) = storage_local P \<and>
    cpermission (configKey (res_info x)) = perm_rw P \<and> ctype (configKey (res_info x)) = type_key P \<and>
    cmax_size (configKey (res_info x)) = max_key_data P \<and>
    res_key x = make_db_key P N (dbctx info) r \<and>
    res_path x = c_copy (path_len P) (getLocalCachePath N app)"
proof -
  have "get_table_id (0xFF :: 32 word) = (PersistenceRCT_local, 0)"
    by (simp add: get_table_id_def)
  moreover have "\<exists>x. db_context_not_found P N app info r False v = Some x \<and> res_rval x = 0 \<and>
      cpolicy (configKey (res_info x)) = policy_wc P \<and> cstorage (configKey (res_info x)) = storage_local P \<and>
      cpermission (configKey (res_info x)) = perm_rw P \<and> ctype (configKey (res_info x)) = type_key P \<and>
      cmax_size (configKey (res_info x)) = max_key_data P \<and>
      res_key x = make_db_key P N (dbctx info) r \<and>
      res_path x = c_copy (path_len P) (getLocalCachePath N app)" for v
    using assms(1,2)
    by (auto simp add: db_context_not_found_def make_db_names_def get_db_path_and_key_def make_db_path_def
        print_path_def default_config_def pco_ok_def Let_def)
  ultimately show ?thesis
    using assms(2-4) by (auto simp: get_db_context_def Let_def)
qed

definition info_2 :: pers_info where
  "info_2 = info_1\<lparr>dbctx := \<lparr>ctx_ldbid = 0xFF, ctx_user = 0, ctx_seat = 0\<rparr>\<rparr>"

lemma get_db_context_local_default_witness:
  "\<exists>x s' w'. get_db_context pco_1 names_1 ''app'' rct_1 info_2 ''other'' False prct_init 0 = Some (x, s', w')
     \<and> res_rval x = 0 \<and> cpermission (configKey (res_info x)) = perm_rw pco_1"
proof -
  have "ctx_ldbid (dbctx info_2) = 0xFF"
    by (simp add: info_2_def)
  moreover obtain s' w' where g: "get_resource_cfg_table pco_1 names_1 ''app'' rct_1 PersistenceRCT_local 0 prct_init 0
      = (3, s', w')"
    by (simp add: get_resource_cfg_table_def prct_index_def prct_init_def rct_1_def Let_def)
  moreover have "(3 :: int) < 0 \<or> rct_read rct_1 = None \<or>
      (\<exists>f code e w''. rct_read rct_1 = Some f \<and> f 3 ''other'' w' = (code, e, w'') \<and> code \<noteq> cfg_size pco_1)"
    by (simp add: rct_1_def pco_1_def)
  ultimately show ?thesis
    using get_db_context_local_default [OF pco_1_ok, of info_2 names_1 "''app''" rct_1 prct_init 0 3 s' w' "''other''"]
    by blast
qed

end
