(* ===== verification/Custom_Loader.thy ===== *)
theory Custom_Loader
  imports Prct_Access
begin

text \<open>
  The plugin loader (\<^verbatim>\<open>persistence_client_library_custom_loader.c\<close>): the configuration file of the
  custom libraries, the translation of library names, and the function pointers taken from a loaded
  library.  What \<^verbatim>\<open>dlopen\<close> finds under a file name is a parameter: \<open>default_lib\<close> and \<open>custom_lib\<close> list
  the symbols of a library, a missing one being \<open>None\<close>, and the functions act on a world \<open>'w\<close>.
\<close>

section \<open>Libraries and state\<close>

type_synonym byte_buf = "8 word list"

text \<open>The database functions of the default plugin; reading also gives the new buffer.\<close>

record 'w db_plugin =
  db_open :: "(string \<Rightarrow> int \<Rightarrow> 'w \<Rightarrow> int \<times> 'w) option"
  db_close :: "(int \<Rightarrow> 'w \<Rightarrow> int \<times> 'w) option"
  db_write :: "(int \<Rightarrow> string \<Rightarrow> byte_buf \<Rightarrow> int \<Rightarrow> 'w \<Rightarrow> int \<times> 'w) option"
  db_read :: "(int \<Rightarrow> string \<Rightarrow> byte_buf \<Rightarrow> int \<Rightarrow> 'w \<Rightarrow> int \<times> byte_buf \<times> 'w) option"
  db_size :: "(int \<Rightarrow> string \<Rightarrow> 'w \<Rightarrow> int \<times> 'w) option"
  db_delete :: "(int \<Rightarrow> string \<Rightarrow> 'w \<Rightarrow> int \<times> 'w) option"

record 'w default_lib =
  dl_db :: "'w db_plugin"
  dl_rct :: "'w rct_plugin"
  dl_gUser :: "string option"
  dl_gLocalWt :: "string option"
  dl_gSeat :: "string option"
  dl_gLocalFactoryDefault :: "string option"
  dl_gLocalCached :: "string option"
  dl_gNode :: "string option"
  dl_gLocalConfigurableDefault :: "string option"
  dl_gResTableCfg :: "string option"

text \<open>
  \<^verbatim>\<open>Pers_custom_functs_s\<close> with the functions the library calls; the pointers it loads and never calls
  are left out.
\<close>

record 'w custom_functs =
  cf_handle :: bool
  cf_delete_data :: "(string \<Rightarrow> 'w \<Rightarrow> int \<times> 'w) option"
  cf_get_size :: "(string \<Rightarrow> 'w \<Rightarrow> int \<times> 'w) option"
  cf_get_data :: "(string \<Rightarrow> byte_buf \<Rightarrow> int \<Rightarrow> 'w \<Rightarrow> int \<times> byte_buf \<times> 'w) option"
  cf_set_data :: "(string \<Rightarrow> byte_buf \<Rightarrow> int \<Rightarrow> 'w \<Rightarrow> int \<times> 'w) option"
  cf_init :: "('w \<Rightarrow> 'w) option"
  cf_init_async :: "('w \<Rightarrow> 'w) option"
  cf_deinit :: "('w \<Rightarrow> 'w) option"

datatype load_type = LoadType_PclInit | LoadType_OnDemand | LoadType_Undefined

datatype init_type = Init_Synchronous | Init_Asynchronous | Init_Undefined

record lib_info =
  libname :: string
  valid :: int
  initFunction :: init_type
  loadingType :: load_type

record 'w loader =
  gCustomLibArray :: "int \<Rightarrow> lib_info"
  gPersCustomFuncs :: "int \<Rightarrow> 'w custom_functs"
  gpCustomTokenArray :: "string list"
  plugin_db :: "'w db_plugin"
  plugin_rct :: "'w rct_plugin"
  plugin_names :: names

text \<open>What \<^verbatim>\<open>dlopen\<close> gives for a file name, as the default library and as a custom one.\<close>

record 'w dl_world =
  dl_default :: "string \<Rightarrow> 'w default_lib option"
  dl_custom :: "string \<Rightarrow> 'w custom_functs option"

abbreviation (input) PersCustomLib_default :: int where "PersCustomLib_default \<equiv> 0"
abbreviation (input) PersCustomLib_LastEntry :: int where "PersCustomLib_LastEntry \<equiv> 9"
abbreviation (input) TOKENARRAYSIZE :: nat where "TOKENARRAYSIZE \<equiv> 255"
abbreviation (input) PersCustomPathSize :: nat where "PersCustomPathSize \<equiv> 24"

definition null_functs :: "'w custom_functs" where
  "null_functs = \<lparr>cf_handle = False, cf_delete_data = None, cf_get_size = None, cf_get_data = None,
     cf_set_data = None, cf_init = None, cf_init_async = None, cf_deinit = None\<rparr>"

definition invalidate_custom_plugin :: "int \<Rightarrow> 'w loader \<Rightarrow> 'w loader" where
  "invalidate_custom_plugin i s = s\<lparr>gPersCustomFuncs := (gPersCustomFuncs s)(i := null_functs)\<rparr>"

section \<open>Names of libraries\<close>

definition plugin_types :: "(string \<times> int) list" where
  "plugin_types = [(''default'', 0), (''early'', 1), (''secure'', 2), (''emergency'', 4), (''hwinfo'', 5),
     (''custom1'', 6), (''custom2'', 7), (''custom3'', 8)]"

text \<open>\<^verbatim>\<open>strncmp\<close> giving 0, and \<^verbatim>\<open>strstr\<close> finding its argument.\<close>

definition strn_eq :: "nat \<Rightarrow> string \<Rightarrow> string \<Rightarrow> bool" where
  "strn_eq n a b \<longleftrightarrow> take n a = take n b"

fun str_in :: "string \<Rightarrow> string \<Rightarrow> bool" where
  "str_in b [] \<longleftrightarrow> b = []"
| "str_in b (c # a) \<longleftrightarrow> take (length b) (c # a) = b \<or> str_in b a"

definition custom_client_name_to_id :: "string \<Rightarrow> bool \<Rightarrow> int" where
  "custom_client_name_to_id lib_name substring =
     (case find (\<lambda>(t, _). if substring then str_in t lib_name else strn_eq PersCustomPathSize lib_name t)
        plugin_types of
        Some (_, i) \<Rightarrow> i | None \<Rightarrow> PersCustomLib_LastEntry)"

definition getLoadingType :: "string \<Rightarrow> load_type" where
  "getLoadingType t =
     (if t = ''init'' then LoadType_PclInit else if t = ''od'' then LoadType_OnDemand else LoadType_Undefined)"

definition getInitType :: "string \<Rightarrow> init_type" where
  "getInitType p =
     (if p = ''sync'' then Init_Synchronous else if p = ''async'' then Init_Asynchronous else Init_Undefined)"

section \<open>The configuration file\<close>

text \<open>The entry of \<^verbatim>\<open>gCharLookup\<close>, \<open>None\<close> outside the 127 entries of the table.\<close>

definition gCharLookup :: "char \<Rightarrow> nat option" where
  "gCharLookup c = (let n = of_char c :: nat in
     if n \<le> 0x20 then Some 0 else if n \<le> 0x7E then Some 1 else None)"

text \<open>
  The tokens of the mapped file.  The token array holds at most 255 pointers: at the separator that
  would need another one the loop stops.  \<open>n\<close> counts the pointers set, \<open>cur\<close> is the current token.
\<close>

fun split_tokens :: "nat \<Rightarrow> string \<Rightarrow> string \<Rightarrow> string list option" where
  "split_tokens n cur [] = Some [cur]"
| "split_tokens n cur (c # cs) =
     (case gCharLookup c of
        None \<Rightarrow> None
      | Some l \<Rightarrow>
          if l \<noteq> 1 then
            if n \<ge> TOKENARRAYSIZE then Some [cur]
            else map_option (\<lambda>ts. cur # ts) (split_tokens (n + 1) [] cs)
          else split_tokens n (cur @ [c]) cs)"

text \<open>The static array keeps the pointers of an earlier call behind the new ones.\<close>

definition fillCustomCharTokenArray :: "string \<Rightarrow> string list \<Rightarrow> string list option" where
  "fillCustomCharTokenArray file old =
     map_option (\<lambda>ts. ts @ drop (length ts) old) (split_tokens 1 [] file)"

text \<open>
  Four tokens describe a library.  A name that is not a plugin type indexes the array one past its
  end, \<open>None\<close>.
\<close>

fun read_entries :: "nat \<Rightarrow> nat \<Rightarrow> string list \<Rightarrow> (int \<Rightarrow> lib_info) \<Rightarrow> (int \<Rightarrow> lib_info) option" where
  "read_entries namelen i (n # l # t # p # rest) a =
     (if i < TOKENARRAYSIZE - 3 then
        let libId = custom_client_name_to_id n False in
        if libId < PersCustomLib_LastEntry then
          read_entries namelen (i + 4) rest
            (a(libId := \<lparr>libname = c_copy namelen l, valid = 1, initFunction = getInitType p,
                          loadingType = getLoadingType t\<rparr>))
        else None
      else Some a)"
| "read_entries namelen i _ a = Some a"

datatype conf_file = NoStat | EmptyFile | OpenFails | MapFails | Contents string

definition invalid_lib :: "lib_info \<Rightarrow> lib_info" where
  "invalid_lib l = l\<lparr>valid := -1\<rparr>"

definition get_custom_libraries :: "nat \<Rightarrow> conf_file \<Rightarrow> 'w loader \<Rightarrow> (int \<times> 'w loader) option" where
  "get_custom_libraries namelen file s =
     (let a = (\<lambda>j. if 0 \<le> j \<and> j < PersCustomLib_LastEntry then invalid_lib (gCustomLibArray s j)
                   else gCustomLibArray s j);
          s = s\<lparr>gCustomLibArray := a\<rparr>
      in case file of
           Contents text \<Rightarrow>
             (case fillCustomCharTokenArray text (gpCustomTokenArray s) of
                None \<Rightarrow> None
              | Some toks \<Rightarrow>
                  map_option (\<lambda>a. (0, s\<lparr>gpCustomTokenArray := toks, gCustomLibArray := a\<rparr>))
                    (read_entries namelen 0 toks a))
         | _ \<Rightarrow> Some (EPERS_COMMON, s))"

section \<open>Loading\<close>

definition or_old :: "'a option \<Rightarrow> 'a \<Rightarrow> 'a" where
  "or_old new old = (case new of Some x \<Rightarrow> x | None \<Rightarrow> old)"

definition load_default_library :: "'w default_lib option \<Rightarrow> 'w loader \<Rightarrow> int \<times> 'w loader" where
  "load_default_library handle s =
     (case handle of
        None \<Rightarrow> (EPERS_DLOPENERROR, s)
      | Some l \<Rightarrow>
          (let N = plugin_names s;
               N = N\<lparr>gUser := or_old (dl_gUser l) (gUser N), gLocalWt := or_old (dl_gLocalWt l) (gLocalWt N),
                     gSeat := or_old (dl_gSeat l) (gSeat N),
                     gLocalFactoryDefault := or_old (dl_gLocalFactoryDefault l) (gLocalFactoryDefault N),
                     gLocalCached := or_old (dl_gLocalCached l) (gLocalCached N),
                     gNode := or_old (dl_gNode l) (gNode N),
                     gLocalConfigurableDefault :=
                       or_old (dl_gLocalConfigurableDefault l) (gLocalConfigurableDefault N),
                     gResTableCfg := or_old (dl_gResTableCfg l) (gResTableCfg N)\<rparr>;
               vars = [dl_gUser l, dl_gLocalWt l, dl_gSeat l, dl_gLocalFactoryDefault l, dl_gLocalCached l,
                       dl_gNode l, dl_gLocalConfigurableDefault l, dl_gResTableCfg l]
           in (if None \<in> set vars then EPERS_NO_PLUGIN_VAR else 0,
               s\<lparr>plugin_db := dl_db l, plugin_rct := dl_rct l, plugin_names := N\<rparr>)))"

text \<open>The call of the initialisation function of a custom library.\<close>

definition init_custom :: "init_type \<Rightarrow> 'w custom_functs \<Rightarrow> 'w \<Rightarrow> int \<times> 'w" where
  "init_custom t f w =
     (case t of
        Init_Synchronous \<Rightarrow> (case cf_init f of Some g \<Rightarrow> (1, g w) | None \<Rightarrow> (EPERS_COMMON, w))
      | Init_Asynchronous \<Rightarrow> (case cf_init_async f of Some g \<Rightarrow> (1, g w) | None \<Rightarrow> (EPERS_COMMON, w))
      | Init_Undefined \<Rightarrow> (EPERS_COMMON, w))"

definition load_custom_library :: "'w dl_world \<Rightarrow> int \<Rightarrow> 'w loader \<Rightarrow> 'w \<Rightarrow> int \<times> 'w loader \<times> 'w" where
  "load_custom_library D i s w =
     (if 0 \<le> i \<and> i < PersCustomLib_LastEntry then
        let lib = gCustomLibArray s i in
        if i = PersCustomLib_default then
          let handle = dl_default D (libname lib);
              s = s\<lparr>gPersCustomFuncs := (gPersCustomFuncs s)
                    (i := (gPersCustomFuncs s i)\<lparr>cf_handle := handle \<noteq> None\<rparr>)\<rparr>;
              (r, s) = load_default_library handle s
          in (if r < 0 then EPERS_DLOPENERROR else 1, s, w)
        else
          case dl_custom D (libname lib) of
            Some f \<Rightarrow>
              (let f = f\<lparr>cf_handle := True\<rparr>;
                   s = s\<lparr>gPersCustomFuncs := (gPersCustomFuncs s)(i := f)\<rparr>;
                   (r, w) = init_custom (initFunction lib) f w
               in (r, s, w))
          | None \<Rightarrow>
              (EPERS_DLOPENERROR,
               s\<lparr>gPersCustomFuncs := (gPersCustomFuncs s)(i := (gPersCustomFuncs s i)\<lparr>cf_handle := False\<rparr>)\<rparr>, w)
      else (EPERS_DLOPENERROR, s, w))"

definition check_valid_idx :: "'w loader \<Rightarrow> int \<Rightarrow> int" where
  "check_valid_idx s i = (if i < PersCustomLib_LastEntry then valid (gCustomLibArray s i) else -1)"

definition getCustomLoadingType :: "'w loader \<Rightarrow> int \<Rightarrow> load_type" where
  "getCustomLoadingType s i = loadingType (gCustomLibArray s i)"

definition get_custom_client_lib_name :: "'w loader \<Rightarrow> int \<Rightarrow> string option" where
  "get_custom_client_lib_name s i =
     (if i < PersCustomLib_LastEntry then Some (libname (gCustomLibArray s i)) else None)"

fun load_plugins_loop ::
  "'w dl_world \<Rightarrow> int list \<Rightarrow> int \<Rightarrow> 'w loader \<Rightarrow> 'w \<Rightarrow> int \<times> 'w loader \<times> 'w" where
  "load_plugins_loop D [] rval s w = (rval, s, w)"
| "load_plugins_loop D (i # is) rval s w =
     (if check_valid_idx s i \<noteq> -1 \<and> getCustomLoadingType s i = LoadType_PclInit then
        let (rval, s, w) = load_custom_library D i s w in load_plugins_loop D is rval s w
      else load_plugins_loop D is rval s w)"

definition load_custom_plugins ::
  "nat \<Rightarrow> conf_file \<Rightarrow> 'w dl_world \<Rightarrow> 'w loader \<Rightarrow> 'w \<Rightarrow> (int \<times> 'w loader \<times> 'w) option" where
  "load_custom_plugins namelen file D s w =
     (case get_custom_libraries namelen file s of
        None \<Rightarrow> None
      | Some (r, s) \<Rightarrow>
          if r \<ge> 0 then
            let s = s\<lparr>gPersCustomFuncs := (\<lambda>j. if 0 \<le> j \<and> j < PersCustomLib_LastEntry then null_functs
                                              else gPersCustomFuncs s j)\<rparr>
            in Some (load_plugins_loop D [0..8] 0 s w)
          else Some (EPERS_COMMON, s, w))"

section \<open>Names\<close>

lemma strn_eq_short: "length b < n \<Longrightarrow> strn_eq n a b \<longleftrightarrow> a = b"
  by (auto simp: strn_eq_def dest: arg_cong [where f = length])

lemma custom_client_name_to_id_exact:
  "custom_client_name_to_id n False = i \<longleftrightarrow>
     (n, i) \<in> set plugin_types \<or> i = PersCustomLib_LastEntry \<and> n \<notin> fst ` set plugin_types"
  by (auto simp: custom_client_name_to_id_def plugin_types_def strn_eq_short)

lemma custom_client_name_to_id_cases:
  "0 \<le> custom_client_name_to_id n b \<and> custom_client_name_to_id n b \<le> PersCustomLib_LastEntry \<and>
   custom_client_name_to_id n b \<noteq> 3"
  by (simp add: custom_client_name_to_id_def plugin_types_def)

section \<open>Reading the configuration file\<close>

definition is_word :: "string \<Rightarrow> bool" where
  "is_word t \<longleftrightarrow> (\<forall>c \<in> set t. gCharLookup c = Some 1)"

definition is_sep :: "char \<Rightarrow> bool" where
  "is_sep c \<longleftrightarrow> gCharLookup c = Some 0"

lemma split_tokens_word:
  "is_word t \<Longrightarrow> is_sep c \<Longrightarrow> n < TOKENARRAYSIZE \<Longrightarrow>
     split_tokens n cur (t @ c # rest) = map_option (\<lambda>ts. (cur @ t) # ts) (split_tokens (n + 1) [] rest)"
  by (induction t arbitrary: cur) (auto simp: is_word_def is_sep_def)

definition render :: "(string \<times> char) list \<Rightarrow> string" where
  "render ts = concat (map (\<lambda>(t, c). t @ [c]) ts)"

lemma split_tokens_render:
  "\<forall>(t, c) \<in> set ts. is_word t \<and> is_sep c \<Longrightarrow> n + length ts \<le> TOKENARRAYSIZE \<Longrightarrow>
     split_tokens n [] (render ts) = Some (map fst ts @ [[]])"
  by (induction ts arbitrary: n) (auto simp: render_def split_tokens_word)

type_synonym lib_entry = "string \<times> string \<times> string \<times> string"

fun entry_tokens :: "lib_entry \<Rightarrow> (string \<times> char) list" where
  "entry_tokens (n, l, t, p) = [(n, CHR '' ''), (l, CHR '' ''), (t, CHR '' ''), (p, CHR 0x0A)]"

definition conf_text :: "lib_entry list \<Rightarrow> string" where
  "conf_text es = render (concat (map entry_tokens es))"

fun store_entry :: "nat \<Rightarrow> lib_entry \<Rightarrow> (int \<Rightarrow> lib_info) \<Rightarrow> int \<Rightarrow> lib_info" where
  "store_entry namelen (n, l, t, p) a =
     a(custom_client_name_to_id n False := \<lparr>libname = c_copy namelen l, valid = 1,
         initFunction = getInitType p, loadingType = getLoadingType t\<rparr>)"

fun entry_ok :: "lib_entry \<Rightarrow> bool" where
  "entry_ok (n, l, t, p) \<longleftrightarrow> n \<in> fst ` set plugin_types \<and> is_word l \<and> is_word t \<and> is_word p"

lemma plugin_type_word: "n \<in> fst ` set plugin_types \<Longrightarrow> is_word n"
  by (auto simp: plugin_types_def is_word_def gCharLookup_def Let_def)

lemma plugin_type_id: "n \<in> fst ` set plugin_types \<Longrightarrow> custom_client_name_to_id n False < PersCustomLib_LastEntry"
  using custom_client_name_to_id_cases [of n False] custom_client_name_to_id_exact [of n "PersCustomLib_LastEntry"]
  by (auto simp: plugin_types_def order.order_iff_strict)

lemma sep_blank [simp]: "is_sep (CHR '' '')" "is_sep (CHR 0x0A)"
  by (simp_all add: is_sep_def gCharLookup_def)

lemma read_entries_list:
  "\<forall>e \<in> set es. entry_ok e \<Longrightarrow> i + 4 * length es \<le> 252 \<Longrightarrow>
     read_entries namelen i (map fst (concat (map entry_tokens es)) @ [[]]) a =
       Some (fold (store_entry namelen) es a)"
  by (induction es arbitrary: i a) (auto simp: plugin_type_id Let_def)

lemma entries_words:
  "\<forall>e \<in> set es. entry_ok e \<Longrightarrow> \<forall>(t, c) \<in> set (concat (map entry_tokens es)). is_word t \<and> is_sep c"
  by (force simp: plugin_type_word)

lemma entries_length: "length (concat (map entry_tokens es)) = 4 * length es"
  by (induction es) auto

lemma get_custom_libraries_conf:
  assumes "gpCustomTokenArray s = []" "length es \<le> 63" "\<forall>e \<in> set es. entry_ok e"
  shows "get_custom_libraries namelen (Contents (conf_text es)) s =
    Some (0, s\<lparr>gpCustomTokenArray := map fst (concat (map entry_tokens es)) @ [[]],
               gCustomLibArray := fold (store_entry namelen) es
                 (\<lambda>j. if 0 \<le> j \<and> j < PersCustomLib_LastEntry then invalid_lib (gCustomLibArray s j)
                      else gCustomLibArray s j)\<rparr>)"
proof -
  have "split_tokens 1 [] (conf_text es) = Some (map fst (concat (map entry_tokens es)) @ [[]])"
    unfolding conf_text_def
    by (rule split_tokens_render [OF entries_words [OF assms(3)]]) (use assms(2) in \<open>simp add: entries_length\<close>)
  then show ?thesis
    using assms read_entries_list [OF assms(3), of 0 namelen]
    by (simp add: get_custom_libraries_def fillCustomCharTokenArray_def Let_def)
qed

text \<open>
  C35: a configuration file that lists known plugin types, one per line with the library file, the
  loading type and the initialisation type, is read back exactly: every entry is stored under its
  library's index (a later line for the same library wins), the libraries not listed are invalid,
  and the call succeeds, for up to 63 lines.
\<close>

theorem get_custom_libraries_parses:
  assumes "gpCustomTokenArray s = []" "length es \<le> 63" "\<forall>e \<in> set es. entry_ok e"
  shows "get_custom_libraries namelen (Contents (conf_text es)) s =
    Some (0, s\<lparr>gpCustomTokenArray := map fst (concat (map entry_tokens es)) @ [[]],
               gCustomLibArray := fold (store_entry namelen) es
                 (\<lambda>j. if 0 \<le> j \<and> j < PersCustomLib_LastEntry then invalid_lib (gCustomLibArray s j)
                      else gCustomLibArray s j)\<rparr>)"
  using assms by (rule get_custom_libraries_conf)

definition lib_0 :: lib_info where
  "lib_0 = \<lparr>libname = [], valid = 0, initFunction = Init_Synchronous, loadingType = LoadType_PclInit\<rparr>"

definition null_db :: "'w db_plugin" where
  "null_db = \<lparr>db_open = None, db_close = None, db_write = None, db_read = None, db_size = None, db_delete = None\<rparr>"

definition null_rct :: "'w rct_plugin" where
  "null_rct = \<lparr>rct_open = None, rct_close = None, rct_read = None\<rparr>"

definition loader_0 :: "'w loader" where
  "loader_0 = \<lparr>gCustomLibArray = (\<lambda>_. lib_0), gPersCustomFuncs = (\<lambda>_. null_functs), gpCustomTokenArray = [],
     plugin_db = null_db, plugin_rct = null_rct, plugin_names = names_1\<rparr>"

theorem get_custom_libraries_parses_witness:
  "\<exists>s'. get_custom_libraries 64 (Contents (conf_text [(''early'', ''/usr/lib/libearly.so'', ''od'', ''sync'')]))
     (loader_0 :: nat loader) = Some (0, s') \<and> valid (gCustomLibArray s' 1) = 1 \<and>
     loadingType (gCustomLibArray s' 1) = LoadType_OnDemand \<and> valid (gCustomLibArray s' 0) = -1"
proof -
  have "\<forall>e \<in> set [(''early'', ''/usr/lib/libearly.so'', ''od'', ''sync'')]. entry_ok e"
    by (simp add: plugin_types_def is_word_def gCharLookup_def)
  from get_custom_libraries_parses [OF _ _ this, of "loader_0 :: nat loader" 64] show ?thesis
    by (simp add: loader_0_def custom_client_name_to_id_def plugin_types_def strn_eq_def getLoadingType_def
        invalid_lib_def)
qed

text \<open>
  The name in the first column is used as an array index without a check: a file whose first
  token is not a plugin type writes past the end of the library array.
\<close>

lemma get_custom_libraries_unknown_name:
  assumes "is_word n" "n \<notin> fst ` set plugin_types" "is_word l" "is_word t" "is_word p" "gpCustomTokenArray s = []"
  shows "get_custom_libraries namelen (Contents (conf_text [(n, l, t, p)])) s = None"
proof -
  have "split_tokens 1 [] (conf_text [(n, l, t, p)]) = Some [n, l, t, p, []]"
    using split_tokens_render [of "entry_tokens (n, l, t, p)" 1] assms
    by (simp add: conf_text_def)
  moreover have "custom_client_name_to_id n False = PersCustomLib_LastEntry"
    using assms(2) by (simp add: custom_client_name_to_id_exact)
  ultimately show ?thesis
    using assms(6) by (simp add: get_custom_libraries_def fillCustomCharTokenArray_def Let_def)
qed

lemma get_custom_libraries_unknown_name_witness:
  "get_custom_libraries 64 (Contents (conf_text [(''custom4'', ''lib.so'', ''od'', ''sync'')])) (loader_0 :: nat loader)
     = None"
  by (rule get_custom_libraries_unknown_name)
    (simp_all add: plugin_types_def is_word_def gCharLookup_def loader_0_def)

section \<open>Loading the plugins\<close>

lemma load_default_library_libs: "load_default_library h s = (r, s') \<Longrightarrow> gCustomLibArray s' = gCustomLibArray s"
  by (auto simp: load_default_library_def Let_def split: option.splits)

lemma load_custom_library_libs:
  "load_custom_library D i s w = (r, s', w') \<Longrightarrow> gCustomLibArray s' = gCustomLibArray s"
  by (auto simp: load_custom_library_def Let_def split: if_splits option.splits prod.splits
      dest!: load_default_library_libs)

definition init_loaded :: "(int \<Rightarrow> lib_info) \<Rightarrow> int \<Rightarrow> bool" where
  "init_loaded a i \<longleftrightarrow> valid (a i) \<noteq> -1 \<and> loadingType (a i) = LoadType_PclInit"

lemma load_plugins_loop_result:
  "load_plugins_loop D is r s w = (r', s', w') \<Longrightarrow> \<forall>i \<in> set is. i < PersCustomLib_LastEntry \<Longrightarrow>
     gCustomLibArray s' = gCustomLibArray s \<and>
     (if filter (init_loaded (gCustomLibArray s)) is = [] then r' = r
      else \<exists>s1 w1. gCustomLibArray s1 = gCustomLibArray s \<and>
        r' = fst (load_custom_library D (last (filter (init_loaded (gCustomLibArray s)) is)) s1 w1))"
proof (induction "is" arbitrary: r s w)
  case Nil
  then show ?case by simp
next
  case (Cons i "is")
  show ?case
  proof (cases "init_loaded (gCustomLibArray s) i")
    case False
    then have "load_plugins_loop D is r s w = (r', s', w')"
      using Cons(2) by (auto simp: init_loaded_def check_valid_idx_def getCustomLoadingType_def split: if_splits)
    from Cons(1) [OF this] False Cons(3) show ?thesis
      by (simp split: if_splits)
  next
    case True
    obtain r1 s1 w1 where l: "load_custom_library D i s w = (r1, s1, w1)"
      by (metis prod_cases3)
    have g: "gCustomLibArray s1 = gCustomLibArray s"
      using l by (rule load_custom_library_libs)
    have "load_plugins_loop D is r1 s1 w1 = (r', s', w')"
      using Cons(2,3) True l by (simp add: init_loaded_def check_valid_idx_def getCustomLoadingType_def)
    note IH = Cons(1) [OF this, unfolded g]
    show ?thesis
    proof (cases "filter (init_loaded (gCustomLibArray s)) is = []")
      case True
      then have "r' = fst (load_custom_library D i s w)"
        using IH l Cons(3) by simp
      then show ?thesis
        using True \<open>init_loaded (gCustomLibArray s) i\<close> IH Cons(3) by auto
    next
      case False
      then show ?thesis
        using \<open>init_loaded (gCustomLibArray s) i\<close> IH Cons(3) by auto
    qed
  qed
qed

text \<open>
  The result of loading the plugins is 0 if none is to be loaded at start, and otherwise the
  result of the last one that is: a failure of an earlier plugin, the default database plugin
  included, is overwritten by the success of a later one.
\<close>

lemma load_custom_plugins_result:
  assumes "get_custom_libraries namelen file s = Some (0, s0)"
    and "load_custom_plugins namelen file D s w = Some (r, s', w')"
  shows "if filter (init_loaded (gCustomLibArray s0)) [0..8] = [] then r = 0
    else \<exists>s1 w1. gCustomLibArray s1 = gCustomLibArray s0 \<and>
      r = fst (load_custom_library D (last (filter (init_loaded (gCustomLibArray s0)) [0..8])) s1 w1)"
proof -
  define s1 where "s1 = s0\<lparr>gPersCustomFuncs := (\<lambda>j. if 0 \<le> j \<and> j < PersCustomLib_LastEntry then null_functs
                                              else gPersCustomFuncs s0 j)\<rparr>"
  have "load_plugins_loop D [0..8] 0 s1 w = (r, s', w')"
    using assms by (simp add: load_custom_plugins_def s1_def)
  moreover have "gCustomLibArray s1 = gCustomLibArray s0"
    by (simp add: s1_def)
  ultimately show ?thesis
    using load_plugins_loop_result [of D "[0..8]" 0 s1 w r s' w'] by (simp split: if_splits)
qed

definition lib_early :: "nat custom_functs" where
  "lib_early = null_functs\<lparr>cf_init := Some Suc\<rparr>"

definition dl_1 :: "nat dl_world" where
  "dl_1 = \<lparr>dl_default = (\<lambda>_. None), dl_custom = (\<lambda>_. Some lib_early)\<rparr>"

definition conf_1 :: conf_file where
  "conf_1 = Contents (conf_text [(''default'', ''missing.so'', ''init'', ''sync''), (''early'', ''early.so'', ''init'', ''sync'')])"

lemma load_custom_plugins_result_witness:
  "case load_custom_plugins 64 conf_1 dl_1 loader_0 0 of Some (r, _, _) \<Rightarrow> r = 1 | None \<Rightarrow> False"
proof -
  have e: "\<forall>e \<in> set [(''default'', ''missing.so'', ''init'', ''sync''), (''early'', ''early.so'', ''init'', ''sync'')]. entry_ok e"
    by (simp add: plugin_types_def is_word_def gCharLookup_def)
  obtain s0 where s0: "get_custom_libraries 64 conf_1 (loader_0 :: nat loader) = Some (0, s0)"
    and a: "gCustomLibArray s0 = fold (store_entry 64)
        [(''default'', ''missing.so'', ''init'', ''sync''), (''early'', ''early.so'', ''init'', ''sync'')]
        (\<lambda>j. if 0 \<le> j \<and> j < 9 then invalid_lib (gCustomLibArray (loader_0 :: nat loader) j)
             else gCustomLibArray (loader_0 :: nat loader) j)"
    by (rule that [unfolded conf_1_def, OF get_custom_libraries_conf [OF _ _ e]]) (simp_all add: loader_0_def)
  obtain r s' w' where l: "load_custom_plugins 64 conf_1 dl_1 loader_0 0 = Some (r, s', w')"
  proof -
    have "load_custom_plugins 64 conf_1 dl_1 loader_0 0 \<noteq> None"
      using s0 by (simp add: load_custom_plugins_def Let_def)
    then show thesis
      using that by (metis not_None_eq prod_cases3)
  qed
  have n: "custom_client_name_to_id ''default'' False = 0" "custom_client_name_to_id ''early'' False = 1"
    by code_simp+
  have "init_loaded (gCustomLibArray s0) j \<longleftrightarrow> j = 0 \<or> j = 1 \<or> \<not> (0 \<le> j \<and> j < 9)" for j
    by (simp add: a n init_loaded_def getLoadingType_def invalid_lib_def lib_0_def loader_0_def)
  then have f: "filter (init_loaded (gCustomLibArray s0)) [0..8] = [0, 1]"
    by (simp add: upto.simps)
  have "gCustomLibArray s0 1 = \<lparr>libname = ''early.so'', valid = 1, initFunction = Init_Synchronous,
      loadingType = LoadType_PclInit\<rparr>"
    by (simp add: a n getLoadingType_def getInitType_def)
  then have "fst (load_custom_library dl_1 1 s1 w1) = 1" if "gCustomLibArray s1 = gCustomLibArray s0" for s1 w1
    using that by (simp add: load_custom_library_def dl_1_def lib_early_def init_custom_def null_functs_def Let_def)
  then have "r = 1"
    using load_custom_plugins_result [OF s0 l] unfolding f by auto
  with l show ?thesis
    by simp
qed

end
