(* ===== verification/Loop_Msg.thy ===== *)
theory Loop_Msg
  imports Pcl_Config "HOL-Library.Word"
begin

text \<open>
  The messages the library's functions send to its main loop, the access lock, and the requests of the
  administration service and the lifecycle that change them
  (\<^verbatim>\<open>persistence_client_library_dbus_service.c\<close>: \<^verbatim>\<open>deliverToMainloop\<close>,
  \<^verbatim>\<open>persistence_client_library_pas_interface.c\<close> and \<^verbatim>\<open>persistence_client_library_lc_interface.c\<close>).
  The pipe is the list of the messages written and not yet read.  The parameter \<open>wr\<close> says whether the
  operating system accepts a write in that situation.
\<close>

section \<open>Messages\<close>

datatype tCmd = CMD_NONE | CMD_PAS_BLOCK_AND_WRITE_BACK | CMD_LC_PREPARE_SHUTDOWN | CMD_SEND_NOTIFY_SIGNAL
  | CMD_REG_NOTIFY_SIGNAL | CMD_SEND_PAS_REGISTER | CMD_SEND_LC_REGISTER | CMD_QUIT

record main_msg =
  cmd :: tCmd
  param0 :: "32 word"
  param1 :: "32 word"
  param2 :: "32 word"
  param3 :: "32 word"
  mstring :: string

definition msg2 :: "tCmd \<Rightarrow> 32 word \<Rightarrow> 32 word \<Rightarrow> main_msg" where
  "msg2 c a b = \<lparr>cmd = c, param0 = a, param1 = b, param2 = 0, param3 = 0, mstring = []\<rparr>"

record loop_state =
  pipe :: "main_msg list"
  gLockAccess :: int

type_synonym pipe_os = "main_msg list \<Rightarrow> bool"

definition deliverToMainloop_NM :: "pipe_os \<Rightarrow> main_msg \<Rightarrow> 'a loop_state_scheme \<Rightarrow> int \<times> 'a loop_state_scheme" where
  "deliverToMainloop_NM wr m s = (if wr (pipe s) then (0, s\<lparr>pipe := pipe s @ [m]\<rparr>) else (-1, s))"

text \<open>The blocking variant waits until the loop has dispatched a message; its result is the same.\<close>

definition deliverToMainloop :: "pipe_os \<Rightarrow> main_msg \<Rightarrow> 'a loop_state_scheme \<Rightarrow> int \<times> 'a loop_state_scheme" where
  "deliverToMainloop wr m s = deliverToMainloop_NM wr m s"

section \<open>The access lock\<close>

definition pers_lock_access :: "'a loop_state_scheme \<Rightarrow> 'a loop_state_scheme" where
  "pers_lock_access s = (let s = s\<lparr>gLockAccess := 0\<rparr> in s\<lparr>gLockAccess := gLockAccess s + 1\<rparr>)"

definition pers_unlock_access :: "'a loop_state_scheme \<Rightarrow> 'a loop_state_scheme" where
  "pers_unlock_access s = s\<lparr>gLockAccess := gLockAccess s - 1\<rparr>"

definition isAccessLocked :: "'a loop_state_scheme \<Rightarrow> int" where
  "isAccessLocked s = gLockAccess s"

section \<open>Requests\<close>

definition check_pas_request ::
  "pipe_os \<Rightarrow> 32 word \<Rightarrow> 32 word \<Rightarrow> 'a loop_state_scheme \<Rightarrow> int \<times> 'a loop_state_scheme" where
  "check_pas_request wr request requestID s =
     (if request = 0x11 then
        let (r, s) = deliverToMainloop_NM wr (msg2 CMD_PAS_BLOCK_AND_WRITE_BACK request requestID) s
        in (if r = -1 then PasErrorStatus_FAIL else PasErrorStatus_RespPend, s)
      else if request = 0x02 then (PasErrorStatus_OK, pers_unlock_access s)
      else (PasErrorStatus_FAIL, s))"

definition check_lc_request ::
  "pipe_os \<Rightarrow> 32 word \<Rightarrow> 32 word \<Rightarrow> 'a loop_state_scheme \<Rightarrow> int \<times> 'a loop_state_scheme" where
  "check_lc_request wr request requestID s =
     (if request = 1 then
        let (r, s) = deliverToMainloop_NM wr (msg2 CMD_LC_PREPARE_SHUTDOWN request requestID) s
        in (if r = -1 then NsmErrorStatus_Fail else NsmErrorStatus_OK, s)
      else (0, s))"

text \<open>
  The dbus methods that carry the requests: \<open>args\<close> is what \<^verbatim>\<open>dbus_message_get_args\<close> finds in the
  message, \<open>None\<close> when the arguments do not have the expected types.  The result is the reply sent,
  \<open>Inl\<close> for an error reply, and whether the message was handled.
\<close>

definition msg_persAdminRequest ::
  "pipe_os \<Rightarrow> (32 word \<times> 32 word) option \<Rightarrow> 'a loop_state_scheme \<Rightarrow> (unit + int) \<times> bool \<times> 'a loop_state_scheme" where
  "msg_persAdminRequest wr args s =
     (case args of
        None \<Rightarrow> (Inl (), False, s)
      | Some (request, requestID) \<Rightarrow>
          (let (r, s) = check_pas_request wr request requestID s in (Inr r, True, s)))"

definition msg_lifecycleRequest ::
  "pipe_os \<Rightarrow> (32 word \<times> 32 word) option \<Rightarrow> 'a loop_state_scheme \<Rightarrow> (unit + int) \<times> bool \<times> 'a loop_state_scheme" where
  "msg_lifecycleRequest wr args s =
     (case args of
        None \<Rightarrow> (Inl (), False, s)
      | Some (request, requestID) \<Rightarrow>
          (let (r, s) = check_lc_request wr request requestID s
           in (Inr NsmErrorStatus_ResponsePending, True, s)))"

definition register_lifecycle :: "pipe_os \<Rightarrow> 32 word \<Rightarrow> 'a loop_state_scheme \<Rightarrow> int \<times> 'a loop_state_scheme" where
  "register_lifecycle wr mode s = deliverToMainloop wr (msg2 CMD_SEND_LC_REGISTER 1 mode) s"

definition unregister_lifecycle :: "pipe_os \<Rightarrow> 32 word \<Rightarrow> 'a loop_state_scheme \<Rightarrow> int \<times> 'a loop_state_scheme" where
  "unregister_lifecycle wr mode s = deliverToMainloop wr (msg2 CMD_SEND_LC_REGISTER 0 mode) s"

text \<open>The reply of the administration service, which the loop's thread stores, is \<open>reply\<close>.\<close>

definition register_pers_admin_service ::
  "pipe_os \<Rightarrow> int \<Rightarrow> 'a loop_state_scheme \<Rightarrow> int \<times> 'a loop_state_scheme" where
  "register_pers_admin_service wr reply s =
     (let (r, s) = deliverToMainloop wr (msg2 CMD_SEND_PAS_REGISTER 1 0x13) s
      in (if r = -1 then -1 else reply, s))"

definition unregister_pers_admin_service ::
  "pipe_os \<Rightarrow> int \<Rightarrow> 'a loop_state_scheme \<Rightarrow> int \<times> 'a loop_state_scheme" where
  "unregister_pers_admin_service wr reply s =
     (let (r, s) = deliverToMainloop wr (msg2 CMD_SEND_PAS_REGISTER 0 0x13) s
      in (if r = -1 then -1 else reply, s))"

section \<open>Lock and unlock requests\<close>

text \<open>
  What changes the lock: the loop locks when it dispatches a block request or a shutdown, and the two
  services send requests.
\<close>

datatype lock_event = Ev_Lock | Ev_Pas "32 word" "32 word" | Ev_Lc "32 word" "32 word"

fun lock_event_step :: "pipe_os \<Rightarrow> lock_event \<Rightarrow> 'a loop_state_scheme \<Rightarrow> 'a loop_state_scheme" where
  "lock_event_step wr Ev_Lock s = pers_lock_access s"
| "lock_event_step wr (Ev_Pas r i) s = snd (check_pas_request wr r i s)"
| "lock_event_step wr (Ev_Lc r i) s = snd (check_lc_request wr r i s)"

definition locks :: "lock_event \<Rightarrow> bool option" where
  "locks e = (case e of Ev_Lock \<Rightarrow> Some True | Ev_Pas r _ \<Rightarrow> if r = 2 then Some False else None | Ev_Lc _ _ \<Rightarrow> None)"

text \<open>The last event that concerns the lock, \<open>b\<close> when there is none.\<close>

definition last_lock :: "bool \<Rightarrow> lock_event list \<Rightarrow> bool" where
  "last_lock b es = last (b # map the (filter (\<lambda>x. x \<noteq> None) (map locks es)))"

lemma last_lock_snoc: "last_lock b (es @ [e]) = (case locks e of Some c \<Rightarrow> c | None \<Rightarrow> last_lock b es)"
  by (auto simp: last_lock_def split: option.splits)

lemma deliver_lock:
  "gLockAccess (snd (deliverToMainloop_NM wr m s)) = gLockAccess s"
  by (simp add: deliverToMainloop_NM_def)

lemma lock_event_lock:
  "gLockAccess (lock_event_step wr e s) =
     (case locks e of Some True \<Rightarrow> 1 | Some False \<Rightarrow> gLockAccess s - 1 | None \<Rightarrow> gLockAccess s)"
  by (cases e)
    (simp_all add: locks_def pers_lock_access_def check_pas_request_def check_lc_request_def
      pers_unlock_access_def deliver_lock Let_def case_prod_beta)

text \<open>
  The functions that read and write data find the library locked, the value 1, exactly when
  the last event that concerns the lock was a lock; repeated locks do not add up, and unblock
  requests with no lock before them do not lock it.
\<close>

lemma lock_access_last:
  assumes "gLockAccess s \<le> 1"
  shows "isAccessLocked (fold (lock_event_step wr) es s) = 1 \<longleftrightarrow> last_lock (gLockAccess s = 1) es"
proof -
  have "gLockAccess (fold (lock_event_step wr) es s) \<le> 1 \<and>
      (gLockAccess (fold (lock_event_step wr) es s) = 1 \<longleftrightarrow> last_lock (gLockAccess s = 1) es)"
  proof (induction es rule: rev_induct)
    case Nil
    then show ?case
      using assms by (simp add: last_lock_def)
  next
    case (snoc e es)
    then show ?case
      by (auto simp: lock_event_lock last_lock_snoc split: option.splits bool.splits)
  qed
  then show ?thesis
    by (simp add: isAccessLocked_def)
qed

definition loop_0 :: loop_state where
  "loop_0 = \<lparr>pipe = [], gLockAccess = 0\<rparr>"

lemma lock_access_last_witness:
  "isAccessLocked (fold (lock_event_step (\<lambda>_. True)) [Ev_Pas 2 0, Ev_Lock, Ev_Lock, Ev_Lc 1 7] loop_0) = 1 \<and>
   isAccessLocked (fold (lock_event_step (\<lambda>_. True)) [Ev_Lock, Ev_Lock, Ev_Pas 2 0] loop_0) \<noteq> 1"
  using lock_access_last [of loop_0 "\<lambda>_. True" "[Ev_Pas 2 0, Ev_Lock, Ev_Lock, Ev_Lc 1 7]"]
    lock_access_last [of loop_0 "\<lambda>_. True" "[Ev_Lock, Ev_Lock, Ev_Pas 2 0]"]
  by (simp add: loop_0_def last_lock_def locks_def ex_bool_eq)

text \<open>The reply to a request of the administration service: block together with write-back is
  answered as pending and queues one message that carries the request and its number, unblock is done
  at once, and every other request, block or write-back alone included, fails with nothing changed.\<close>

lemma check_pas_request_result:
  "check_pas_request wr request i s =
     (if request = 0x11 then
        if wr (pipe s) then (PasErrorStatus_RespPend, s\<lparr>pipe := pipe s @ [msg2 CMD_PAS_BLOCK_AND_WRITE_BACK 0x11 i]\<rparr>)
        else (PasErrorStatus_FAIL, s)
      else if request = 2 then (PasErrorStatus_OK, s\<lparr>gLockAccess := gLockAccess s - 1\<rparr>)
      else (PasErrorStatus_FAIL, s))"
  by (simp add: check_pas_request_def deliverToMainloop_NM_def pers_unlock_access_def)

end
