(* ===== verification/Db_Access.thy ===== *)
theory Db_Access
  imports Custom_Loader Loop_Msg
begin

text \<open>
  Access to the data of a key (\<^verbatim>\<open>persistence_client_library_db_access.c\<close>): the array of open
  databases, the default databases, reading, writing, sizing and deleting a key in a database or in a
  custom library, and the change signals of shared data.  The state joins the main loop's with the
  array of databases, the configuration tables and the loaded plugins.
\<close>

section \<open>State and environment\<close>

record 'w pcl_state = loop_state +
  prct :: prct_state
  gHandlesDB :: "int \<Rightarrow> int \<Rightarrow> int"
  gHandlesDBCreated :: "int \<Rightarrow> int \<Rightarrow> int"
  loader :: "'w loader"

text \<open>
  The environment: the common object's constants, the application's name, the operating system's pipe
  and dynamic loader, and the code a plugin gives for a missing key.
\<close>

record 'w env =
  e_pco :: pco
  e_app :: string
  e_wr :: pipe_os
  e_dl :: "'w dl_world"
  e_not_found :: int

abbreviation (input) PersistenceDB_confdefault :: "pco \<Rightarrow> int" where
  "PersistenceDB_confdefault P \<equiv> policy_last P"
abbreviation (input) PersistenceDB_default :: "pco \<Rightarrow> int" where
  "PersistenceDB_default P \<equiv> policy_last P + 1"
abbreviation (input) PersistenceDB_LastEntry :: "pco \<Rightarrow> int" where
  "PersistenceDB_LastEntry P \<equiv> policy_last P + 2"
abbreviation (input) PCL_USER_DEFAULTDATA :: "32 word" where "PCL_USER_DEFAULTDATA \<equiv> 0xFFFFFFFF"

abbreviation db_of :: "('w, 'x) pcl_state_scheme \<Rightarrow> 'w db_plugin" where
  "db_of s \<equiv> plugin_db (loader s)"

abbreviation rct_of :: "('w, 'x) pcl_state_scheme \<Rightarrow> 'w rct_plugin" where
  "rct_of s \<equiv> plugin_rct (loader s)"

abbreviation names_of :: "('w, 'x) pcl_state_scheme \<Rightarrow> names" where
  "names_of s \<equiv> plugin_names (loader s)"

section \<open>Databases\<close>

definition db_index :: "pers_info \<Rightarrow> int" where
  "db_index info = uint (word_of_int (cstorage (configKey info)) + ctx_ldbid (dbctx info))"

text \<open>The name of the database file and the flags it is opened with.\<close>

definition db_file :: "pco \<Rightarrow> names \<Rightarrow> string \<Rightarrow> int \<Rightarrow> (string \<times> int) option" where
  "db_file P N dbPath dbType =
     (if policy_wt P = dbType then Some (c_copy (path_len P) (dbPath @ gLocalWt N), 0x03)
      else if policy_wc P = dbType then Some (c_copy (path_len P) (dbPath @ gLocalCached N), 0x01)
      else if PersistenceDB_confdefault P = dbType then
        Some (c_copy (path_len P) (dbPath @ gLocalConfigurableDefault N), 0x01)
      else if PersistenceDB_default P = dbType then
        Some (c_copy (path_len P) (dbPath @ gLocalFactoryDefault N), 0x01)
      else None)"

text \<open>A database type outside the array's second dimension is a memory fault.\<close>

definition database_get ::
  "'w env \<Rightarrow> pers_info \<Rightarrow> string \<Rightarrow> int \<Rightarrow> ('w, 'x) pcl_state_scheme \<Rightarrow> 'w
    \<Rightarrow> (int \<times> ('w, 'x) pcl_state_scheme \<times> 'w) option" where
  "database_get E info dbPath dbType s w =
     (let arrayIdx = db_index info; P = e_pco E in
      if arrayIdx < DbTableSize then
        if dbType < 0 \<or> dbType \<ge> PersistenceDB_LastEntry P then None
        else if gHandlesDBCreated s arrayIdx dbType = 0 then
          case db_file P (names_of s) dbPath dbType of
            None \<Rightarrow> Some (-2, s, w)
          | Some (path, openFlags) \<Rightarrow>
              (case db_open (db_of s) of
                 None \<Rightarrow> Some (EPERS_NO_PLUGIN_FUNCT, s, w)
               | Some dbOpen \<Rightarrow>
                   (let (handleDB, w) = dbOpen path openFlags w in
                    if handleDB \<ge> 0 then
                      Some (handleDB,
                        s\<lparr>gHandlesDB := (gHandlesDB s)(arrayIdx := (gHandlesDB s arrayIdx)(dbType := handleDB)),
                          gHandlesDBCreated :=
                            (gHandlesDBCreated s)(arrayIdx := (gHandlesDBCreated s arrayIdx)(dbType := 1))\<rparr>, w)
                    else Some (handleDB, s, w)))
        else Some (gHandlesDB s arrayIdx dbType, s, w)
      else Some (-1, s, w))"

datatype get_default = PersGetDefault_Data | PersGetDefault_Size

text \<open>The two default databases in turn, until one gives a value: \<open>read_size\<close> is the result so far.\<close>

fun defaults_loop ::
  "'w env \<Rightarrow> int list \<Rightarrow> string \<Rightarrow> string \<Rightarrow> pers_info \<Rightarrow> int \<Rightarrow> get_default \<Rightarrow> int \<Rightarrow> byte_buf
    \<Rightarrow> ('w, 'x) pcl_state_scheme \<Rightarrow> 'w \<Rightarrow> (int \<times> byte_buf \<times> ('w, 'x) pcl_state_scheme \<times> 'w) option" where
  "defaults_loop E [] dbPath key info n job read_size buf s w = Some (read_size, buf, s, w)"
| "defaults_loop E (i # is) dbPath key info n job read_size buf s w =
     (case database_get E info dbPath i s w of
        None \<Rightarrow> None
      | Some (handleDefaultDB, s, w) \<Rightarrow>
          if handleDefaultDB \<ge> 0 then
            let (r, buf, w) =
                  (case job of
                     PersGetDefault_Data \<Rightarrow>
                       (case db_read (db_of s) of
                          Some rd \<Rightarrow> rd handleDefaultDB key buf n w
                        | None \<Rightarrow> (EPERS_NO_PLUGIN_FUNCT, buf, w))
                   | PersGetDefault_Size \<Rightarrow>
                       (case db_size (db_of s) of
                          Some sz \<Rightarrow> (let (r, w) = sz handleDefaultDB key w in (r, buf, w))
                        | None \<Rightarrow> (EPERS_NO_PLUGIN_FUNCT, buf, w)))
            in if r < 0
               then defaults_loop E is dbPath key info n job (if r = e_not_found E then EPERS_NOKEY else r) buf s w
               else Some (r, buf, s, w)
          else defaults_loop E is dbPath key info n job read_size buf s w)"

definition pers_get_defaults ::
  "'w env \<Rightarrow> string \<Rightarrow> string \<Rightarrow> pers_info \<Rightarrow> byte_buf \<Rightarrow> int \<Rightarrow> get_default
    \<Rightarrow> ('w, 'x) pcl_state_scheme \<Rightarrow> 'w \<Rightarrow> (int \<times> byte_buf \<times> ('w, 'x) pcl_state_scheme \<times> 'w) option" where
  "pers_get_defaults E dbPath key info buf n job s w =
     defaults_loop E [PersistenceDB_confdefault (e_pco E), PersistenceDB_default (e_pco E)]
       dbPath key info n job EPERS_NOKEY buf s w"

fun close_loop :: "(int \<times> int) list \<Rightarrow> ('w, 'x) pcl_state_scheme \<Rightarrow> 'w \<Rightarrow> ('w, 'x) pcl_state_scheme \<times> 'w" where
  "close_loop [] s w = (s, w)"
| "close_loop ((i, j) # l) s w =
     (if gHandlesDBCreated s i j = 1 then
        case db_close (db_of s) of
          Some cl \<Rightarrow>
            (let (r, w) = cl (gHandlesDB s i j) w in
             close_loop l (if r < 0 then s
                           else s\<lparr>gHandlesDBCreated :=
                                  (gHandlesDBCreated s)(i := (gHandlesDBCreated s i)(j := 0))\<rparr>) w)
        | None \<Rightarrow> close_loop l s w
      else close_loop l s w)"

definition db_cells :: "pco \<Rightarrow> (int \<times> int) list" where
  "db_cells P = List.product [0..DbTableSize - 1] [0..PersistenceDB_LastEntry P - 1]"

definition database_close_all :: "'w env \<Rightarrow> ('w, 'x) pcl_state_scheme \<Rightarrow> 'w \<Rightarrow> ('w, 'x) pcl_state_scheme \<times> 'w" where
  "database_close_all E s w = close_loop (db_cells (e_pco E)) s w"

fun rct_close_loop :: "int list \<Rightarrow> ('w, 'x) pcl_state_scheme \<Rightarrow> 'w \<Rightarrow> ('w, 'x) pcl_state_scheme \<times> 'w" where
  "rct_close_loop [] s w = (s, w)"
| "rct_close_loop (i # l) s w =
     (if get_resource_cfg_table_by_idx (prct s) i \<noteq> -1 then
        case rct_close (rct_of s) of
          Some cl \<Rightarrow>
            (let (r, w) = cl (get_resource_cfg_table_by_idx (prct s) i) w in
             rct_close_loop l (s\<lparr>prct := invalidate_resource_cfg_table i (prct s)\<rparr>) w)
        | None \<Rightarrow> rct_close_loop l s w
      else rct_close_loop l s w)"

definition pers_rct_close_all :: "('w, 'x) pcl_state_scheme \<Rightarrow> 'w \<Rightarrow> ('w, 'x) pcl_state_scheme \<times> 'w" where
  "pers_rct_close_all s w = rct_close_loop [0..PrctDbTableSize - 1] s w"

section \<open>Change signals\<close>

datatype notify_status = pclNotifyStatus_no_changed | pclNotifyStatus_created | pclNotifyStatus_changed
  | pclNotifyStatus_deleted | pclNotifyStatus_lastEntry

fun status_num :: "notify_status \<Rightarrow> 32 word" where
  "status_num pclNotifyStatus_no_changed = 0"
| "status_num pclNotifyStatus_created = 1"
| "status_num pclNotifyStatus_changed = 2"
| "status_num pclNotifyStatus_deleted = 3"
| "status_num pclNotifyStatus_lastEntry = 4"

definition notify_msg :: "'w env \<Rightarrow> string \<Rightarrow> db_context \<Rightarrow> notify_status \<Rightarrow> main_msg" where
  "notify_msg E key c reason =
     \<lparr>cmd = CMD_SEND_NOTIFY_SIGNAL, param0 = ctx_ldbid c, param1 = ctx_user c, param2 = ctx_seat c,
      param3 = status_num reason, mstring = c_copy (key_name_len (e_pco E)) key\<rparr>"

definition pers_send_Notification_Signal ::
  "'w env \<Rightarrow> string \<Rightarrow> db_context \<Rightarrow> notify_status \<Rightarrow> ('w, 'x) pcl_state_scheme \<Rightarrow> int \<times> ('w, 'x) pcl_state_scheme" where
  "pers_send_Notification_Signal E key c reason s =
     (if status_num reason < 4 then
        let (r, s) = deliverToMainloop (e_wr E) (notify_msg E key c reason) s
        in (if r = -1 then EPERS_NOTIFY_SIG else 1, s)
      else (EPERS_NOTIFY_SIG, s))"

section \<open>Custom libraries\<close>

definition hex_digit :: "nat \<Rightarrow> char" where
  "hex_digit d = char_of (if d < 10 then 48 + d else 55 + d)"

text \<open>The conversion \<^verbatim>\<open>%08X\<close>.\<close>

definition fmt_08X :: "32 word \<Rightarrow> string" where
  "fmt_08X v = map (\<lambda>i. hex_digit (unat (drop_bit (4 * i) v AND 0xF))) [7, 6, 5, 4, 3, 2, 1, 0]"

definition custom_path :: "pers_info \<Rightarrow> string \<Rightarrow> string" where
  "custom_path info key =
     c_copy 128
      (if cstr (ccustomID (configKey info)) = [] then
         ''0x'' @ fmt_08X (ctx_ldbid (dbctx info)) @ ''/'' @ cstr (ccustom_name (configKey info)) @ ''/'' @ key
       else ''0x'' @ fmt_08X (ctx_ldbid (dbctx info)) @ ''/'' @ cstr (ccustomID (configKey info)))"

text \<open>
  Whether the functions of library \<open>idx\<close> can be called, loading it on demand: \<open>probe\<close> is the pointer
  that tells whether the library is loaded, \<open>wanted\<close> the one the code looks for after loading.
\<close>

definition custom_available ::
  "'w env \<Rightarrow> ('w custom_functs \<Rightarrow> bool) \<Rightarrow> ('w custom_functs \<Rightarrow> bool) \<Rightarrow> int
    \<Rightarrow> ('w, 'x) pcl_state_scheme \<Rightarrow> 'w \<Rightarrow> bool \<times> ('w, 'x) pcl_state_scheme \<times> 'w" where
  "custom_available E probe wanted idx s w =
     (if probe (gPersCustomFuncs (loader s) idx) then (True, s, w)
      else case getCustomLoadingType (loader s) idx of
          LoadType_OnDemand \<Rightarrow>
            (let (r, l, w) = load_custom_library (e_dl E) idx (loader s) w
             in (r = 1 \<and> wanted (gPersCustomFuncs l idx), s\<lparr>loader := l\<rparr>, w))
        | LoadType_PclInit \<Rightarrow> (wanted (gPersCustomFuncs (loader s) idx), s, w)
        | LoadType_Undefined \<Rightarrow> (False, s, w))"

text \<open>The information with which the defaults of a custom resource are looked up, and their path.\<close>

definition custom_defaults :: "'w env \<Rightarrow> pers_info \<Rightarrow> string \<Rightarrow> string \<Rightarrow> ('w, 'x) pcl_state_scheme
    \<Rightarrow> (pers_info \<times> string) option" where
  "custom_defaults E info key dbPath s =
     (let info = info\<lparr>configKey := (configKey info)\<lparr>cpolicy := policy_wc (e_pco E), ctype := type_key (e_pco E)\<rparr>\<rparr>
      in map_option (\<lambda>(_, _, path). (info, path))
           (get_db_path_and_key (e_pco E) (names_of s) (e_app E) info key None dbPath))"

section \<open>Reading\<close>

definition read_database ::
  "'w env \<Rightarrow> get_default \<Rightarrow> string \<Rightarrow> string \<Rightarrow> string \<Rightarrow> pers_info \<Rightarrow> byte_buf \<Rightarrow> int
    \<Rightarrow> ('w, 'x) pcl_state_scheme \<Rightarrow> 'w \<Rightarrow> (int \<times> byte_buf \<times> ('w, 'x) pcl_state_scheme \<times> 'w) option" where
  "read_database E job dbPath key resourceID info buf n s w =
     (case database_get E info dbPath (cpolicy (configKey info)) s w of
        None \<Rightarrow> None
      | Some (handleDB, s, w) \<Rightarrow>
          if handleDB \<ge> 0 then
            case (case job of
                    PersGetDefault_Data \<Rightarrow> map_option (\<lambda>rd. rd handleDB key buf n w) (db_read (db_of s))
                  | PersGetDefault_Size \<Rightarrow>
                      map_option (\<lambda>sz. let (r, w) = sz handleDB key w in (r, buf, w)) (db_size (db_of s))) of
              Some (read_size, buf, w) \<Rightarrow>
                if read_size < 0 then pers_get_defaults E dbPath resourceID info buf n job s w
                else Some (read_size, buf, s, w)
            | None \<Rightarrow> Some (EPERS_NO_PLUGIN_FUNCT, buf, s, w)
          else Some (-1, buf, s, w))"

text \<open>The custom branch; the call of a function that is NULL is a fault.\<close>

definition read_custom ::
  "'w env \<Rightarrow> get_default \<Rightarrow> string \<Rightarrow> string \<Rightarrow> string \<Rightarrow> pers_info \<Rightarrow> byte_buf \<Rightarrow> int
    \<Rightarrow> ('w, 'x) pcl_state_scheme \<Rightarrow> 'w \<Rightarrow> (int \<times> byte_buf \<times> ('w, 'x) pcl_state_scheme \<times> 'w) option" where
  "read_custom E job dbPath key resourceID info buf n s w =
     (let idx = custom_client_name_to_id dbPath True in
      if idx < PersCustomLib_LastEntry then
        let (available, s, w) = custom_available E (\<lambda>f. cf_get_size f \<noteq> None)
              (\<lambda>f. case job of PersGetDefault_Data \<Rightarrow> cf_get_data f \<noteq> None | PersGetDefault_Size \<Rightarrow> cf_get_size f \<noteq> None)
              idx s w;
            f = gPersCustomFuncs (loader s) idx
        in if available then
             case job of
               PersGetDefault_Data \<Rightarrow>
                 map_option (\<lambda>g. let (r, buf, w) = g (custom_path info key) buf n w in (r, buf, s, w)) (cf_get_data f)
             | PersGetDefault_Size \<Rightarrow>
                 map_option (\<lambda>g. let (r, w) = g (custom_path info key) w in (r, buf, s, w)) (cf_get_size f)
           else Some (EPERS_NOPLUGINFUNCT, buf, s, w)
      else Some (EPERS_NOPLUGINFUNCT, buf, s, w))"

definition persistence_read ::
  "'w env \<Rightarrow> get_default \<Rightarrow> string \<Rightarrow> string \<Rightarrow> string \<Rightarrow> pers_info \<Rightarrow> byte_buf \<Rightarrow> int
    \<Rightarrow> ('w, 'x) pcl_state_scheme \<Rightarrow> 'w \<Rightarrow> (int \<times> byte_buf \<times> ('w, 'x) pcl_state_scheme \<times> 'w) option" where
  "persistence_read E job dbPath key resourceID info buf n s w =
     (let P = e_pco E; st = cstorage (configKey info) in
      if storage_shared P = st \<or> storage_local P = st then
        read_database E job dbPath key resourceID info buf n s w
      else if storage_custom P = st then
        case read_custom E job dbPath key resourceID info buf n s w of
          None \<Rightarrow> None
        | Some (read_size, buf, s, w) \<Rightarrow>
            if 1 > read_size then
              case custom_defaults E info key dbPath s of
                None \<Rightarrow> None
              | Some (info, dbPath) \<Rightarrow>
                  (case pers_get_defaults E dbPath resourceID info buf n job s w of
                     None \<Rightarrow> None
                   | Some (ret_defaults, buf, s, w) \<Rightarrow>
                       Some (if 0 < ret_defaults then ret_defaults else read_size, buf, s, w))
            else Some (read_size, buf, s, w)
      else Some (-1, buf, s, w))"

definition persistence_get_data ::
  "'w env \<Rightarrow> string \<Rightarrow> string \<Rightarrow> string \<Rightarrow> pers_info \<Rightarrow> byte_buf \<Rightarrow> int
    \<Rightarrow> ('w, 'x) pcl_state_scheme \<Rightarrow> 'w \<Rightarrow> (int \<times> byte_buf \<times> ('w, 'x) pcl_state_scheme \<times> 'w) option" where
  "persistence_get_data E dbPath key resourceID info buf n s w =
     persistence_read E PersGetDefault_Data dbPath key resourceID info buf n s w"

definition persistence_get_data_size ::
  "'w env \<Rightarrow> string \<Rightarrow> string \<Rightarrow> string \<Rightarrow> pers_info
    \<Rightarrow> ('w, 'x) pcl_state_scheme \<Rightarrow> 'w \<Rightarrow> (int \<times> ('w, 'x) pcl_state_scheme \<times> 'w) option" where
  "persistence_get_data_size E dbPath key resourceID info s w =
     map_option (\<lambda>(r, _, s, w). (r, s, w))
       (persistence_read E PersGetDefault_Size dbPath key resourceID info [] 0 s w)"

section \<open>Writing and deleting\<close>

definition write_database ::
  "'w env \<Rightarrow> string \<Rightarrow> string \<Rightarrow> string \<Rightarrow> pers_info \<Rightarrow> byte_buf \<Rightarrow> int
    \<Rightarrow> ('w, 'x) pcl_state_scheme \<Rightarrow> 'w \<Rightarrow> (int \<times> ('w, 'x) pcl_state_scheme \<times> 'w) option" where
  "write_database E dbPath key res info buf n s w =
     (let P = e_pco E;
          (dbType, dbInput) = (if ctx_user (dbctx info) = PCL_USER_DEFAULTDATA
                               then (PersistenceDB_confdefault P, res)
                               else (cpolicy (configKey info), key))
      in case database_get E info dbPath dbType s w of
           None \<Rightarrow> None
         | Some (handleDB, s, w) \<Rightarrow>
             if handleDB \<ge> 0 then
               case db_write (db_of s) of
                 None \<Rightarrow> Some (EPERS_NO_PLUGIN_FUNCT, s, w)
               | Some wr \<Rightarrow>
                   (let (write_size, w) = wr handleDB dbInput buf n w in
                    if write_size < 0 then Some (write_size, s, w)
                    else if storage_shared P = cstorage (configKey info) then
                      let (rval, s) = pers_send_Notification_Signal E res (dbctx info) pclNotifyStatus_changed s
                      in Some (if rval \<le> 0 then rval else write_size, s, w)
                    else Some (write_size, s, w))
             else Some (EPERS_NOPRCTABLE, s, w))"

definition write_custom ::
  "'w env \<Rightarrow> string \<Rightarrow> string \<Rightarrow> string \<Rightarrow> pers_info \<Rightarrow> byte_buf \<Rightarrow> int
    \<Rightarrow> ('w, 'x) pcl_state_scheme \<Rightarrow> 'w \<Rightarrow> (int \<times> ('w, 'x) pcl_state_scheme \<times> 'w) option" where
  "write_custom E dbPath key res info buf n s w =
     (let idx = custom_client_name_to_id dbPath True in
      if idx < PersCustomLib_LastEntry then
        let (available, s, w) = custom_available E (\<lambda>f. cf_set_data f \<noteq> None) (\<lambda>f. cf_set_data f \<noteq> None) idx s w
        in if available then
             map_option (\<lambda>g.
               let (write_size, w) = g (custom_path info key) buf n w in
               if 0 < write_size \<and> write_size = n then
                 let (rval, s) = pers_send_Notification_Signal E res (dbctx info) pclNotifyStatus_changed s
                 in (if rval \<le> 0 then rval else write_size, s, w)
               else (write_size, s, w))
              (cf_set_data (gPersCustomFuncs (loader s) idx))
           else Some (EPERS_NOPLUGINFUNCT, s, w)
      else Some (EPERS_NOPLUGINFUNCT, s, w))"

definition persistence_set_data ::
  "'w env \<Rightarrow> string \<Rightarrow> string \<Rightarrow> string \<Rightarrow> pers_info \<Rightarrow> byte_buf \<Rightarrow> int
    \<Rightarrow> ('w, 'x) pcl_state_scheme \<Rightarrow> 'w \<Rightarrow> (int \<times> ('w, 'x) pcl_state_scheme \<times> 'w) option" where
  "persistence_set_data E dbPath key res info buf n s w =
     (let P = e_pco E; st = cstorage (configKey info) in
      if storage_local P = st \<or> storage_shared P = st then write_database E dbPath key res info buf n s w
      else if storage_custom P = st then write_custom E dbPath key res info buf n s w
      else Some (-1, s, w))"

definition delete_database ::
  "'w env \<Rightarrow> string \<Rightarrow> string \<Rightarrow> string \<Rightarrow> pers_info
    \<Rightarrow> ('w, 'x) pcl_state_scheme \<Rightarrow> 'w \<Rightarrow> (int \<times> ('w, 'x) pcl_state_scheme \<times> 'w) option" where
  "delete_database E dbPath key res info s w =
     (case database_get E info dbPath (cpolicy (configKey info)) s w of
        None \<Rightarrow> None
      | Some (handleDB, s, w) \<Rightarrow>
          if handleDB \<ge> 0 then
            case db_delete (db_of s) of
              None \<Rightarrow> Some (EPERS_NO_PLUGIN_FUNCT, s, w)
            | Some del \<Rightarrow>
                (let (ret, w) = del handleDB key w;
                     ret = (if ret < 0 then if ret = e_not_found E then EPERS_NOKEY else EPERS_DB_ERROR_INTERNAL
                            else ret);
                     s = (if storage_shared (e_pco E) = cstorage (configKey info)
                          then snd (pers_send_Notification_Signal E res (dbctx info) pclNotifyStatus_deleted s)
                          else s)
                 in Some (ret, s, w))
          else Some (EPERS_NOPRCTABLE, s, w))"

definition delete_custom ::
  "'w env \<Rightarrow> string \<Rightarrow> string \<Rightarrow> string \<Rightarrow> pers_info
    \<Rightarrow> ('w, 'x) pcl_state_scheme \<Rightarrow> 'w \<Rightarrow> (int \<times> ('w, 'x) pcl_state_scheme \<times> 'w) option" where
  "delete_custom E dbPath key res info s w =
     (let idx = custom_client_name_to_id dbPath True in
      if idx < PersCustomLib_LastEntry then
        let (available, s, w) = custom_available E (\<lambda>f. cf_delete_data f \<noteq> None) (\<lambda>f. cf_delete_data f \<noteq> None) idx s w
        in if available then
             map_option (\<lambda>g.
               let (ret, w) = g (custom_path info key) w in
               (ret, if 0 \<le> ret then snd (pers_send_Notification_Signal E res (dbctx info) pclNotifyStatus_deleted s) else s, w))
              (cf_delete_data (gPersCustomFuncs (loader s) idx))
           else Some (EPERS_NOPLUGINFUNCT, s, w)
      else Some (EPERS_NOPLUGINFUNCT, s, w))"

definition persistence_delete_data ::
  "'w env \<Rightarrow> string \<Rightarrow> string \<Rightarrow> string \<Rightarrow> pers_info
    \<Rightarrow> ('w, 'x) pcl_state_scheme \<Rightarrow> 'w \<Rightarrow> (int \<times> ('w, 'x) pcl_state_scheme \<times> 'w) option" where
  "persistence_delete_data E dbPath key res info s w =
     (if storage_custom (e_pco E) \<noteq> cstorage (configKey info) then delete_database E dbPath key res info s w
      else delete_custom E dbPath key res info s w)"

section \<open>The array of open databases\<close>

lemma database_get_frame:
  "database_get E info p t s w = Some (h, s', w') \<Longrightarrow>
     loader s' = loader s \<and> pipe s' = pipe s \<and> prct s' = prct s \<and> gLockAccess s' = gLockAccess s"
  by (auto simp: database_get_def Let_def split: if_splits option.splits prod.splits)

lemma database_get_hit:
  assumes "database_get E info p t s w = Some (h, s', w')" "0 \<le> h"
    and "db_index info' = db_index info"
  shows "database_get E info' p' t s' w'' = Some (h, s', w'')"
  using assms
  by (auto simp: database_get_def Let_def split: if_splits option.splits prod.splits)

text \<open>The file a successful lookup opens.\<close>

lemma database_get_opens:
  assumes "database_get E info p t s w = Some (h, s', w')" "0 \<le> h"
    and "gHandlesDBCreated s (db_index info) t = 0"
  shows "\<exists>f path flags. db_open (db_of s) = Some f \<and> db_file (e_pco E) (names_of s) p t = Some (path, flags) \<and>
    f path flags w = (h, w')"
  using assms by (auto simp: database_get_def Let_def split: if_splits option.splits prod.splits)

text \<open>
  C27: the array of open databases is indexed by the sum of the storage and the logical database
  identifier, so the defaults of a custom resource of group g and those of a shared resource of group
  g + 1 use one entry: after the first lookup has opened the database below its path, the second one
  is given the same handle and its own path is never opened.
\<close>

theorem database_get_mixes_groups:
  assumes "storage_custom P = storage_shared P + 1"
    and "cstorage (configKey info) = storage_custom P" "cstorage (configKey info') = storage_shared P"
    and "ctx_ldbid (dbctx info') = ctx_ldbid (dbctx info) + 1"
    and "database_get E info dbPath t s w = Some (h, s', w')" "0 \<le> h"
  shows "database_get E info' dbPath' t s' w'' = Some (h, s', w'')"
proof -
  have "db_index info' = db_index info"
    using assms(1-4) by (simp add: db_index_def ac_simps)
  then show ?thesis
    by (rule database_get_hit [OF assms(5,6)])
qed

section \<open>A plugin that keeps what it is given\<close>

text \<open>
  The documented behaviour of the database functions: \<open>view\<close> gives the content of an open database,
  \<open>nf\<close> is the code for a missing key, and data of up to \<open>mx\<close> bytes are stored.
\<close>

definition read_result :: "int \<Rightarrow> byte_buf option \<Rightarrow> byte_buf \<Rightarrow> int \<Rightarrow> int \<times> byte_buf" where
  "read_result nf v buf n =
     (case v of None \<Rightarrow> (nf, buf)
      | Some d \<Rightarrow> (int (length (take (nat n) d)), take (nat n) d @ drop (length (take (nat n) d)) buf))"

definition size_result :: "int \<Rightarrow> byte_buf option \<Rightarrow> int" where
  "size_result nf v = (case v of None \<Rightarrow> nf | Some d \<Rightarrow> int (length d))"

definition store_plugin :: "'w db_plugin \<Rightarrow> int \<Rightarrow> int \<Rightarrow> ('w \<Rightarrow> int \<Rightarrow> string \<Rightarrow> byte_buf option) \<Rightarrow> bool" where
  "store_plugin G nf mx view \<longleftrightarrow>
     nf < 0 \<and>
     (\<exists>wr. db_write G = Some wr \<and>
        (\<forall>h k d n w. 0 \<le> n \<longrightarrow> n \<le> mx \<longrightarrow> n \<le> int (length d) \<longrightarrow>
           (\<exists>w'. wr h k d n w = (n, w') \<and> view w' = (view w)(h := (view w h)(k \<mapsto> take (nat n) d))))) \<and>
     (\<exists>rd. db_read G = Some rd \<and>
        (\<forall>h k b n w. rd h k b n w = (let (r, b) = read_result nf (view w h k) b n in (r, b, w)))) \<and>
     (\<exists>sz. db_size G = Some sz \<and> (\<forall>h k w. sz h k w = (size_result nf (view w h k), w))) \<and>
     (\<exists>del. db_delete G = Some del \<and>
        (\<forall>h k w. \<exists>w'. del h k w = (if view w h k = None then nf else 0, w') \<and>
           view w' = (view w)(h := (view w h)(k := None))))"

lemma read_result_neg: "nf < 0 \<Longrightarrow> fst (read_result nf v b n) < 0 \<longleftrightarrow> v = None"
  by (auto simp: read_result_def split: option.splits)

lemma store_write:
  assumes "store_plugin G nf mx view" "0 \<le> n" "n \<le> mx" "n \<le> int (length d)"
  obtains wr w' where "db_write G = Some wr" "wr h k d n w = (n, w')"
    "view w' = (view w)(h := (view w h)(k \<mapsto> take (nat n) d))"
  using assms unfolding store_plugin_def by metis

lemma store_read:
  assumes "store_plugin G nf mx view"
  obtains rd where "db_read G = Some rd"
    "\<And>h k b n w. rd h k b n w = (fst (read_result nf (view w h k) b n), snd (read_result nf (view w h k) b n), w)"
  using assms by (auto simp: store_plugin_def Let_def case_prod_beta)

lemma store_delete:
  assumes "store_plugin G nf mx view"
  obtains del w' where "db_delete G = Some del" "del h k w = (if view w h k = None then nf else 0, w')"
    "view w' = (view w)(h := (view w h)(k := None))"
  using assms unfolding store_plugin_def by metis

definition stored_locally :: "pco \<Rightarrow> pers_info \<Rightarrow> bool" where
  "stored_locally P info \<longleftrightarrow>
     cstorage (configKey info) = storage_local P \<or> cstorage (configKey info) = storage_shared P"

lemma pers_send_ok:
  "e_wr E (pipe s) \<Longrightarrow> c \<in> {pclNotifyStatus_changed, pclNotifyStatus_deleted} \<Longrightarrow>
     pers_send_Notification_Signal E res cx c s = (1, s\<lparr>pipe := pipe s @ [notify_msg E res cx c]\<rparr>)"
  by (auto simp: pers_send_Notification_Signal_def deliverToMainloop_def deliverToMainloop_NM_def)

lemma pers_send_fails:
  "\<not> e_wr E (pipe s) \<Longrightarrow> pers_send_Notification_Signal E res cx c s = (EPERS_NOTIFY_SIG, s)"
  by (simp add: pers_send_Notification_Signal_def deliverToMainloop_def deliverToMainloop_NM_def)

text \<open>The messages a write or a delete of shared data sends.\<close>

definition signals :: "'w env \<Rightarrow> string \<Rightarrow> pers_info \<Rightarrow> notify_status \<Rightarrow> main_msg list" where
  "signals E res info c =
     (if cstorage (configKey info) = storage_shared (e_pco E) then [notify_msg E res (dbctx info) c] else [])"

lemma write_database_stored:
  assumes "store_plugin (db_of s) nf mx view" "0 \<le> n" "n \<le> mx" "n \<le> int (length d)"
    and "e_wr E (pipe s)" "ctx_user (dbctx info) \<noteq> PCL_USER_DEFAULTDATA"
    and "database_get E info dbPath (cpolicy (configKey info)) s w = Some (h, s1, w1)" "0 \<le> h"
  shows "\<exists>w2. write_database E dbPath key res info d n s w =
      Some (n,
            s1\<lparr>pipe := pipe s1 @ signals E res info pclNotifyStatus_changed\<rparr>, w2) \<and>
    view w2 = (view w1)(h := (view w1 h)(key \<mapsto> take (nat n) d))"
proof -
  have fr: "loader s1 = loader s" "pipe s1 = pipe s"
    using database_get_frame [OF assms(7)] by simp_all
  obtain wr w2 where w: "db_write (db_of s) = Some wr" "wr h key d n w1 = (n, w2)"
    "view w2 = (view w1)(h := (view w1 h)(key \<mapsto> take (nat n) d))"
    using store_write [OF assms(1-4)] by metis
  then show ?thesis
    using assms(2,5-8) fr
    by (intro exI [of _ w2]) (simp add: write_database_def pers_send_ok signals_def Let_def)
qed

section \<open>What is stored is read back\<close>

definition db_open_at :: "pco \<Rightarrow> pers_info \<Rightarrow> int \<Rightarrow> int \<Rightarrow> ('w, 'x) pcl_state_scheme \<Rightarrow> bool" where
  "db_open_at P info t h s \<longleftrightarrow>
     db_index info < DbTableSize \<and> 0 \<le> t \<and> t < PersistenceDB_LastEntry P \<and> 0 \<le> h \<and>
     gHandlesDBCreated s (db_index info) t \<noteq> 0 \<and> gHandlesDB s (db_index info) t = h"

lemma database_get_result_open:
  "database_get E info p t s w = Some (h, s', w') \<Longrightarrow> 0 \<le> h \<Longrightarrow> db_open_at (e_pco E) info t h s'"
  by (auto simp: database_get_def db_open_at_def Let_def split: if_splits option.splits prod.splits)

lemma database_get_open:
  "db_open_at (e_pco E) info t h s \<Longrightarrow> database_get E info p t s w = Some (h, s, w)"
  by (simp add: database_get_def db_open_at_def Let_def)

lemma db_open_at_pipe [simp]: "db_open_at P info t h (s\<lparr>pipe := x\<rparr>) = db_open_at P info t h s"
  by (simp add: db_open_at_def)

text \<open>
  What is written to a local or shared key can be read back; the write sends one change signal for a
  shared resource and none for a local one.
\<close>

lemma persistence_set_get:
  assumes "store_plugin (db_of s) nf mx view" "0 \<le> n" "n \<le> mx" "n \<le> int (length d)" "e_wr E (pipe s)"
    and "stored_locally (e_pco E) info" "ctx_user (dbctx info) \<noteq> PCL_USER_DEFAULTDATA"
    and "database_get E info dbPath (cpolicy (configKey info)) s w = Some (h, s1, w1)" "0 \<le> h"
    and "n \<le> m"
  shows "\<exists>s2 w2. persistence_set_data E dbPath key res info d n s w = Some (n, s2, w2) \<and>
    pipe s2 = pipe s @ signals E res info pclNotifyStatus_changed \<and>
    persistence_get_data E dbPath key res info buf m s2 w2 =
      Some (n, take (nat n) d @ drop (nat n) buf, s2, w2)"
proof -
  define s2 where "s2 = s1\<lparr>pipe := pipe s1 @ signals E res info pclNotifyStatus_changed\<rparr>"
  obtain w2 where w: "write_database E dbPath key res info d n s w = Some (n, s2, w2)"
    "view w2 = (view w1)(h := (view w1 h)(key \<mapsto> take (nat n) d))"
    using write_database_stored [OF assms(1-5,7-9)] unfolding s2_def by blast
  have fr: "loader s2 = loader s" "pipe s2 = pipe s @ signals E res info pclNotifyStatus_changed"
    using database_get_frame [OF assms(8)] by (simp_all add: s2_def)
  have o: "database_get E info dbPath (cpolicy (configKey info)) s2 w2 = Some (h, s2, w2)"
    using database_get_result_open [OF assms(8,9)] by (intro database_get_open) (simp add: s2_def)
  obtain rd where rd: "db_read (db_of s) = Some rd"
    "\<And>h k b n w. rd h k b n w = (fst (read_result nf (view w h k) b n), snd (read_result nf (view w h k) b n), w)"
    using store_read [OF assms(1)] by blast
  have "view w2 h key = Some (take (nat n) d)"
    by (simp add: w(2))
  moreover have "length (take (nat n) d) = nat n" "take (nat m) (take (nat n) d) = take (nat n) d"
    using assms(2,4,10) by (simp_all add: nat_le_iff)
  ultimately have "rd h key buf m w2 = (n, take (nat n) d @ drop (nat n) buf, w2)"
    using assms(2) by (simp add: rd(2) read_result_def)
  then have "read_database E PersGetDefault_Data dbPath key res info buf m s2 w2 =
      Some (n, take (nat n) d @ drop (nat n) buf, s2, w2)"
    using o rd(1) fr assms(2,9) by (simp add: read_database_def)
  then show ?thesis
    using w(1) fr(2) assms(6)
    by (intro exI [of _ s2] exI [of _ w2])
      (auto simp: persistence_set_data_def persistence_get_data_def persistence_read_def stored_locally_def Let_def)
qed

definition first_some :: "'a option list \<Rightarrow> 'a option" where
  "first_some xs = (case filter (\<lambda>x. x \<noteq> None) xs of [] \<Rightarrow> None | x # _ \<Rightarrow> x)"

lemma first_some_simps [simp]:
  "first_some [] = None" "first_some (Some a # xs) = Some a" "first_some (None # xs) = first_some xs"
  by (simp_all add: first_some_def)

lemma read_result_nf: "v \<noteq> None \<Longrightarrow> read_result a v b n = read_result c v b n"
  by (auto simp: read_result_def)

lemma pers_get_defaults_data:
  assumes "store_plugin (db_of s) (e_not_found E) mx view"
    and "db_open_at (e_pco E) info (PersistenceDB_confdefault (e_pco E)) h1 s"
    and "db_open_at (e_pco E) info (PersistenceDB_default (e_pco E)) h2 s"
  shows "pers_get_defaults E dbPath key info buf n PersGetDefault_Data s w =
    (let (r, b) = read_result EPERS_NOKEY (first_some [view w h1 key, view w h2 key]) buf n in Some (r, b, s, w))"
proof -
  obtain rd where rd: "db_read (db_of s) = Some rd"
    "\<And>h k b n w. rd h k b n w = (fst (read_result (e_not_found E) (view w h k) b n),
       snd (read_result (e_not_found E) (view w h k) b n), w)"
    using store_read [OF assms(1)] by blast
  have nf: "e_not_found E < 0"
    using assms(1) by (simp add: store_plugin_def)
  have h: "0 \<le> h1" "0 \<le> h2"
    using assms(2,3) by (simp_all add: db_open_at_def)
  show ?thesis
    unfolding pers_get_defaults_def
    using rd nf h database_get_open [OF assms(2)] database_get_open [OF assms(3)]
    by (cases "view w h1 key"; cases "view w h2 key") (auto simp: read_result_def Let_def)
qed

lemma get_data_defaults:
  assumes "store_plugin (db_of s) (e_not_found E) mx view" "stored_locally (e_pco E) info"
    and "db_open_at (e_pco E) info (cpolicy (configKey info)) h0 s"
    and "db_open_at (e_pco E) info (PersistenceDB_confdefault (e_pco E)) h1 s"
    and "db_open_at (e_pco E) info (PersistenceDB_default (e_pco E)) h2 s"
  shows "persistence_get_data E dbPath key res info buf n s w =
    (let (r, b) = read_result EPERS_NOKEY (first_some [view w h0 key, view w h1 res, view w h2 res]) buf n
     in Some (r, b, s, w))"
proof -
  obtain rd where rd: "db_read (db_of s) = Some rd"
    "\<And>h k b n w. rd h k b n w = (fst (read_result (e_not_found E) (view w h k) b n),
       snd (read_result (e_not_found E) (view w h k) b n), w)"
    using store_read [OF assms(1)] by blast
  have nf: "e_not_found E < 0"
    using assms(1) by (simp add: store_plugin_def)
  have h: "0 \<le> h0"
    using assms(3) by (simp add: db_open_at_def)
  have "read_database E PersGetDefault_Data dbPath key res info buf n s w =
    (let (r, b) = read_result EPERS_NOKEY (first_some [view w h0 key, view w h1 res, view w h2 res]) buf n
     in Some (r, b, s, w))"
    unfolding read_database_def database_get_open [OF assms(3)]
    using rd nf h pers_get_defaults_data [OF assms(1,4,5)]
    by (cases "view w h0 key") (auto simp: read_result_def Let_def)
  then show ?thesis
    using assms(2) by (auto simp: persistence_get_data_def persistence_read_def stored_locally_def Let_def)
qed

text \<open>
  C28: reading a local or shared key gives the stored value if there is one, else the value of the
  resource in the configurable defaults, else the one in the factory defaults, else the error that
  there is no key; the buffer is changed only by a value that is found.
\<close>

theorem persistence_get_data_defaults:
  assumes "store_plugin (db_of s) (e_not_found E) mx view" "stored_locally (e_pco E) info"
    and "db_open_at (e_pco E) info (cpolicy (configKey info)) h0 s"
    and "db_open_at (e_pco E) info (PersistenceDB_confdefault (e_pco E)) h1 s"
    and "db_open_at (e_pco E) info (PersistenceDB_default (e_pco E)) h2 s"
  shows "persistence_get_data E dbPath key res info buf n s w =
    (let (r, b) = read_result EPERS_NOKEY (first_some [view w h0 key, view w h1 res, view w h2 res]) buf n
     in Some (r, b, s, w))"
  by (rule get_data_defaults [OF assms])

text \<open>
  C29: deleting a local or shared key returns 0, or the error that there is no key when it is absent,
  removes the key, and for a shared resource sends the deleted signal in both cases; reading the key
  afterwards gives the default.
\<close>

theorem persistence_delete_get:
  assumes "store_plugin (db_of s) (e_not_found E) mx view" "stored_locally (e_pco E) info" "pco_ok (e_pco E)"
    and "e_wr E (pipe s)"
    and "db_open_at (e_pco E) info (cpolicy (configKey info)) h0 s"
    and "db_open_at (e_pco E) info (PersistenceDB_confdefault (e_pco E)) h1 s"
    and "db_open_at (e_pco E) info (PersistenceDB_default (e_pco E)) h2 s"
  shows "\<exists>s2 w2. persistence_delete_data E dbPath key res info s w =
      Some (if view w h0 key = None then EPERS_NOKEY else 0, s2, w2) \<and>
    pipe s2 = pipe s @ signals E res info pclNotifyStatus_deleted \<and>
    persistence_get_data E dbPath key res info buf n s2 w2 =
      (let (r, b) = read_result EPERS_NOKEY (first_some [view w2 h1 res, view w2 h2 res]) buf n
       in Some (r, b, s2, w2))"
proof -
  define s2 where "s2 = s\<lparr>pipe := pipe s @ signals E res info pclNotifyStatus_deleted\<rparr>"
  obtain del w2 where d: "db_delete (db_of s) = Some del"
    "del h0 key w = (if view w h0 key = None then e_not_found E else 0, w2)"
    "view w2 = (view w)(h0 := (view w h0)(key := None))"
    using store_delete [OF assms(1)] by metis
  have nf: "e_not_found E < 0" "0 \<le> h0"
    using assms(1,5) by (simp_all add: store_plugin_def db_open_at_def)
  have "persistence_delete_data E dbPath key res info s w =
      Some (if view w h0 key = None then EPERS_NOKEY else 0, s2, w2)"
    using assms(2-4) d nf unfolding persistence_delete_data_def delete_database_def database_get_open [OF assms(5)]
    by (auto simp: stored_locally_def pco_ok_def pers_send_ok signals_def s2_def Let_def)
  moreover have "view w2 h0 key = None"
    by (simp add: d(3))
  ultimately show ?thesis
    using get_data_defaults [of s2 E mx view info h0 h1 h2 dbPath key res buf n w2] assms
    by (intro exI [of _ s2] exI [of _ w2]) (simp add: s2_def)
qed

section \<open>Closing\<close>

lemma close_loop_all:
  assumes "db_close (db_of s) = Some cl" "\<And>h w. 0 \<le> fst (cl h w)"
  shows "loader (fst (close_loop l s w)) = loader s \<and>
    (gHandlesDBCreated (fst (close_loop l s w)) i j =
      (if (i, j) \<in> set l \<and> gHandlesDBCreated s i j = 1 then 0 else gHandlesDBCreated s i j))"
  using assms(1)
proof (induction l arbitrary: s w)
  case Nil
  then show ?case
    by simp
next
  case (Cons a l)
  obtain x y where a: "a = (x, y)"
    by (cases a)
  obtain r w' where c: "cl (gHandlesDB s x y) w = (r, w')"
    by (cases "cl (gHandlesDB s x y) w")
  have "0 \<le> r"
    using assms(2) [of "gHandlesDB s x y" w] c by simp
  define s1 where "s1 = s\<lparr>gHandlesDBCreated := (gHandlesDBCreated s)(x := (gHandlesDBCreated s x)(y := 0))\<rparr>"
  have s1: "db_close (db_of s1) = Some cl" "loader s1 = loader s"
    "gHandlesDBCreated s1 i j = (if (i, j) = (x, y) then 0 else gHandlesDBCreated s i j)"
    using Cons.prems by (simp_all add: s1_def)
  show ?case
  proof (cases "gHandlesDBCreated s x y = 1")
    case True
    then have "close_loop (a # l) s w = close_loop l s1 w'"
      using Cons.prems c \<open>0 \<le> r\<close> by (simp add: a s1_def)
    then show ?thesis
      using Cons.IH [OF s1(1), of w'] s1(2,3) True by (auto simp: a)
  next
    case False
    then have "close_loop (a # l) s w = close_loop l s w"
      by (simp add: a)
    then show ?thesis
      using Cons.IH [OF Cons.prems, of w] False by (auto simp: a)
  qed
qed

text \<open>
  Closing all databases with a close function that does not fail leaves none marked open in the
  whole array, so the next access of any resource opens its database again.
\<close>

lemma database_close_all_closes:
  assumes "db_close (db_of s) = Some cl" "\<And>h w. 0 \<le> fst (cl h w)"
    and "\<And>i j. gHandlesDBCreated s i j \<in> {0, 1}"
    and "0 \<le> i" "i < DbTableSize" "0 \<le> j" "j < PersistenceDB_LastEntry (e_pco E)"
  shows "gHandlesDBCreated (fst (database_close_all E s w)) i j = 0"
proof -
  have "(i, j) \<in> set (db_cells (e_pco E))"
    using assms(4-7) by (simp add: db_cells_def)
  then show ?thesis
    using close_loop_all [OF assms(1,2), of "db_cells (e_pco E)" w i j] assms(3) [of i j]
    by (auto simp: database_close_all_def)
qed


section \<open>A plugin and concrete runs\<close>

type_synonym mem = "int \<Rightarrow> string \<Rightarrow> byte_buf option"

text \<open>A database in memory: the handle of a file is the length of its name.\<close>

definition mem_db :: "mem db_plugin" where
  "mem_db = \<lparr>db_open = Some (\<lambda>p f w. (int (length p), w)), db_close = Some (\<lambda>h w. (0, w)),
     db_write = Some (\<lambda>h k d n w. if n \<le> 16384 then (n, w(h := (w h)(k \<mapsto> take (nat n) d))) else (-7, w)),
     db_read = Some (\<lambda>h k b n w. (case read_result (-8) (w h k) b n of (r, b) \<Rightarrow> (r, b, w))),
     db_size = Some (\<lambda>h k w. (size_result (-8) (w h k), w)),
     db_delete = Some (\<lambda>h k w. (if w h k = None then -8 else 0, w(h := (w h)(k := None))))\<rparr>"

lemma mem_db_store: "store_plugin mem_db (-8) 16384 (\<lambda>w. w)"
  by (simp add: store_plugin_def mem_db_def Let_def)

definition loader_1 :: "mem loader" where
  "loader_1 = loader_0\<lparr>plugin_db := mem_db\<rparr>"

definition env_1 :: "mem env" where
  "env_1 = \<lparr>e_pco = pco_1, e_app = ''app'', e_wr = (\<lambda>l. length l < 8),
     e_dl = \<lparr>dl_default = (\<lambda>_. None), dl_custom = (\<lambda>_. None)\<rparr>, e_not_found = -8\<rparr>"

definition state_1 :: "mem pcl_state" where
  "state_1 = \<lparr>pipe = [], gLockAccess = 0, prct = prct_init, gHandlesDB = (\<lambda>_ _. 0),
     gHandlesDBCreated = (\<lambda>_ _. 0), loader = loader_1\<rparr>"

definition info_at :: "32 word \<Rightarrow> int \<Rightarrow> pers_info" where
  "info_at g st = \<lparr>dbctx = \<lparr>ctx_ldbid = g, ctx_user = 1, ctx_seat = 0\<rparr>,
     configKey = \<lparr>cpolicy = 1, cstorage = st, ctype = 0, cpermission = 0, cmax_size = 64,
       creponsible = [], ccustom_name = [], ccustomID = []\<rparr>\<rparr>"

lemma open_1: "database_get env_1 (info_at 5 1) ''/db'' 1 state_1 w =
    Some (10, state_1\<lparr>gHandlesDB := (\<lambda>_ _. 0)(6 := (\<lambda>_. 0)(1 := 10)),
                      gHandlesDBCreated := (\<lambda>_ _. 0)(6 := (\<lambda>_. 0)(1 := 1))\<rparr>, w)"
  by (simp add: database_get_def env_1_def info_at_def state_1_def db_index_def pco_1_def db_file_def
      loader_1_def loader_0_def mem_db_def names_1_def Let_def)

theorem database_get_mixes_groups_witness:
  "\<exists>s' w'. database_get env_1 (info_at 4 2) ''/shared_group_4'' 3 state_1 (\<lambda>_ _. None) = Some (45, s', w') \<and>
     database_get env_1 (info_at 5 1) ''/a_longer_path/shared_group_5'' 3 s' w' = Some (45, s', w')"
proof -
  obtain h s' w' where g: "database_get env_1 (info_at 4 2) ''/shared_group_4'' 3 state_1 (\<lambda>_ _. None) = Some (h, s', w')" "h = 45"
    by (simp add: database_get_def env_1_def info_at_def state_1_def db_index_def pco_1_def db_file_def
      loader_1_def loader_0_def mem_db_def names_1_def Let_def)
  then show ?thesis
    using database_get_mixes_groups [of pco_1 "info_at 4 2" "info_at 5 1" env_1 "''/shared_group_4''" 3 state_1 "\<lambda>_ _. None" h s' w'
        "''/a_longer_path/shared_group_5''" w']
    by (simp add: pco_1_def info_at_def)
qed

definition state_2 :: "mem pcl_state" where
  "state_2 = state_1\<lparr>gHandlesDB := (\<lambda>_ j. j), gHandlesDBCreated := (\<lambda>_ _. 1)\<rparr>"

lemma state_2_open: "0 \<le> t \<Longrightarrow> t < 5 \<Longrightarrow> db_open_at (e_pco env_1) (info_at 5 1) t t state_2"
  by (simp add: db_open_at_def env_1_def pco_1_def state_2_def db_index_def info_at_def)

lemma state_2_store: "store_plugin (db_of state_2) (e_not_found env_1) 16384 (\<lambda>w. w)"
  using mem_db_store by (simp add: state_2_def state_1_def loader_1_def env_1_def)

lemma state_2_info: "stored_locally (e_pco env_1) (info_at 5 1)" "cpolicy (configKey (info_at 5 1)) = 1"
  "PersistenceDB_confdefault (e_pco env_1) = 3" "e_wr env_1 (pipe state_2)"
  by (simp_all add: stored_locally_def info_at_def env_1_def pco_1_def state_2_def state_1_def)

definition mem_2 :: mem where
  "mem_2 = (\<lambda>_ _. None)(1 := [''/User/1/a'' \<mapsto> [1]], 4 := [''a'' \<mapsto> [4], ''b'' \<mapsto> [5, 6]])"

theorem persistence_get_data_defaults_witness:
  "persistence_get_data env_1 ''/db'' ''/User/1/b'' ''b'' (info_at 5 1) [0, 0, 0] 3 state_2 mem_2 =
     Some (2, [5, 6, 0], state_2, mem_2) \<and>
   persistence_get_data env_1 ''/db'' ''/User/1/c'' ''c'' (info_at 5 1) [0, 0, 0] 3 state_2 mem_2 =
     Some (EPERS_NOKEY, [0, 0, 0], state_2, mem_2)"
proof -
  note D = persistence_get_data_defaults [OF state_2_store state_2_info(1), unfolded state_2_info(2,3),
      OF state_2_open [of 1] state_2_open [of 3] state_2_open [of "3 + 1"]]
  show ?thesis
    using D [of "''/db''" "''/User/1/b''" "''b''" "[0, 0, 0]" 3 mem_2]
      D [of "''/db''" "''/User/1/c''" "''c''" "[0, 0, 0]" 3 mem_2]
    by (simp add: mem_2_def read_result_def)
qed

theorem persistence_delete_get_witness:
  "\<exists>s2 w2. persistence_delete_data env_1 ''/db'' ''/User/1/a'' ''a'' (info_at 5 1) state_2 mem_2 = Some (0, s2, w2) \<and>
     length (pipe s2) = 1"
proof -
  note D = persistence_delete_get [OF state_2_store state_2_info(1) _ state_2_info(4), unfolded state_2_info(2,3),
      OF _ state_2_open [of 1] state_2_open [of 3] state_2_open [of "3 + 1"]]
  have s: "e_pco env_1 = pco_1" "pipe state_2 = []" "length (signals env_1 ''a'' (info_at 5 1) c) = 1" for c
    by (simp_all add: env_1_def state_2_def state_1_def signals_def info_at_def pco_1_def)
  obtain s2 w2 where "persistence_delete_data env_1 ''/db'' ''/User/1/a'' ''a'' (info_at 5 1) state_2 mem_2 = Some (0, s2, w2)"
    "pipe s2 = pipe state_2 @ signals env_1 ''a'' (info_at 5 1) pclNotifyStatus_deleted"
    using D [where dbPath = "''/db''" and key = "''/User/1/a''" and res = "''a''" and w = mem_2 and buf = "[]" and n = 0]
      pco_1_ok s(1) by (auto simp: mem_2_def)
  then show ?thesis
    using s(2,3) by simp
qed

lemma database_close_all_closes_witness:
  "gHandlesDBCreated (fst (database_close_all env_1 state_2 mem_2)) 6 4 = 0"
  by (rule database_close_all_closes [of state_2 "\<lambda>h w. (0, w)"])
    (simp_all add: state_2_def state_1_def loader_1_def mem_db_def env_1_def pco_1_def)

end
