(* ===== verification/Rb_Tree.thy ===== *)
theory Rb_Tree
  imports Pcl_Prelude
begin

text \<open>
  The red-black tree of \<^verbatim>\<open>src/rbtree.c\<close>, operation by operation, over an explicit heap.
  A node is a record, a pointer is a natural number (0 is NULL) and the nodes a tree has
  allocated are a partial map from addresses to nodes.  Every dereference goes through that map:
  reading NULL, a freed node or an address that was never allocated is \<open>None\<close>, and so is a loop that
  does not end.  A theorem that an operation returns \<open>Some\<close> therefore says that it terminates and
  that all its memory accesses are valid.  Directions are booleans: \<open>False\<close> is \<^verbatim>\<open>link[0]\<close> (left) and
  \<open>True\<close> is \<^verbatim>\<open>link[1]\<close> (right).  The comparison, the copy and the allocator of the C code are
  arguments: \<open>cmp\<close> and \<open>dup\<close> are fields of the tree, as in the C struct, and \<open>mem\<close> says whether
  malloc succeeds in the call.  The release function has no effect on the model's values; the items
  it is called on are returned.
\<close>

section \<open>Nodes, trees and memory accesses\<close>

type_synonym addr = nat

abbreviation NULL :: addr where "NULL \<equiv> 0"

text \<open>The address of the false root, which the C code keeps on the stack.\<close>

abbreviation HEAD :: addr where "HEAD \<equiv> 2"

record 'a jsw_rbnode =
  red :: bool
  data :: 'a
  link :: "bool \<Rightarrow> addr"

type_synonym 'a rbheap = "addr \<rightharpoonup> 'a jsw_rbnode"

record 'a jsw_rbtree =
  root :: addr
  cmp :: "'a \<Rightarrow> 'a \<Rightarrow> int"
  dup :: "'a \<Rightarrow> 'a"
  tsize :: "64 word"
  nodes :: "'a rbheap"
  brk :: addr

definition get_link :: "'a rbheap \<Rightarrow> addr \<Rightarrow> bool \<Rightarrow> addr option" where
  "get_link h a d = map_option (\<lambda>n. link n d) (h a)"

definition set_link :: "'a rbheap \<Rightarrow> addr \<Rightarrow> bool \<Rightarrow> addr \<Rightarrow> 'a rbheap option" where
  "set_link h a d b = map_option (\<lambda>n. h(a \<mapsto> n\<lparr>link := (link n)(d := b)\<rparr>)) (h a)"

definition set_red :: "'a rbheap \<Rightarrow> addr \<Rightarrow> bool \<Rightarrow> 'a rbheap option" where
  "set_red h a c = map_option (\<lambda>n. h(a \<mapsto> n\<lparr>red := c\<rparr>)) (h a)"

definition is_red :: "'a rbheap \<Rightarrow> addr \<Rightarrow> bool option" where
  "is_red h a = (if a = NULL then Some False else map_option red (h a))"

section \<open>Rotations and node allocation\<close>

definition jsw_single :: "'a rbheap \<Rightarrow> addr \<Rightarrow> bool \<Rightarrow> ('a rbheap \<times> addr) option" where
  "jsw_single h r dir =
     (if r \<noteq> NULL then
        do { save \<leftarrow> get_link h r (\<not> dir);
             s \<leftarrow> get_link h save dir;
             h \<leftarrow> set_link h r (\<not> dir) s;
             h \<leftarrow> set_link h save dir r;
             h \<leftarrow> set_red h r True;
             h \<leftarrow> set_red h save False;
             Some (h, save) }
      else Some (h, NULL))"

definition jsw_double :: "'a rbheap \<Rightarrow> addr \<Rightarrow> bool \<Rightarrow> ('a rbheap \<times> addr) option" where
  "jsw_double h r dir =
     do { l \<leftarrow> get_link h r (\<not> dir);
          (h, s) \<leftarrow> jsw_single h l (\<not> dir);
          h \<leftarrow> set_link h r (\<not> dir) s;
          jsw_single h r dir }"

definition new_node ::
    "bool \<Rightarrow> ('a \<Rightarrow> 'a) \<Rightarrow> 'a rbheap \<Rightarrow> addr \<Rightarrow> 'a \<Rightarrow> 'a rbheap \<times> addr \<times> addr" where
  "new_node mem dp h b x =
     (if \<not> mem then (h, b, NULL)
      else (h(b \<mapsto> \<lparr>red = True, data = dp x, link = (\<lambda>_. NULL)\<rparr>), Suc b, b))"

definition jsw_rbnew :: "('a \<Rightarrow> 'a \<Rightarrow> int) \<Rightarrow> ('a \<Rightarrow> 'a) \<Rightarrow> 'a jsw_rbtree" where
  "jsw_rbnew c dp =
     \<lparr>root = NULL, cmp = c, dup = dp, tsize = 0, nodes = Map.empty, brk = 3\<rparr>"

section \<open>Search\<close>

partial_function (option) rbfind_loop ::
    "'a rbheap \<Rightarrow> ('a \<Rightarrow> 'a \<Rightarrow> int) \<Rightarrow> 'a \<Rightarrow> addr \<Rightarrow> addr option" where
  "rbfind_loop h c x it =
     (if it = NULL then Some NULL
      else do { n \<leftarrow> h it;
                if c (data n) x = 0 then Some it
                else rbfind_loop h c x (link n (c (data n) x < 0)) })"

definition jsw_rbfind :: "'a jsw_rbtree \<Rightarrow> 'a \<Rightarrow> 'a option option" where
  "jsw_rbfind t x =
     do { it \<leftarrow> rbfind_loop (nodes t) (cmp t) x (root t);
          if it = NULL then Some None else map_option (\<lambda>n. Some (data n)) (nodes t it) }"

section \<open>Insertion\<close>

text \<open>
  One round of the search loop of \<^verbatim>\<open>jsw_rbinsert\<close> up to the comparison: attach a new node or flip
  colours, then repair a red violation.  The result says whether malloc delivered the node.
\<close>

definition rbinsert_flip ::
    "'a rbheap \<Rightarrow> addr \<Rightarrow> 'a rbheap option" where
  "rbinsert_flip h q =
     do { l \<leftarrow> get_link h q False; r \<leftarrow> get_link h q True;
          lr \<leftarrow> is_red h l; rr \<leftarrow> is_red h r;
          if lr \<and> rr then
            do { h \<leftarrow> set_red h q True;
                 h \<leftarrow> set_red h l False;
                 set_red h r False }
          else Some h }"

definition rbinsert_fix ::
    "'a rbheap \<Rightarrow> addr \<Rightarrow> addr \<Rightarrow> addr \<Rightarrow> addr \<Rightarrow> bool \<Rightarrow> 'a rbheap option" where
  "rbinsert_fix h t g p q lst =
     do { rq \<leftarrow> is_red h q; rp \<leftarrow> is_red h p;
          if rq \<and> rp then
            do { tr \<leftarrow> get_link h t True;
                 pl \<leftarrow> get_link h p lst;
                 (h, s) \<leftarrow> (if q = pl then jsw_single h g (\<not> lst) else jsw_double h g (\<not> lst));
                 set_link h t (tr = g) s }
          else Some h }"

partial_function (option) rbinsert_loop ::
    "bool \<Rightarrow> ('a \<Rightarrow> 'a \<Rightarrow> int) \<Rightarrow> ('a \<Rightarrow> 'a) \<Rightarrow> 'a \<Rightarrow> 'a rbheap \<Rightarrow> addr \<Rightarrow>
     addr \<Rightarrow> addr \<Rightarrow> addr \<Rightarrow> addr \<Rightarrow> bool \<Rightarrow> bool \<Rightarrow> ('a rbheap \<times> addr \<times> bool) option" where
  "rbinsert_loop mem c dp x h b t g p q dir lst =
     do { (h, b, q) \<leftarrow>
            (if q = NULL then
               (case new_node mem dp h b x of
                  (h, b, a) \<Rightarrow> do { h \<leftarrow> set_link h p dir a; Some (h, b, a) })
             else do { h \<leftarrow> rbinsert_flip h q; Some (h, b, q) });
          if q = NULL then Some (h, b, False)
          else do {
            h \<leftarrow> rbinsert_fix h t g p q lst;
            n \<leftarrow> h q;
            if c (data n) x = 0 then Some (h, b, True)
            else rbinsert_loop mem c dp x h b (if g \<noteq> NULL then g else t) p q
                   (link n (c (data n) x < 0)) (c (data n) x < 0) dir } }"

definition jsw_rbinsert :: "bool \<Rightarrow> 'a jsw_rbtree \<Rightarrow> 'a \<Rightarrow> (int \<times> 'a jsw_rbtree) option" where
  "jsw_rbinsert mem t x =
     (if root t = NULL then
        (case new_node mem (dup t) (nodes t) (brk t) x of
           (h, b, a) \<Rightarrow>
             if a = NULL then Some (0, t\<lparr>nodes := h, brk := b\<rparr>)
             else do { h \<leftarrow> set_red h a False;
                       Some (1, t\<lparr>root := a, tsize := tsize t + 1, nodes := h, brk := b\<rparr>) })
      else
        do { let h0 = (nodes t)(HEAD \<mapsto>
               \<lparr>red = False, data = x, link = (\<lambda>_. NULL)(True := root t)\<rparr>);
             (h, b, ok) \<leftarrow> rbinsert_loop mem (cmp t) (dup t) x h0 (brk t)
                              HEAD NULL NULL (root t) False False;
             if \<not> ok then Some (0, t\<lparr>nodes := h(HEAD := None), brk := b\<rparr>)
             else do {
               r \<leftarrow> get_link h HEAD True;
               h \<leftarrow> set_red h r False;
               Some (1, t\<lparr>root := r, tsize := tsize t + 1, nodes := h(HEAD := None), brk := b\<rparr>) } })"

section \<open>Removal\<close>

text \<open>
  Pushing a red node down in \<^verbatim>\<open>jsw_rberase\<close>: the rotation at the current node, the colour flip and
  the rotations at the parent.  The result is the heap and the (possibly new) parent of \<open>q\<close>.
\<close>

definition rberase_colour :: "'a rbheap \<Rightarrow> addr \<Rightarrow> addr \<Rightarrow> 'a rbheap option" where
  "rberase_colour h y q =
     do { h \<leftarrow> set_red h y True;
          h \<leftarrow> set_red h q True;
          y0 \<leftarrow> get_link h y False;
          h \<leftarrow> set_red h y0 False;
          y1 \<leftarrow> get_link h y True;
          set_red h y1 False }"

definition rberase_rotate ::
    "'a rbheap \<Rightarrow> addr \<Rightarrow> addr \<Rightarrow> addr \<Rightarrow> bool \<Rightarrow> bool \<Rightarrow> bool \<Rightarrow> 'a rbheap option" where
  "rberase_rotate h g p q lst ra rb =
     do { gr \<leftarrow> get_link h g True;
          let dir2 = (gr = p);
          h \<leftarrow> (if rb then do { (h, y) \<leftarrow> jsw_double h p lst; set_link h g dir2 y }
               else if ra then do { (h, y) \<leftarrow> jsw_single h p lst; set_link h g dir2 y }
               else Some h);
          y \<leftarrow> get_link h g dir2;
          rberase_colour h y q }"

definition rberase_push ::
    "'a rbheap \<Rightarrow> addr \<Rightarrow> addr \<Rightarrow> addr \<Rightarrow> bool \<Rightarrow> bool \<Rightarrow> ('a rbheap \<times> addr) option" where
  "rberase_push h g p q dir lst =
     do { rq \<leftarrow> is_red h q;
          qd \<leftarrow> get_link h q dir; rqd \<leftarrow> is_red h qd;
          if \<not> rq \<and> \<not> rqd then
            do { qn \<leftarrow> get_link h q (\<not> dir); rqn \<leftarrow> is_red h qn;
                 if rqn then
                   do { (h, s) \<leftarrow> jsw_single h q dir;
                        h \<leftarrow> set_link h p lst s;
                        Some (h, s) }
                 else
                   do { s \<leftarrow> get_link h p (\<not> lst);
                        if s \<noteq> NULL then
                          do { sa \<leftarrow> get_link h s (\<not> lst); ra \<leftarrow> is_red h sa;
                               sb \<leftarrow> get_link h s lst; rb \<leftarrow> is_red h sb;
                               if \<not> ra \<and> \<not> rb then
                                 do { h \<leftarrow> set_red h p False;
                                      h \<leftarrow> set_red h s True;
                                      h \<leftarrow> set_red h q True;
                                      Some (h, p) }
                               else do { h \<leftarrow> rberase_rotate h g p q lst ra rb;
                                         Some (h, p) } }
                        else Some (h, p) } }
          else Some (h, p) }"

partial_function (option) rberase_loop ::
    "('a \<Rightarrow> 'a \<Rightarrow> int) \<Rightarrow> 'a \<Rightarrow> 'a rbheap \<Rightarrow> addr \<Rightarrow> addr \<Rightarrow> addr \<Rightarrow> bool \<Rightarrow>
     ('a rbheap \<times> addr \<times> addr \<times> addr) option" where
  "rberase_loop c x h p q f dir =
     do { a \<leftarrow> get_link h q dir;
          if a = NULL then Some (h, p, q, f)
          else do {
            n \<leftarrow> h a;
            (h, p') \<leftarrow> rberase_push h p q a (c (data n) x < 0) dir;
            rberase_loop c x h p' a (if c (data n) x = 0 then a else f) (c (data n) x < 0) } }"

definition rberase_unlink :: "'a rbheap \<Rightarrow> addr \<Rightarrow> addr \<Rightarrow> 'a rbheap option" where
  "rberase_unlink h p q =
     do { pr \<leftarrow> get_link h p True;
          q0 \<leftarrow> get_link h q False;
          r \<leftarrow> get_link h q (q0 = NULL);
          set_link h p (pr = q) r }"

text \<open>The last step: the found item is overwritten by its predecessor, whose node is taken out.\<close>

definition rberase_remove ::
    "'a rbheap \<Rightarrow> addr \<Rightarrow> addr \<Rightarrow> addr \<Rightarrow> ('a rbheap \<times> 'a list) option" where
  "rberase_remove h p q f =
     (if f \<noteq> NULL then
        do { fn \<leftarrow> h f; qn \<leftarrow> h q;
             h \<leftarrow> Some (h(f \<mapsto> fn\<lparr>data := data qn\<rparr>));
             h \<leftarrow> rberase_unlink h p q;
             Some (h(q := None), [data fn]) }
      else Some (h, []))"

definition jsw_rberase ::
    "'a jsw_rbtree \<Rightarrow> 'a \<Rightarrow> (int \<times> 'a jsw_rbtree \<times> 'a list) option" where
  "jsw_rberase t x =
     (if root t \<noteq> NULL then
        do { let h0 = (nodes t)(HEAD \<mapsto>
               \<lparr>red = False, data = x, link = (\<lambda>_. NULL)(True := root t)\<rparr>);
             (h, p, q, f) \<leftarrow> rberase_loop (cmp t) x h0 NULL HEAD NULL True;
             (h, rel) \<leftarrow> rberase_remove h p q f;
             r \<leftarrow> get_link h HEAD True;
             h \<leftarrow> (if r \<noteq> NULL then set_red h r False else Some h);
             Some (1, t\<lparr>root := r, tsize := tsize t - 1, nodes := h(HEAD := None)\<rparr>, rel) }
      else Some (1, t, []))"

section \<open>Destruction and size\<close>

text \<open>The items handed to the release function, in order, and the nodes still allocated.\<close>

partial_function (option) rbdelete_loop ::
    "'a rbheap \<Rightarrow> 'a list \<Rightarrow> addr \<Rightarrow> ('a rbheap \<times> 'a list) option" where
  "rbdelete_loop h rel it =
     (if it = NULL then Some (h, rel)
      else do {
        n \<leftarrow> h it;
        if link n False = NULL then rbdelete_loop (h(it := None)) (rel @ [data n]) (link n True)
        else do {
          let save = link n False;
          r \<leftarrow> get_link h save True;
          h \<leftarrow> set_link h it False r;
          h \<leftarrow> set_link h save True it;
          rbdelete_loop h rel save } })"

definition jsw_rbdelete :: "'a jsw_rbtree \<Rightarrow> ('a rbheap \<times> 'a list) option" where
  "jsw_rbdelete t = rbdelete_loop (nodes t) [] (root t)"

definition jsw_rbsize :: "'a jsw_rbtree \<Rightarrow> 64 word" where
  "jsw_rbsize t = tsize t"

end
