(* ===== verification/Rb_Shape.thy ===== *)
theory Rb_Shape
  imports Rb_Tree
begin

text \<open>
  The shape of a red-black tree in the heap: the abstract trees the nodes stand for, the path from
  the false root to a position in the tree as a list of frames, the frame lemmas for heap updates,
  and the red-black and ordering invariants on a tree that is split at a position.
\<close>

section \<open>Abstract trees\<close>

datatype 'a atree = Lf | Nd addr bool 'a "'a atree" "'a atree"

fun ad :: "'a atree \<Rightarrow> addr" where
  "ad Lf = NULL"
| "ad (Nd a c x l r) = a"

fun rd :: "'a atree \<Rightarrow> bool" where
  "rd Lf = False"
| "rd (Nd a c x l r) = c"

fun paint :: "bool \<Rightarrow> 'a atree \<Rightarrow> 'a atree" where
  "paint c Lf = Lf"
| "paint c (Nd a c' x l r) = Nd a c x l r"

fun addrs :: "'a atree \<Rightarrow> addr list" where
  "addrs Lf = []"
| "addrs (Nd a c x l r) = addrs l @ a # addrs r"

fun inorder :: "'a atree \<Rightarrow> 'a list" where
  "inorder Lf = []"
| "inorder (Nd a c x l r) = inorder l @ x # inorder r"

text \<open>The node with subtree \<open>t\<close> in direction \<open>d\<close> and subtree \<open>s\<close> on the other side.\<close>

definition nd :: "addr \<Rightarrow> bool \<Rightarrow> 'a \<Rightarrow> bool \<Rightarrow> 'a atree \<Rightarrow> 'a atree \<Rightarrow> 'a atree" where
  "nd a c x d t s = (if d then Nd a c x s t else Nd a c x t s)"

definition lk :: "bool \<Rightarrow> addr \<Rightarrow> addr \<Rightarrow> bool \<Rightarrow> addr" where
  "lk d a b = (\<lambda>e. if e = d then a else b)"

lemma lk_simps [simp]:
  "lk d a b d = a" "lk d a b (\<not> d) = b" "lk (\<not> d) a b d = b"
  "(lk d a b)(d := x) = lk d x b" "(lk d a b)(\<not> d := x) = lk d a x"
  by (auto simp: lk_def fun_eq_iff)

lemma lk_bool [simp]:
  "lk True a b True = a" "lk True a b False = b" "lk False a b True = b" "lk False a b False = a"
  by (auto simp: lk_def)

lemma lk_flip: "lk (\<not> d) a b = lk d b a"
  by (auto simp: lk_def fun_eq_iff)

lemma nd_flip: "nd a c x (\<not> d) t s = nd a c x d s t"
  by (simp add: nd_def)

lemma nd_ex: "t \<noteq> Lf \<Longrightarrow> \<exists>a c x l r. t = nd a c x d l r"
proof (cases t)
  case (Nd a c x l r)
  then have "t = nd a c x d (if d then r else l) (if d then l else r)"
    by (simp add: nd_def)
  then show ?thesis by blast
qed simp

lemma nd_neq [simp]: "nd a c x d t s \<noteq> Lf" "Lf \<noteq> nd a c x d t s"
  by (auto simp: nd_def)

lemma ad_nd [simp]: "ad (nd a c x d t s) = a"
  by (simp add: nd_def)

lemma rd_nd [simp]: "rd (nd a c x d t s) = c"
  by (simp add: nd_def)

lemma paint_nd [simp]: "paint c (nd a c' x d t s) = nd a c x d t s"
  by (simp add: nd_def)

lemma ad_paint [simp]: "ad (paint c t) = ad t"
  by (cases t) auto

lemma rd_paint [simp]: "rd (paint c t) \<longleftrightarrow> c \<and> t \<noteq> Lf"
  by (cases t) auto

lemma addrs_paint [simp]: "addrs (paint c t) = addrs t"
  by (cases t) auto

lemma inorder_paint [simp]: "inorder (paint c t) = inorder t"
  by (cases t) auto

lemma set_addrs_nd [simp]: "set (addrs (nd a c x d t s)) = insert a (set (addrs t) \<union> set (addrs s))"
  by (auto simp: nd_def)

lemma rd_Lf: "rd t \<Longrightarrow> t \<noteq> Lf"
  by auto

section \<open>Trees in the heap\<close>

fun tree_at :: "'a rbheap \<Rightarrow> 'a atree \<Rightarrow> bool" where
  "tree_at h Lf = True"
| "tree_at h (Nd a c x l r) =
     (a \<noteq> NULL \<and> h a = Some \<lparr>red = c, data = x, link = lk False (ad l) (ad r)\<rparr> \<and>
      tree_at h l \<and> tree_at h r)"

lemma tree_at_nd:
  "tree_at h (nd a c x d t s) \<longleftrightarrow>
     a \<noteq> NULL \<and> h a = Some \<lparr>red = c, data = x, link = lk d (ad t) (ad s)\<rparr> \<and>
     tree_at h t \<and> tree_at h s"
  using lk_flip [of False] by (cases d) (auto simp: nd_def)

lemma tree_at_upd [simp]: "b \<notin> set (addrs t) \<Longrightarrow> tree_at (h(b := v)) t = tree_at h t"
  by (induction t) auto

lemma ad_in: "t \<noteq> Lf \<Longrightarrow> ad t \<in> set (addrs t)"
  by (cases t) auto

lemma tree_at_addrs: "tree_at h t \<Longrightarrow> a \<in> set (addrs t) \<Longrightarrow> a \<noteq> NULL \<and> h a \<noteq> None"
  by (induction t) auto

lemma tree_at_ad_NULL: "tree_at h t \<Longrightarrow> ad t = NULL \<longleftrightarrow> t = Lf"
  by (cases t) auto

lemma tree_at_cong:
  "(\<And>a. a \<in> set (addrs t) \<Longrightarrow> h' a = h a) \<Longrightarrow> tree_at h' t = tree_at h t"
  by (induction t) auto

lemma is_red_tree [simp]: "tree_at h t \<Longrightarrow> is_red h (ad t) = Some (rd t)"
  by (cases t) (auto simp: is_red_def)

lemma get_link_node [simp]: "h a = Some n \<Longrightarrow> get_link h a d = Some (link n d)"
  by (simp add: get_link_def)

lemma set_link_node [simp]:
  "h a = Some n \<Longrightarrow> set_link h a d b = Some (h(a \<mapsto> n\<lparr>link := (link n)(d := b)\<rparr>))"
  by (simp add: set_link_def)

lemma set_red_node [simp]: "h a = Some n \<Longrightarrow> set_red h a c = Some (h(a \<mapsto> n\<lparr>red := c\<rparr>))"
  by (simp add: set_red_def)

section \<open>Positions in a tree\<close>

text \<open>
  A frame is a node on the path to a position, without the subtree the path takes: its address,
  colour, item, the direction taken and the subtree on the other side.  Frames are listed from the
  position upwards.
\<close>

type_synonym 'a frame = "addr \<times> bool \<times> 'a \<times> bool \<times> 'a atree"

fun plug :: "'a frame list \<Rightarrow> 'a atree \<Rightarrow> 'a atree" where
  "plug [] t = t"
| "plug ((a, c, x, d, s) # fs) t = plug fs (nd a c x d t s)"

fun frames_at :: "'a rbheap \<Rightarrow> 'a frame list \<Rightarrow> addr \<Rightarrow> bool" where
  "frames_at h [] b = True"
| "frames_at h ((a, c, x, d, s) # fs) b =
     (a \<noteq> NULL \<and> h a = Some \<lparr>red = c, data = x, link = lk d b (ad s)\<rparr> \<and>
      tree_at h s \<and> frames_at h fs a)"

fun faddrs :: "'a frame list \<Rightarrow> addr list" where
  "faddrs [] = []"
| "faddrs ((a, c, x, d, s) # fs) = a # addrs s @ faddrs fs"

lemma frames_at_upd [simp]: "b \<notin> set (faddrs fs) \<Longrightarrow> frames_at (h(b := v)) fs a = frames_at h fs a"
  by (induction fs arbitrary: a) auto

lemma tree_at_plug: "tree_at h (plug fs t) \<longleftrightarrow> frames_at h fs (ad t) \<and> tree_at h t"
  by (induction fs t rule: plug.induct) (auto simp: tree_at_nd)

lemma set_addrs_plug: "set (addrs (plug fs t)) = set (addrs t) \<union> set (faddrs fs)"
  by (induction fs t rule: plug.induct) auto

lemma distinct_nd:
  "distinct (addrs (nd a c x d t s)) \<longleftrightarrow> distinct (a # addrs t @ addrs s)"
  by (auto simp: nd_def)

lemma distinct_plug: "distinct (addrs (plug fs t)) \<longleftrightarrow> distinct (addrs t @ faddrs fs)"
  by (induction fs t rule: plug.induct) (auto simp: distinct_nd)

lemma plug_append: "plug (fs @ gs) t = plug gs (plug fs t)"
  by (induction fs t rule: plug.induct) auto

section \<open>Items in order\<close>

fun lefts :: "'a frame list \<Rightarrow> 'a list" where
  "lefts [] = []"
| "lefts ((a, c, x, d, s) # fs) = (if d then lefts fs @ inorder s @ [x] else lefts fs)"

fun rights :: "'a frame list \<Rightarrow> 'a list" where
  "rights [] = []"
| "rights ((a, c, x, d, s) # fs) = (if d then rights fs else x # inorder s @ rights fs)"

lemma inorder_plug: "inorder (plug fs t) = lefts fs @ inorder t @ rights fs"
  by (induction fs t rule: plug.induct) (auto simp: nd_def)

section \<open>Red-black invariants\<close>

text \<open>No red node has a red child; all paths carry the same number of black nodes.\<close>

fun bh :: "'a atree \<Rightarrow> nat" where
  "bh Lf = 0"
| "bh (Nd a c x l r) = (if c then bh l else Suc (bh l))"

fun rbi :: "'a atree \<Rightarrow> bool" where
  "rbi Lf = True"
| "rbi (Nd a c x l r) =
     (bh l = bh r \<and> (c \<longrightarrow> \<not> rd l \<and> \<not> rd r) \<and> rbi l \<and> rbi r)"

lemma bh_nd: "bh t = bh s \<Longrightarrow> bh (nd a c x d t s) = (if c then bh t else Suc (bh t))"
  by (simp add: nd_def)

lemma rbi_nd:
  "rbi (nd a c x d t s) \<longleftrightarrow> bh t = bh s \<and> (c \<longrightarrow> \<not> rd t \<and> \<not> rd s) \<and> rbi t \<and> rbi s"
  by (auto simp: nd_def)

lemma rbi_paint_black: "rbi t \<Longrightarrow> rbi (paint False t)"
  by (cases t) auto

text \<open>What a context asks of the subtree at its position: its colour and black height.\<close>

fun ctx_ok :: "'a frame list \<Rightarrow> bool \<Rightarrow> nat \<Rightarrow> bool" where
  "ctx_ok [] c n = True"
| "ctx_ok ((a, k, x, d, s) # fs) c n =
     (rbi s \<and> bh s = n \<and> (k \<longrightarrow> \<not> c \<and> \<not> rd s) \<and> ctx_ok fs k (if k then n else Suc n))"

lemma rbi_plug: "rbi (plug fs t) \<longleftrightarrow> rbi t \<and> ctx_ok fs (rd t) (bh t)"
proof (induction fs t rule: plug.induct)
  case (1 t)
  then show ?case by simp
next
  case (2 a c x d s fs t)
  show ?case
  proof (cases "bh t = bh s")
    case True
    then show ?thesis using 2 by (auto simp: rbi_nd bh_nd)
  next
    case False
    then show ?thesis using 2 by (simp add: rbi_nd)
  qed
qed

lemma ctx_ok_black: "ctx_ok fs True n \<Longrightarrow> ctx_ok fs c n"
  by (cases fs) auto

section \<open>Items ordered by a key\<close>

text \<open>
  What the tree needs of its comparison: it compares an integer key, and copying an item keeps the
  key.  The code's three item types provide this, each with its own comparison function.
\<close>

locale rb_item =
  fixes cmpf :: "'a \<Rightarrow> 'a \<Rightarrow> int"
    and dupf :: "'a \<Rightarrow> 'a"
    and key :: "'a \<Rightarrow> int"
  assumes cmp_less: "cmpf y x < 0 \<longleftrightarrow> key y < key x"
    and cmp_zero: "cmpf y x = 0 \<longleftrightarrow> key y = key x"
    and key_dup: "key (dupf x) = key x"

text \<open>The map a list of items stands for.\<close>

definition item_map :: "('a \<Rightarrow> int) \<Rightarrow> 'a list \<Rightarrow> int \<rightharpoonup> 'a" where
  "item_map key xs = map_of (map (\<lambda>y. (key y, y)) xs)"

definition sorted_items :: "('a \<Rightarrow> int) \<Rightarrow> 'a list \<Rightarrow> bool" where
  "sorted_items key xs \<longleftrightarrow> sorted_wrt (<) (map key xs)"

lemma sorted_items_append [simp]:
  "sorted_items key (xs @ ys) \<longleftrightarrow> sorted_items key xs \<and> sorted_items key ys \<and>
     (\<forall>x \<in> set xs. \<forall>y \<in> set ys. key x < key y)"
  by (auto simp: sorted_items_def sorted_wrt_append)

lemma sorted_items_Cons [simp]:
  "sorted_items key (x # ys) \<longleftrightarrow> (\<forall>y \<in> set ys. key x < key y) \<and> sorted_items key ys"
  by (auto simp: sorted_items_def)

lemma sorted_items_Nil [simp]: "sorted_items key []"
  by (simp add: sorted_items_def)

lemma item_map_Nil [simp]: "item_map key [] = Map.empty"
  by (simp add: item_map_def)

lemma item_map_Cons [simp]: "item_map key (x # xs) = (item_map key xs)(key x \<mapsto> x)"
  by (simp add: item_map_def)

lemma item_map_append: "item_map key (xs @ ys) = item_map key ys ++ item_map key xs"
  by (simp add: item_map_def)

lemma dom_item_map: "dom (item_map key xs) = key ` set xs"
  by (simp add: item_map_def dom_map_of_conv_image_fst image_image)

lemma item_map_None: "item_map key xs k = None \<longleftrightarrow> k \<notin> key ` set xs"
  using dom_item_map [of key xs] by (auto simp: domIff)

lemma item_map_key: "item_map key xs k = Some y \<Longrightarrow> key y = k \<and> y \<in> set xs"
  by (induction xs) (auto split: if_splits)

end
