(* ===== verification/Rb_Insert.thy ===== *)
theory Rb_Insert
  imports Rb_Shape
begin

text \<open>
  Insertion into the red-black tree: the two rotations on the heap, the repair of a red violation,
  and the search loop with its helper pointers.
\<close>

section \<open>Rotations on the heap\<close>

lemma jsw_single_heap:
  assumes "r \<noteq> NULL" and "s \<noteq> r"
    and "h r = Some \<lparr>red = cr, data = xr, link = lk e s b\<rparr>"
    and "h s = Some \<lparr>red = cs, data = xs, link = lk e u v\<rparr>"
  shows "jsw_single h r (\<not> e) =
    Some (h(r \<mapsto> \<lparr>red = True, data = xr, link = lk e v b\<rparr>,
            s \<mapsto> \<lparr>red = False, data = xs, link = lk e u r\<rparr>), s)"
proof -
  have tw: "h(r \<mapsto> a1, s \<mapsto> a2, r \<mapsto> a3, s \<mapsto> a4) = h(r \<mapsto> a3, s \<mapsto> a4)" for a1 a2 a3 a4
    using assms(2) by (auto simp: fun_eq_iff)
  show ?thesis
    using assms by (simp add: jsw_single_def tw)
qed

lemma jsw_double_heap:
  assumes "r \<noteq> NULL" and "p \<noteq> NULL" and "distinct [r, p, q]"
    and "h r = Some \<lparr>red = cr, data = xr, link = lk e p b\<rparr>"
    and "h p = Some \<lparr>red = cp, data = xp, link = lk e a q\<rparr>"
    and "h q = Some \<lparr>red = cq, data = xq, link = lk e u v\<rparr>"
  shows "jsw_double h r (\<not> e) =
    Some (h(p \<mapsto> \<lparr>red = True, data = xp, link = lk e a u\<rparr>,
            r \<mapsto> \<lparr>red = True, data = xr, link = lk e v b\<rparr>,
            q \<mapsto> \<lparr>red = False, data = xq, link = lk e p r\<rparr>), q)"
proof -
  have p: "h p = Some \<lparr>red = cp, data = xp, link = lk (\<not> e) q a\<rparr>"
    and q: "h q = Some \<lparr>red = cq, data = xq, link = lk (\<not> e) v u\<rparr>"
    using assms by (simp_all add: lk_flip)
  have s1: "jsw_single h p e =
    Some (h(p \<mapsto> \<lparr>red = True, data = xp, link = lk (\<not> e) u a\<rparr>,
            q \<mapsto> \<lparr>red = False, data = xq, link = lk (\<not> e) v p\<rparr>), q)"
    using jsw_single_heap [of p q h cp xp "\<not> e" a cq xq v u] assms p q by simp
  define h1 where "h1 = h(p \<mapsto> \<lparr>red = True, data = xp, link = lk e a u\<rparr>,
            q \<mapsto> \<lparr>red = False, data = xq, link = lk e p v\<rparr>,
            r \<mapsto> \<lparr>red = cr, data = xr, link = lk e q b\<rparr>)"
  have s2: "jsw_single h1 r (\<not> e) =
    Some (h1(r \<mapsto> \<lparr>red = True, data = xr, link = lk e v b\<rparr>,
            q \<mapsto> \<lparr>red = False, data = xq, link = lk e p r\<rparr>), q)"
    by (rule jsw_single_heap) (use assms in \<open>auto simp: h1_def\<close>)
  have "jsw_double h r (\<not> e) = jsw_single h1 r (\<not> e)"
    using assms s1 by (simp add: jsw_double_def h1_def lk_flip)
  with s2 show ?thesis
    using assms(3) by (auto simp: h1_def fun_eq_iff)
qed

section \<open>Repair of a red violation\<close>

lemma link_dir:
  assumes "b \<noteq> ad s" shows "(lk d b (ad s) True = b) = d"
  using assms by (cases d) auto

lemma fix_none:
  assumes "tree_at h T" and "is_red h p = Some rp" and "\<not> (rd T \<and> rp)"
  shows "rbinsert_fix h t g p (ad T) lst = Some h"
  using assms by (cases "rd T"; simp add: rbinsert_fix_def)

lemma ad_fresh: "tree_at h s \<Longrightarrow> b \<notin> set (addrs s) \<Longrightarrow> b \<noteq> NULL \<Longrightarrow> b \<noteq> ad s"
  by (cases s) auto

lemma fix_single:
  assumes "frames_at h ((p, True, yp, d, sp) # (g, cg, yg, d, sg) # (t, ct, yt, dt, st) # fs) (ad T)"
    and "tree_at h T" and "rd T"
    and "distinct (addrs T @ faddrs ((p, True, yp, d, sp) # (g, cg, yg, d, sg) # (t, ct, yt, dt, st) # fs))"
  shows "\<exists>h'. rbinsert_fix h t g p (ad T) d = Some h' \<and> dom h' = dom h \<and>
     frames_at h' ((p, False, yp, d, nd g True yg d sp sg) # (t, ct, yt, dt, st) # fs) (ad T) \<and>
     tree_at h' T"
proof -
  have T: "ad T \<in> set (addrs T)" "ad T \<noteq> NULL"
    using assms(2,3) by (cases T; simp)+
  have s: "jsw_single h g (\<not> d) =
    Some (h(g \<mapsto> \<lparr>red = True, data = yg, link = lk d (ad sp) (ad sg)\<rparr>,
            p \<mapsto> \<lparr>red = False, data = yp, link = lk d (ad T) g\<rparr>), p)"
    by (rule jsw_single_heap) (use assms in auto)
  have g: "g \<noteq> ad st"
    using assms by (intro ad_fresh [of h]) auto
  have p: "is_red h p = Some True"
    using assms by (simp add: is_red_def)
  show ?thesis
    using assms s T g p by (auto simp: rbinsert_fix_def tree_at_nd link_dir)
qed

lemma fix_double:
  assumes "frames_at h ((p, True, yp, \<not> d, sp) # (g, cg, yg, d, sg) # (t, ct, yt, dt, st) # fs) q"
    and "tree_at h (nd q True y d u v)"
    and "distinct (addrs (nd q True y d u v) @
           faddrs ((p, True, yp, \<not> d, sp) # (g, cg, yg, d, sg) # (t, ct, yt, dt, st) # fs))"
  shows "\<exists>h'. rbinsert_fix h t g p q d = Some h' \<and> dom h' = dom h \<and>
     frames_at h' ((t, ct, yt, dt, st) # fs) q \<and>
     tree_at h' (nd q False y d (nd p True yp d sp u) (nd g True yg d v sg))"
proof -
  note nodes = assms [simplified tree_at_nd frames_at.simps lk_flip, simplified distinct_nd]
  have s: "jsw_double h g (\<not> d) =
    Some (h(p \<mapsto> \<lparr>red = True, data = yp, link = lk d (ad sp) (ad u)\<rparr>,
            g \<mapsto> \<lparr>red = True, data = yg, link = lk d (ad v) (ad sg)\<rparr>,
            q \<mapsto> \<lparr>red = False, data = y, link = lk d p g\<rparr>), q)"
    by (rule jsw_double_heap) (use nodes in \<open>auto simp: distinct_nd\<close>)
  have g: "g \<noteq> ad st"
    by (rule ad_fresh [of h]) (use nodes in auto)
  have q: "q \<noteq> ad sp"
    by (rule ad_fresh [of h]) (use nodes in auto)
  have r: "is_red h p = Some True" "is_red h q = Some True"
    using nodes by (auto simp: is_red_def)
  have d: "distinct [p, g, q, t]" "{p, g, q} \<inter> set (faddrs ((t, ct, yt, dt, st) # fs)) = {}"
    "{p, g, q, t} \<inter> (set (addrs sp) \<union> set (addrs sg) \<union> set (addrs u) \<union> set (addrs v)) = {}"
    "t \<notin> set (faddrs fs)" "t \<notin> set (addrs st)"
    using assms(3) by (auto simp: distinct_nd)
  show ?thesis
    using nodes s g q r d by (auto simp: rbinsert_fix_def tree_at_nd link_dir)
qed

section \<open>The colour flip\<close>

fun kids_red :: "'a atree \<Rightarrow> bool" where
  "kids_red Lf = False"
| "kids_red (Nd a c x l r) = (rd l \<and> rd r)"

fun flip :: "'a atree \<Rightarrow> 'a atree" where
  "flip Lf = Lf"
| "flip (Nd a c x l r) = Nd a True x (paint False l) (paint False r)"

text \<open>A subtree at which no red violation can arise in the round that visits it.\<close>

definition quiet :: "'a atree \<Rightarrow> bool" where
  "quiet t \<longleftrightarrow> t \<noteq> Lf \<and> \<not> rd t \<and> \<not> kids_red t"

lemma kids_red_nd [simp]: "kids_red (nd a c x d t s) \<longleftrightarrow> rd t \<and> rd s"
  by (auto simp: nd_def)

lemma flip_nd [simp]: "flip (nd a c x d t s) = nd a True x d (paint False t) (paint False s)"
  by (simp add: nd_def)

lemma quiet_paint: "rd t \<Longrightarrow> rbi t \<Longrightarrow> quiet (paint False t)"
  by (cases t) (auto simp: quiet_def)

lemma bh_paint_black: "rd t \<Longrightarrow> bh (paint False t) = Suc (bh t)"
  by (cases t) auto

lemma flip_props:
  assumes "rbi t" and "kids_red t"
  shows "ad (flip t) = ad t" "addrs (flip t) = addrs t" "inorder (flip t) = inorder t"
    "rd (flip t)" "\<not> rd t" "rbi (flip t)" "bh (flip t) = bh t"
  using assms by (cases t; auto simp: rbi_paint_black bh_paint_black)+

lemma rbinsert_flip_heap:
  assumes "tree_at h t" and "t \<noteq> Lf" and "frames_at h fs (ad t)"
    and "distinct (addrs t @ faddrs fs)"
  shows "\<exists>h'. rbinsert_flip h (ad t) = Some h' \<and> dom h' = dom h \<and>
    tree_at h' (if kids_red t then flip t else t) \<and> frames_at h' fs (ad t)"
proof -
  obtain a c x l r where t: "t = Nd a c x l r"
    using assms(2) by (cases t) auto
  show ?thesis
  proof (cases "rd l \<and> rd r")
    case False
    then show ?thesis
      using assms by (auto simp: t rbinsert_flip_def)
  next
    case True
    then obtain b y ll lr e z rl rr where k: "l = Nd b True y ll lr" "r = Nd e True z rl rr"
      by (cases l; cases r) auto
    show ?thesis
      using assms by (auto simp: t k rbinsert_flip_def is_red_def)
  qed
qed

section \<open>The search loop: invariant\<close>

text \<open>
  The heap holds the tree below the false root, split into the path to the current node and the
  subtree there.  \<open>xs\<close> are the items in order, all to the left of the position smaller and all to the
  right greater than the item to insert.
\<close>

definition shape :: "'a rbheap \<Rightarrow> 'a frame list \<Rightarrow> 'a atree \<Rightarrow> addr \<Rightarrow> bool" where
  "shape h fs t b \<longleftrightarrow>
     tree_at h t \<and> frames_at h fs (ad t) \<and> distinct (addrs t @ faddrs fs) \<and>
     (\<forall>a \<in> set (addrs t @ faddrs fs). a < b) \<and> dom h = set (addrs t @ faddrs fs)"

definition headed :: "'a frame list \<Rightarrow> 'a \<Rightarrow> bool" where
  "headed fs z \<longleftrightarrow> fs \<noteq> [] \<and> List.last fs = (HEAD, False, z, True, Lf)"

definition sided :: "('a \<Rightarrow> int) \<Rightarrow> int \<Rightarrow> 'a frame list \<Rightarrow> bool" where
  "sided key k fs \<longleftrightarrow>
     (\<forall>y \<in> set (tl (lefts fs)). key y < k) \<and> (\<forall>y \<in> set (rights fs). k < key y)"

definition balanced :: "'a frame list \<Rightarrow> 'a atree \<Rightarrow> bool" where
  "balanced fs t \<longleftrightarrow> rbi t \<and> ctx_ok (butlast fs) (rd t) (bh t)"

definition items :: "'a frame list \<Rightarrow> 'a atree \<Rightarrow> 'a list" where
  "items fs t = tl (inorder (plug fs t))"

lemma headed_Cons [simp]: "fs \<noteq> [] \<Longrightarrow> headed (f # fs) z = headed fs z"
  by (simp add: headed_def)

lemma headed_single [simp]: "headed [f] z \<longleftrightarrow> f = (HEAD, False, z, True, Lf)"
  by (simp add: headed_def)

lemma headed_lefts: "headed fs z \<Longrightarrow> \<exists>L. lefts fs = z # L"
proof (induction fs)
  case (Cons f fs)
  then show ?case by (cases "fs = []"; cases f) auto
qed (simp add: headed_def)

lemma items_eq: "headed fs z \<Longrightarrow> items fs t = tl (lefts fs) @ inorder t @ rights fs"
  by (frule headed_lefts) (auto simp: items_def inorder_plug)

lemma headed_plug:
  assumes "headed fs z"
  shows "plug fs t = Nd HEAD False z Lf (plug (butlast fs) t)"
proof -
  have "plug fs t = plug (butlast fs @ [(HEAD, False, z, True, Lf)]) t"
    using assms by (metis append_butlast_last_id headed_def)
  then show ?thesis by (simp add: plug_append nd_def)
qed

text \<open>
  How the helper pointers \<open>t\<close>, \<open>g\<close>, \<open>p\<close> and the two directions relate to the path, with a
  bound on the rounds left.  They are the great-grandparent, grandparent and parent of the
  position, except in the first two rounds and in the two rounds after a rotation, where no red
  violation can arise.
\<close>

inductive ptrs ::
    "('a \<Rightarrow> bool) \<Rightarrow> 'a frame list \<Rightarrow> 'a atree \<Rightarrow> addr \<Rightarrow> addr \<Rightarrow> addr \<Rightarrow> bool \<Rightarrow> bool \<Rightarrow> nat \<Rightarrow> bool"
  for gt where
  at_root: "T \<noteq> Lf \<Longrightarrow> \<not> rd T \<Longrightarrow>
     ptrs gt [(HEAD, c1, y1, True, s1)] T HEAD NULL NULL dir lst (length (inorder T))"
| below_root: "c1 \<longrightarrow> quiet T \<Longrightarrow> \<not> (rd T \<and> rd s1) \<Longrightarrow>
     ptrs gt [(p, c1, y1, dir, s1), (HEAD, c2, y2, d2, s2)] T HEAD NULL p dir lst
       (length (inorder T))"
| linked: "c1 \<longrightarrow> quiet T \<or> \<not> rd s2 \<Longrightarrow> \<not> (rd T \<and> rd s1) \<Longrightarrow>
     ptrs gt ((p, c1, y1, dir, s1) # (g, c2, y2, lst, s2) # (t, f3) # fs) T t g p dir lst
       (length (inorder T))"
| rotated: "c1 \<longrightarrow> quiet T \<Longrightarrow> \<not> (rd T \<and> rd s1) \<Longrightarrow>
     ptrs gt ((p, c1, y1, dir, s1) # (g, c2, y2, lst, s2) # fs) T t g p dir lst
       (length (inorder T))"
| rotated_twice: "quiet (if gt y then r else l) \<Longrightarrow>
     ptrs gt ((p, False, y1, dir, s1) # f2 # fs) (Nd a True y l r) t g p dir lst
       (Suc (length (inorder (if gt y then r else l))))"

section \<open>The search loop: one round\<close>

text \<open>The pointers are again in place after the loop has moved one level down.\<close>

fun descends ::
    "('a \<Rightarrow> bool) \<Rightarrow> 'a frame list \<Rightarrow> 'a atree \<Rightarrow> addr \<Rightarrow> addr \<Rightarrow> addr \<Rightarrow> bool \<Rightarrow> nat \<Rightarrow> bool" where
  "descends gt fs Lf t g p dir m = True"
| "descends gt fs (Nd q c y l r) t g p dir m =
     (\<exists>m' < m. ptrs gt ((q, c, y, gt y, if gt y then l else r) # fs) (if gt y then r else l)
        (if g \<noteq> NULL then g else t) p q (gt y) dir m')"

lemma ctx_ok_quiet:
  assumes "ctx_ok (butlast fs) False n" and "fs = (a, c, x, d, s) # gs" and "gs = [] \<or> \<not> (k \<and> c)"
  shows "ctx_ok (butlast fs) k n"
  using assms by (cases gs) auto

lemma descends_keep:
  assumes "ptrs gt fs T t g p dir lst m" and "T \<noteq> Lf" and "rbi T"
    and "frames_at h fs b" and "headed fs z"
    and "\<And>f fs'. fs = f # fs' \<Longrightarrow> fs' \<noteq> [] \<Longrightarrow> \<not> ((kids_red T \<or> rd T) \<and> fst (snd f))"
  shows "descends gt fs (if kids_red T then flip T else T) t g p dir m"
proof -
  obtain q c y l r where T: "T = Nd q c y l r"
    using assms(2) by (cases T) auto
  define U where "U = (if gt y then r else l)"
  define S where "S = (if gt y then l else r)"
  define T' where "T' = (if kids_red T then flip T else T)"
  obtain c' U' S' where
    T': "\<exists>l' r'. T' = Nd q c' y l' r' \<and> U' = (if gt y then r' else l') \<and> S' = (if gt y then l' else r')"
    and c': "c' \<longleftrightarrow> kids_red T \<or> c"
    and kids: "\<not> (rd U' \<and> rd S')" and quietU: "kids_red T \<Longrightarrow> quiet U'"
    and len: "length (inorder U') < length (inorder T)"
  proof (cases "kids_red T")
    case True
    have "quiet (paint False U)"
      using True assms(3) by (auto simp: T U_def quiet_paint)
    with True show ?thesis
      by (intro that [of True "paint False U" "paint False S"]) (auto simp: T T'_def U_def S_def)
  next
    case False
    then show ?thesis
      by (intro that [of c U S]) (auto simp: T T'_def U_def S_def)
  qed
  have "\<exists>m' < m. ptrs gt ((q, c', y, gt y, S') # fs) U' (if g \<noteq> NULL then g else t) p q (gt y) dir m'"
    using assms(1)
  proof cases
    case (at_root c1 y1 s1)
    have "c' \<longrightarrow> quiet U'"
      using at_root c' quietU by (auto simp: T)
    then show ?thesis
      using at_root kids len assms(5) by (auto intro!: exI [of _ "length (inorder U')"] ptrs.below_root)
  next
    case (below_root c1 s1 y1 c2 y2 d2 s2)
    have "c' \<longrightarrow> quiet U' \<or> \<not> rd s1"
      using below_root c' quietU by (auto simp: T)
    then show ?thesis
      using below_root kids len by (auto intro!: exI [of _ "length (inorder U')"] ptrs.linked)
  next
    case (linked c1 s2 s1 y1 c2 y2 f3 fs')
    have "c' \<longrightarrow> quiet U' \<or> \<not> rd s1" and "g \<noteq> NULL"
      using linked c' quietU assms(4) by (auto simp: T)
    then show ?thesis
      using linked kids len by (auto intro!: exI [of _ "length (inorder U')"] ptrs.linked)
  next
    case (rotated c1 s1 y1 c2 y2 s2 fs')
    have "c' \<longrightarrow> quiet U' \<or> \<not> rd s1" and "g \<noteq> NULL"
      using rotated c' quietU assms(4) by (auto simp: T)
    then show ?thesis
      using rotated kids len by (auto intro!: exI [of _ "length (inorder U')"] ptrs.linked)
  next
    case (rotated_twice y' r' l' y1 s1 f2 fs' a)
    have k: "\<not> kids_red T" "c" "y' = y" "l' = l" "r' = r"
      using rotated_twice(2) assms(3) by (auto simp: T)
    have U': "U' = U" "quiet U'" "\<not> rd U'"
      using rotated_twice k T' by (auto simp: U_def T T'_def quiet_def)
    obtain g2 c2 y2 d2 s2 where f2: "f2 = (g2, c2, y2, d2, s2)"
      by (cases f2) auto
    show ?thesis
      using rotated_twice k U' len T' by (auto simp: U_def f2 intro!: exI [of _ "length (inorder U')"] ptrs.rotated)
  qed
  moreover obtain l' r' where
    "T' = Nd q c' y l' r'" "U' = (if gt y then r' else l')" "S' = (if gt y then l' else r')"
    using T' by blast
  ultimately have "descends gt fs T' t g p dir m"
    by (cases "gt y") simp_all
  then show ?thesis
    by (simp only: T'_def)
qed

text \<open>
  A red violation only arises with the helper pointers in place, below a black grandparent whose
  other subtree is black.
\<close>

lemma violation_linked:
  assumes "ptrs gt fs T t g p dir lst m" and "fs = (p1, True, y1, d1, s1) # f2 # gs"
    and "\<not> quiet T" and "headed fs z"
  shows "\<exists>c2 y2 s2 f3 fs'. fs = (p, True, y1, dir, s1) # (g, c2, y2, lst, s2) # (t, f3) # fs' \<and> \<not> rd s2 \<and>
     m = length (inorder T)"
  using assms(1)
proof cases
  case (rotated_twice y r l y1 s1 f2 fs a)
  then show ?thesis using assms by auto
qed (use assms in auto)

lemma shape_single:
  assumes "shape h ((p, True, yp, d, sp) # (g, cg, yg, d, sg) # (t, f3) # fs) T b" and "rd T"
  shows "\<exists>h'. rbinsert_fix h t g p (ad T) d = Some h' \<and>
    shape h' ((p, False, yp, d, nd g True yg d sp sg) # (t, f3) # fs) T b"
proof -
  obtain ct yt dt st where f3: "f3 = (ct, yt, dt, st)"
    by (cases f3) auto
  show ?thesis
    using fix_single [of h p yp d sp g cg yg sg t ct yt dt st fs T] assms
    by (auto simp: shape_def f3 distinct_nd tree_at_nd)
qed

lemma shape_double:
  assumes "shape h ((p, True, yp, \<not> d, sp) # (g, cg, yg, d, sg) # (t, f3) # fs) (nd q True y d u v) b"
  shows "\<exists>h'. rbinsert_fix h t g p q d = Some h' \<and>
    shape h' ((t, f3) # fs) (nd q False y d (nd p True yp d sp u) (nd g True yg d v sg)) b"
proof -
  obtain ct yt dt st where f3: "f3 = (ct, yt, dt, st)"
    by (cases f3) auto
  show ?thesis
    using fix_double [of h p yp d sp g cg yg sg t ct yt dt st fs q y u v] assms
    by (auto simp: shape_def f3 distinct_nd)
qed

text \<open>The repair: whatever the round did, the tree is balanced again and has the same items.\<close>

lemma repair_single:
  assumes "ctx_ok (butlast ((p, True, yp, d, sp) # (g, cg, yg, d, sg) # f3 # fs)) False (bh T)"
    and "\<not> rd sg" and "rbi T" and "rd T"
  shows "balanced ((p, False, yp, d, nd g True yg d sp sg) # f3 # fs) T"
  using assms by (auto simp: balanced_def rbi_nd bh_nd)

lemma repair_double:
  assumes "ctx_ok (butlast ((p, True, yp, e, sp) # (g, cg, yg, d, sg) # f3 # fs)) False n"
    and "\<not> rd sg" and "rbi (nd q True y d u v)" and "bh (nd q True y d u v) = n"
  shows "balanced (f3 # fs) (nd q False y d (nd p True yp d sp u) (nd g True yg d v sg))"
  using assms by (auto simp: balanced_def rbi_nd bh_nd)

lemma inorder_single:
  "inorder (plug ((p, c, yp, d, sp) # (g, c', yg, d, sg) # fs) T) =
   inorder (plug ((p, c2, yp, d, nd g c3 yg d sp sg) # fs) T)"
  by (simp add: inorder_plug nd_def)

lemma inorder_double:
  "inorder (plug ((p, c, yp, \<not> d, sp) # (g, c', yg, d, sg) # fs) (nd q cq y d u v)) =
   inorder (plug fs (nd q cq' y d (nd p c2 yp d sp u) (nd g c3 yg d v sg)))"
  by (simp add: inorder_plug nd_def)

lemma sided_single:
  "headed fs z \<Longrightarrow> sided key k ((p, c, yp, d, sp) # (g, c', yg, d, sg) # fs) =
   sided key k ((p, c2, yp, d, nd g c3 yg d sp sg) # fs)"
  by (frule headed_lefts) (auto simp: sided_def nd_def)

lemma sided_tl: "headed fs z \<Longrightarrow> sided key k (f # fs) \<Longrightarrow> sided key k fs"
  by (frule headed_lefts; cases f) (auto simp: sided_def split: if_splits)

lemma sided_dir:
  assumes "headed fs z" and "sided key k ((p, c, y, d, s) # fs)"
  shows "key y < k \<longleftrightarrow> d"
  using headed_lefts [OF assms(1)] assms(2) by (cases d) (force simp: sided_def)+

fun root_item :: "'a atree \<Rightarrow> 'a option" where
  "root_item Lf = None"
| "root_item (Nd a c x l r) = Some x"

lemma root_item_nd [simp]: "root_item (nd a c x d t s) = Some x"
  by (simp add: nd_def)

lemma rd_flip [simp]: "rd (flip T) \<longleftrightarrow> T \<noteq> Lf"
  by (cases T) auto

lemma ptrs_quiet:
  "quiet T \<Longrightarrow> length (inorder T) < m \<Longrightarrow>
   \<exists>m' < m. ptrs gt ((p, c1, y1, dir, s1) # (g, c2, y2, lst, s2) # fs) T t g p dir lst m'"
  using ptrs.rotated [of c1 T s1 gt p y1 dir g c2 y2 lst s2 fs t] by (auto simp: quiet_def)

lemma ptrs_twice_left:
  "quiet l \<Longrightarrow> \<not> gt y \<Longrightarrow> Suc (length (inorder l)) < m \<Longrightarrow>
   \<exists>m' < m. ptrs gt ((p, False, y1, dir, s1) # f2 # fs) (Nd a True y l r) t g p dir lst m'"
  using ptrs.rotated_twice [of gt y r l p y1 dir s1 f2 fs a t g lst] by auto

lemma ptrs_twice_right:
  "quiet r \<Longrightarrow> gt y \<Longrightarrow> Suc (length (inorder r)) < m \<Longrightarrow>
   \<exists>m' < m. ptrs gt ((p, False, y1, dir, s1) # f2 # fs) (Nd a True y l r) t g p dir lst m'"
  using ptrs.rotated_twice [of gt y r l p y1 dir s1 f2 fs a t g lst] by auto

lemma descends_single:
  assumes "kids_red T" and "rbi T" and "g \<noteq> NULL"
  shows "descends gt ((p, c, yp, d, s) # fs) (flip T) t g p d (length (inorder T))"
proof -
  obtain q e y l r where T: "T = Nd q e y l r"
    using assms(1) by (cases T) auto
  have "quiet (paint False l)" "quiet (paint False r)"
    using assms by (auto simp: T quiet_paint)
  then show ?thesis
    using assms
    by (cases "gt y") (simp_all add: T ptrs_quiet)
qed

lemma length_inorder_0: "length (inorder t) = 0 \<longleftrightarrow> t = Lf"
  by (cases t) auto

lemma descends_double:
  assumes "kids_red T" and "rbi T" and "flip T = nd q True y d u v" and "fs \<noteq> []"
    and "gt yp \<longleftrightarrow> \<not> d" and "gt yg \<longleftrightarrow> d"
  shows "descends gt fs (nd q False y d (nd p True yp d sp u) (nd g True yg d v sg)) t g p dir
     (length (inorder T))"
proof -
  obtain q' e y' l r where T: "T = Nd q' e y' l r"
    using assms(1) by (cases T) auto
  have uv: "u = paint False (if d then r else l)" "v = paint False (if d then l else r)"
    using assms(3) by (auto simp: T nd_def split: if_splits)
  have qu: "quiet u" "quiet v"
    using assms(1,2) by (auto simp: T uv quiet_paint)
  have len: "Suc (length (inorder u)) < length (inorder T)"
    "Suc (length (inorder v)) < length (inorder T)"
    using assms(1) length_inorder_0 [of l] length_inorder_0 [of r] by (auto simp: T uv)
  obtain f2 fs' where fs: "fs = f2 # fs'"
    using assms(4) by (cases fs) auto
  show ?thesis
    using assms(5,6) qu len
    by (cases d; cases "gt y") (simp_all add: nd_def fs ptrs_twice_left ptrs_twice_right)
qed

text \<open>The state of a round after the tree has been changed at its position.\<close>

definition changed :: "'a frame list \<Rightarrow> 'a atree \<Rightarrow> 'a atree \<Rightarrow> bool" where
  "changed fs T T' \<longleftrightarrow>
     T' = T \<and> \<not> kids_red T \<and> ctx_ok (butlast fs) (rd T) (bh T) \<or>
     T' = flip T \<and> kids_red T \<or>
     T = Lf \<and> (\<exists>a x. T' = Nd a True x Lf Lf)"

definition repaired ::
    "('a \<Rightarrow> int) \<Rightarrow> int \<Rightarrow> 'a frame list \<Rightarrow> 'a atree \<Rightarrow> 'a \<Rightarrow> addr \<Rightarrow> 'a list \<Rightarrow> 'a option \<Rightarrow>
     addr \<Rightarrow> 'a rbheap \<Rightarrow> bool" where
  "repaired key k fs T z q xs y b h \<longleftrightarrow>
     shape h fs T b \<and> balanced fs T \<and> headed fs z \<and> sided key k fs \<and> items fs T = xs \<and>
     ad T = q \<and> root_item T = y"

lemma fix_round_keep:
  assumes P: "ptrs (\<lambda>y. key y < k) fs T t g p dir lst m" and S: "shape h fs T' b"
    and H: "headed fs z" and R: "rbi T" "rbi T'" "ctx_ok (butlast fs) False (bh T')"
    and K: "sided key k fs" and C: "changed fs T T'"
    and V: "\<And>f fs'. fs = f # fs' \<Longrightarrow> fs' \<noteq> [] \<Longrightarrow> \<not> (rd T' \<and> fst (snd f))"
  shows "rbinsert_fix h t g p (ad T') lst = Some h \<and>
    repaired key k fs T' z (ad T') (items fs T') (root_item T') b h \<and>
    (T \<noteq> Lf \<longrightarrow> descends (\<lambda>y. key y < k) fs T' t g p dir m)"
proof -
  obtain a1 c1 y1 d1 s1 gs where fs: "fs = (a1, c1, y1, d1, s1) # gs"
    using H by (cases fs) (auto simp: headed_def)
  have p: "\<exists>rp. is_red h p = Some rp \<and> \<not> (rd T' \<and> rp)"
  proof (cases "gs = []")
    case True
    then have "p = NULL \<or> p = a1 \<and> \<not> c1"
      using P H fs by (auto elim: ptrs.cases)
    then show ?thesis
      using S by (auto simp: is_red_def fs shape_def)
  next
    case False
    then have "p = a1"
      using P fs by (auto elim: ptrs.cases)
    then show ?thesis
      using S V [OF fs False] by (auto simp: is_red_def fs shape_def)
  qed
  then have "rbinsert_fix h t g p (ad T') lst = Some h"
    using S by (auto simp: shape_def intro: fix_none)
  moreover have "ctx_ok (butlast fs) (rd T') (bh T')"
    using ctx_ok_quiet [OF R(3) fs] V [OF fs] by (cases "gs = []") auto
  moreover have "descends (\<lambda>y. key y < k) fs T' t g p dir m" if "T \<noteq> Lf"
  proof -
    have T': "T' = (if kids_red T then flip T else T)" and rT: "rd T' \<longleftrightarrow> kids_red T \<or> rd T"
      using C that by (auto simp: changed_def)
    show ?thesis
      unfolding T'
    proof (rule descends_keep [OF P that R(1) _ H])
      show "frames_at h fs (ad T')"
        using S by (simp add: shape_def)
    qed (use V rT in blast)
  qed
  ultimately show ?thesis
    using S H R K by (simp add: repaired_def balanced_def)
qed

lemma fix_round_rotate:
  assumes P: "ptrs (\<lambda>y. key y < k) fs T t g p dir lst m" and S: "shape h fs T' b"
    and H: "headed fs z" and R: "rbi T" "rbi T'" "ctx_ok (butlast fs) False (bh T')"
    and K: "sided key k fs" and C: "changed fs T T'"
    and V: "fs = (p1, True, y1, d1, s1) # gs" "gs \<noteq> []" "rd T'"
  shows "\<exists>h' fs2 T2. rbinsert_fix h t g p (ad T') lst = Some h' \<and>
    repaired key k fs2 T2 z (ad T') (items fs T') (root_item T') b h' \<and>
    (T \<noteq> Lf \<longrightarrow> descends (\<lambda>y. key y < k) fs2 T2 t g p dir m)"
proof -
  have nq: "\<not> quiet T" and fl: "T \<noteq> Lf \<Longrightarrow> kids_red T \<and> T' = flip T"
    using C V by (cases gs; auto simp: changed_def quiet_def)+
  obtain f2 gs' where gs: "gs = f2 # gs'"
    using V(2) by (cases gs) auto
  obtain c2 yg sg f3 fs' where fs: "fs = (p, True, y1, dir, s1) # (g, c2, yg, lst, sg) # (t, f3) # fs'"
    and sg: "\<not> rd sg" and m: "m = length (inorder T)"
    using violation_linked [OF P V(1) [unfolded gs] nq H] V(1) by auto
  have g: "g \<noteq> NULL"
    using S by (simp add: shape_def fs)
  have H3: "headed ((t, f3) # fs') z" and H2: "headed ((g, c2, yg, lst, sg) # (t, f3) # fs') z"
    using H by (simp_all add: fs)
  show ?thesis
  proof (cases "dir = lst")
    case True
    define fs2 where "fs2 = (p, False, y1, lst, nd g True yg lst s1 sg) # (t, f3) # fs'"
    obtain h' where h': "rbinsert_fix h t g p (ad T') lst = Some h'" "shape h' fs2 T' b"
      using shape_single [of h p y1 lst s1 g c2 yg sg t f3 fs' T' b] S V(3) True
      by (auto simp: fs fs2_def)
    have "balanced fs2 T'"
      unfolding fs2_def
      by (rule repair_single [where cg = c2]) (use R V(3) sg True in \<open>auto simp: fs\<close>)
    moreover have "sided key k fs2"
      using sided_single [OF H3, of key k p True y1 lst s1 g c2 yg sg False True] K True
      by (simp add: fs fs2_def)
    moreover have "items fs2 T' = items fs T'"
      using inorder_single [of p True y1 lst s1 g c2 yg sg "(t, f3) # fs'" T' False True] True
      by (simp add: items_def fs fs2_def)
    moreover have "descends (\<lambda>y. key y < k) fs2 T' t g p dir m" if "T \<noteq> Lf"
      using descends_single [of T g _ p False y1 lst "nd g True yg lst s1 sg" "(t, f3) # fs'" t]
        fl [OF that] R g True by (simp add: fs2_def m)
    ultimately show ?thesis
      using h' H3 by (intro exI [of _ h'] exI [of _ fs2] exI [of _ T']) (auto simp: repaired_def fs2_def)
  next
    case False
    then have dir: "dir = (\<not> lst)" by auto
    obtain q y u v where T': "T' = nd q True y lst u v"
      using nd_ex [of T' lst] V(3) by (metis rd.simps(1) rd_nd)
    define T2 where "T2 = nd q False y lst (nd p True y1 lst s1 u) (nd g True yg lst v sg)"
    obtain h' where h': "rbinsert_fix h t g p (ad T') lst = Some h'" "shape h' ((t, f3) # fs') T2 b"
      using shape_double [of h p y1 lst s1 g c2 yg sg t f3 fs' q y u v b] S
      by (auto simp: fs T' T2_def dir)
    have "balanced ((t, f3) # fs') T2"
      unfolding T2_def
      by (rule repair_double [where cg = c2 and e = dir and n = "bh T'"])
         (use R sg in \<open>auto simp: fs T'\<close>)
    moreover have K2: "sided key k ((g, c2, yg, lst, sg) # (t, f3) # fs')"
      using K sided_tl [OF H2] by (simp add: fs)
    moreover have "sided key k ((t, f3) # fs')"
      using K2 sided_tl [OF H3] by simp
    moreover have "items ((t, f3) # fs') T2 = items fs T'"
      using inorder_double [of p True y1 lst s1 g c2 yg sg "(t, f3) # fs'" q True y u v False True True]
      by (simp add: items_def fs T2_def T' dir)
    moreover have "descends (\<lambda>y. key y < k) ((t, f3) # fs') T2 t g p dir m" if "T \<noteq> Lf"
      unfolding T2_def m
      by (rule descends_double)
         (use fl [OF that] R T' sided_dir [OF H2, of key k p True y1 dir s1]
            sided_dir [OF H3 K2] K in \<open>auto simp: fs dir\<close>)
    ultimately show ?thesis
      using h' H3
      by (intro exI [of _ h'] exI [of _ "(t, f3) # fs'"] exI [of _ T2])
         (auto simp: repaired_def T2_def T')
  qed
qed

lemma fix_round:
  assumes P: "ptrs (\<lambda>y. key y < k) fs T t g p dir lst m" and S: "shape h fs T' b"
    and H: "headed fs z" and R: "rbi T" "rbi T'" "ctx_ok (butlast fs) False (bh T')"
    and K: "sided key k fs" and C: "changed fs T T'"
  shows "\<exists>h' fs2 T2. rbinsert_fix h t g p (ad T') lst = Some h' \<and>
    repaired key k fs2 T2 z (ad T') (items fs T') (root_item T') b h' \<and>
    (T \<noteq> Lf \<longrightarrow> descends (\<lambda>y. key y < k) fs2 T2 t g p dir m)"
proof (cases "\<exists>f fs'. fs = f # fs' \<and> fs' \<noteq> [] \<and> rd T' \<and> fst (snd f)")
  case True
  then obtain p1 y1 d1 s1 gs where "fs = (p1, True, y1, d1, s1) # gs" "gs \<noteq> []" "rd T'"
    by auto
  then show ?thesis
    by (rule fix_round_rotate [OF assms])
next
  case False
  then show ?thesis
    using fix_round_keep [OF assms] by blast
qed

end
