(* ===== verification/Rb_Insert_Correct.thy ===== *)
theory Rb_Insert_Correct
  imports Rb_Insert
begin

text \<open>
  \<^verbatim>\<open>jsw_rbinsert\<close> is correct: on a tree that satisfies the red-black invariants it returns, all its
  memory accesses are valid, the invariants hold again, and the items are the old ones with the new
  item at its place, or the old ones when an item with that key was there already.
\<close>

fun ins_item :: "('a \<Rightarrow> int) \<Rightarrow> 'a \<Rightarrow> 'a list \<Rightarrow> 'a list" where
  "ins_item key d [] = [d]"
| "ins_item key d (y # ys) =
     (if key y < key d then y # ins_item key d ys
      else if key y = key d then y # ys else d # y # ys)"

lemma ins_item_left: "\<forall>y \<in> set L. key y < key d \<Longrightarrow> ins_item key d (L @ R) = L @ ins_item key d R"
  by (induction L) auto

lemma ins_item_right: "\<forall>y \<in> set R. key d < key y \<Longrightarrow> ins_item key d R = d # R"
  by (cases R) auto

lemma ins_item_present: "sorted_items key xs \<Longrightarrow> key d \<in> key ` set xs \<Longrightarrow> ins_item key d xs = xs"
  by (induction xs) auto

lemma ins_item_absent:
  "sorted_items key xs \<Longrightarrow> key d \<notin> key ` set xs \<Longrightarrow>
   item_map key (ins_item key d xs) = (item_map key xs)(key d \<mapsto> d)"
  by (induction xs) auto

lemma ins_item_not_Nil: "ins_item key d xs \<noteq> []"
  by (cases xs) auto

lemma set_ins_item: "set (ins_item key d xs) \<subseteq> insert d (set xs)"
  by (induction xs) auto

lemma sorted_ins_item: "sorted_items key xs \<Longrightarrow> sorted_items key (ins_item key d xs)"
  using set_ins_item [of key d] by (induction xs) fastforce+

section \<open>The loop\<close>

lemma shape_descend:
  assumes "shape h fs (Nd q c y l r) b"
  shows "shape h ((q, c, y, d, if d then l else r) # fs) (if d then r else l) b"
  using assms by (cases d) (auto simp: shape_def lk_def)

lemma balanced_descend:
  assumes "balanced fs (Nd q c y l r)" and "fs \<noteq> []"
  shows "balanced ((q, c, y, d, if d then l else r) # fs) (if d then r else l)"
  using assms by (cases d) (auto simp: balanced_def)

lemma plug_descend:
  "plug ((q, c, y, d, if d then l else r) # fs) (if d then r else l) = plug fs (Nd q c y l r)"
  by (simp add: nd_def)

lemma items_descend:
  "items ((q, c, y, d, if d then l else r) # fs) (if d then r else l) = items fs (Nd q c y l r)"
  unfolding items_def plug_descend ..

lemma sided_descend:
  assumes "headed fs z" and "sided key k fs" and "sorted_items key (items fs (Nd q c y l r))"
    and "key y \<noteq> k"
  shows "sided key k ((q, c, y, key y < k, if key y < k then l else r) # fs)"
proof -
  obtain L where L: "lefts fs = z # L"
    using headed_lefts [OF assms(1)] by blast
  have o: "sorted_items key (L @ (inorder l @ y # inorder r) @ rights fs)"
    using assms(3) by (simp add: items_eq [OF assms(1)] L)
  have k: "\<forall>v \<in> set L. key v < k" "\<forall>v \<in> set (rights fs). k < key v"
    using assms(2) by (simp_all add: sided_def L)
  show ?thesis
  proof (cases "key y < k")
    case True
    then have "\<forall>v \<in> set (inorder l). key v < k"
      using o by (auto intro: less_trans)
    then show ?thesis
      using True k by (auto simp: sided_def L)
  next
    case False
    then have "k < key y"
      using assms(4) by simp
    moreover from this have "\<forall>v \<in> set (inorder r). k < key v"
      using o by (auto intro: less_trans)
    ultimately show ?thesis
      using False k by (auto simp: sided_def L)
  qed
qed

lemma shape_attach:
  assumes "shape h ((p, c, y, d, s) # fs) Lf b" and "NULL < b"
  shows "set_link (h(b \<mapsto> \<lparr>red = True, data = x, link = (\<lambda>_. NULL)\<rparr>)) p d b =
      Some (h(b \<mapsto> \<lparr>red = True, data = x, link = (\<lambda>_. NULL)\<rparr>, p \<mapsto> \<lparr>red = c, data = y, link = lk d b (ad s)\<rparr>)) \<and>
    shape (h(b \<mapsto> \<lparr>red = True, data = x, link = (\<lambda>_. NULL)\<rparr>, p \<mapsto> \<lparr>red = c, data = y, link = lk d b (ad s)\<rparr>))
      ((p, c, y, d, s) # fs) (Nd b True x Lf Lf) (Suc b)"
proof -
  have z: "(\<lambda>_. NULL) = lk False NULL NULL" by (auto simp: lk_def)
  have b: "b \<notin> set (addrs s)" "b \<notin> set (faddrs fs)" "b \<noteq> p" "p \<notin> set (addrs s)" "p \<notin> set (faddrs fs)"
    using assms(1) by (auto simp: shape_def)
  show ?thesis
    using assms b by (auto simp: shape_def less_Suc_eq z)
qed

lemma ptrs_first:
  assumes "ptrs gt fs Lf t g p dir lst m"
  shows "\<exists>c y s gs. fs = (p, c, y, dir, s) # gs"
  using assms by cases auto

definition inserts :: "('a \<Rightarrow> int) \<Rightarrow> 'a \<Rightarrow> 'a list \<Rightarrow> 'a \<Rightarrow> ('a rbheap \<times> addr \<times> bool) option \<Rightarrow> bool" where
  "inserts key d xs z res \<longleftrightarrow>
     (\<exists>h b fs T. res = Some (h, b, True) \<and> shape h fs T b \<and> balanced fs T \<and> headed fs z \<and>
        T \<noteq> Lf \<and> items fs T = ins_item key d xs)"

lemma repaired_inserts:
  assumes "repaired key k fs T z q (ins_item key d xs) (Some y) b h"
  shows "inserts key d xs z (Some (h, b, True))"
proof -
  have "T \<noteq> Lf"
    using assms by (auto simp: repaired_def)
  with assms show ?thesis
    by (auto simp: repaired_def inserts_def)
qed

context rb_item begin

lemma loop_leaf:
  assumes P: "ptrs (\<lambda>y. key y < key x) fs Lf t g p dir lst m" and S: "shape h fs Lf b"
    and B: "balanced fs Lf" and H: "headed fs z" and K: "sided key (key x) fs"
  shows "inserts key (dupf x) (items fs Lf) z
    (rbinsert_loop True cmpf dupf x h b t g p NULL dir lst)"
proof -
  let ?T = "Nd b True (dupf x) Lf Lf"
  obtain c y s gs where fs: "fs = (p, c, y, dir, s) # gs"
    using ptrs_first [OF P] by blast
  have b: "NULL < b"
    using S by (force simp: shape_def fs)
  define h1 where "h1 = h(b \<mapsto> \<lparr>red = True, data = dupf x, link = (\<lambda>_. NULL)\<rparr>,
    p \<mapsto> \<lparr>red = c, data = y, link = lk dir b (ad s)\<rparr>)"
  have at: "set_link (h(b \<mapsto> \<lparr>red = True, data = dupf x, link = (\<lambda>_. NULL)\<rparr>)) p dir b = Some h1"
    and S1: "shape h1 fs ?T (Suc b)"
    using shape_attach [of h p c y dir s gs b "dupf x"] S b by (auto simp: fs h1_def)
  have "ctx_ok (butlast fs) False (bh ?T)"
    using B by (simp add: balanced_def)
  then obtain h' fs2 T2 where fx: "rbinsert_fix h1 t g p b lst = Some h'"
    and rep: "repaired key (key x) fs2 T2 z b (items fs ?T) (Some (dupf x)) (Suc b) h'"
    using fix_round [OF P S1 H _ _ _ K] by (auto simp: changed_def)
  have "items fs ?T = ins_item key (dupf x) (items fs Lf)"
    using K by (simp add: items_eq [OF H] ins_item_left ins_item_right sided_def key_dup)
  then have "inserts key (dupf x) (items fs Lf) z (Some (h', Suc b, True))"
    using rep repaired_inserts by metis
  moreover obtain c2 l r where "T2 = Nd b c2 (dupf x) l r" "tree_at h' T2"
    using rep by (cases T2) (auto simp: repaired_def shape_def)
  ultimately show ?thesis
    using at fx b by (subst rbinsert_loop.simps) (simp add: new_node_def cmp_zero key_dup)
qed

lemma loop_correct:
  assumes "ptrs (\<lambda>y. key y < key x) fs T t g p dir lst m" and "shape h fs T b"
    and "balanced fs T" and "headed fs z" and "sided key (key x) fs"
    and "sorted_items key (items fs T)"
  shows "inserts key (dupf x) (items fs T) z
    (rbinsert_loop True cmpf dupf x h b t g p (ad T) dir lst)"
  using assms
proof (induction m arbitrary: fs T t g p dir lst h rule: less_induct)
  case (less m)
  note P = less.prems(1) and S = less.prems(2) and B = less.prems(3) and H = less.prems(4)
    and K = less.prems(5) and O = less.prems(6)
  show ?case
  proof (cases "T = Lf")
    case True
    then show ?thesis
      using loop_leaf P S B H K by simp
  next
    case False
    define T' where "T' = (if kids_red T then flip T else T)"
    have rT: "rbi T"
      using B by (simp add: balanced_def)
    have rT': "rbi T'" "ad T' = ad T" "inorder T' = inorder T"
      using rT flip_props [OF rT] by (simp_all add: T'_def)
    have nT': "T' \<noteq> Lf"
      using False by (cases T) (auto simp: T'_def)
    have q: "ad T \<noteq> NULL"
      using S False tree_at_ad_NULL [of h T] by (simp add: shape_def)
    obtain h1 where flip: "rbinsert_flip h (ad T) = Some h1" and S1: "shape h1 fs T' b"
      using rbinsert_flip_heap [of h T fs] S False flip_props [OF rT]
      by (auto simp: shape_def T'_def)
    have "ctx_ok (butlast fs) False (bh T')"
      using B flip_props [OF rT] ctx_ok_black [of "butlast fs" "bh T"]
      by (cases "rd T") (auto simp: balanced_def T'_def)
    moreover have "changed fs T T'"
      using B by (auto simp: balanced_def changed_def T'_def)
    ultimately obtain h' fs2 T2 where fx: "rbinsert_fix h1 t g p (ad T) lst = Some h'"
      and rep: "repaired key (key x) fs2 T2 z (ad T) (items fs T') (root_item T') b h'"
      and desc: "descends (\<lambda>y. key y < key x) fs2 T2 t g p dir m"
      using fix_round [OF P S1 H rT rT'(1) _ K] False rT'(2) by auto
    have it: "items fs T' = items fs T"
      using rT' by (simp add: items_eq [OF H])
    obtain c y l r where T2: "T2 = Nd (ad T) c y l r"
      using rep nT' by (cases T2; cases T') (auto simp: repaired_def)
    have S2: "shape h' fs2 T2 b" and B2: "balanced fs2 T2" and H2: "headed fs2 z"
      and K2: "sided key (key x) fs2" and I2: "items fs2 T2 = items fs T"
      using rep it by (auto simp: repaired_def)
    have n: "h' (ad T) = Some \<lparr>red = c, data = y, link = lk False (ad l) (ad r)\<rparr>"
      using S2 by (simp add: shape_def T2)
    have unfold: "rbinsert_loop True cmpf dupf x h b t g p (ad T) dir lst =
      (if key y = key x then Some (h', b, True)
       else rbinsert_loop True cmpf dupf x h' b (if g \<noteq> NULL then g else t) p (ad T)
              (ad (if key y < key x then r else l)) (key y < key x) dir)"
      using q flip fx n by (subst rbinsert_loop.simps) (simp add: cmp_zero cmp_less)
    show ?thesis
    proof (cases "key y = key x")
      case True
      have "y \<in> set (items fs T)"
        unfolding I2 [symmetric] T2 by (simp add: items_eq [OF H2])
      then have "ins_item key (dupf x) (items fs T) = items fs T"
        using True O by (intro ins_item_present) (auto simp: key_dup intro: rev_image_eqI)
      then show ?thesis
        using unfold True S2 B2 H2 I2 by (auto simp: inserts_def T2)
    next
      case False
      define d where "d = (key y < key x)"
      obtain m' where m': "m' < m" and P3: "ptrs (\<lambda>y. key y < key x)
          ((ad T, c, y, d, if d then l else r) # fs2) (if d then r else l)
          (if g \<noteq> NULL then g else t) p (ad T) d dir m'"
        using desc by (auto simp: T2 d_def)
      have "sided key (key x) ((ad T, c, y, d, if d then l else r) # fs2)"
        unfolding d_def
        by (rule sided_descend [OF H2 K2 _ False]) (use O I2 in \<open>simp add: T2\<close>)
      moreover have "fs2 \<noteq> []"
        using H2 by (auto simp: headed_def)
      ultimately have "inserts key (dupf x)
          (items ((ad T, c, y, d, if d then l else r) # fs2) (if d then r else l)) z
          (rbinsert_loop True cmpf dupf x h' b (if g \<noteq> NULL then g else t) p (ad T)
              (ad (if d then r else l)) d dir)"
        using S2 B2 H2 O I2
        by (intro less.IH [OF m' P3])
           (simp_all add: T2 items_descend shape_descend balanced_descend)
      then show ?thesis
        using unfold False I2 by (simp add: items_descend T2 d_def)
    qed
  qed
qed

section \<open>The operation\<close>

text \<open>A valid tree: its nodes form a red-black tree over sorted items, with no node left over.\<close>

definition rb_tree :: "'a jsw_rbtree \<Rightarrow> 'a atree \<Rightarrow> bool" where
  "rb_tree t T \<longleftrightarrow>
     cmp t = cmpf \<and> dup t = dupf \<and> root t = ad T \<and> tree_at (nodes t) T \<and> distinct (addrs T) \<and>
     (\<forall>a \<in> set (addrs T). a \<noteq> HEAD \<and> a < brk t) \<and> HEAD < brk t \<and>
     dom (nodes t) = set (addrs T) \<and> rbi T \<and> \<not> rd T \<and> sorted_items key (inorder T)"

lemma rb_tree_empty: "rb_tree (jsw_rbnew cmpf dupf) Lf"
  by (simp add: rb_tree_def jsw_rbnew_def)

lemma root_tree: "rb_tree t T \<Longrightarrow> root t = NULL \<longleftrightarrow> T = Lf"
  by (cases T) (auto simp: rb_tree_def)

lemma rb_tree_shape:
  assumes "rb_tree t T"
  shows "shape ((nodes t)(HEAD \<mapsto> \<lparr>red = False, data = x, link = (\<lambda>_. NULL)(True := root t)\<rparr>))
    [(HEAD, False, x, True, Lf)] T (brk t)"
proof -
  have "(\<lambda>_. NULL)(True := root t) = lk True (root t) NULL"
    by (auto simp: lk_def)
  moreover have "HEAD \<notin> set (addrs T)"
    using assms by (auto simp: rb_tree_def)
  ultimately show ?thesis
    using assms by (auto simp: rb_tree_def shape_def)
qed

text \<open>Taking the false root off again, with the root painted black.\<close>

lemma shape_headless:
  assumes S: "shape h fs U b" and H: "headed fs z" and B: "balanced fs U"
    and P: "T = paint False (plug (butlast fs) U)"
  shows "\<exists>h'. get_link h HEAD True = Some (ad T) \<and>
    (T \<noteq> Lf \<longrightarrow> set_red h (ad T) False = Some h') \<and> (T = Lf \<longrightarrow> h' = h) \<and>
    tree_at (h'(HEAD := None)) T \<and> distinct (addrs T) \<and>
    (\<forall>a \<in> set (addrs T). a < b \<and> a \<noteq> HEAD) \<and>
    dom (h'(HEAD := None)) = set (addrs T) \<and> rbi T \<and> \<not> rd T \<and> inorder T = items fs U"
proof -
  let ?R = "plug (butlast fs) U"
  have R: "plug fs U = Nd HEAD False z Lf ?R"
    by (rule headed_plug [OF H])
  have t: "tree_at h (plug fs U)" and d: "distinct (addrs (plug fs U))"
    and a: "\<forall>a \<in> set (addrs (plug fs U)). a < b" and dm: "dom h = set (addrs (plug fs U))"
    using S by (auto simp: shape_def tree_at_plug distinct_plug set_addrs_plug)
  have i: "inorder T = items fs U"
    by (simp add: P items_def R)
  have rb: "rbi ?R"
    using B by (simp add: balanced_def rbi_plug)
  show ?thesis
  proof (cases "?R")
    case Lf
    then show ?thesis
      using t d a dm i by (auto simp: R P)
  next
    case (Nd p c y l r)
    have "p \<notin> set (addrs l)" "p \<notin> set (addrs r)" "p \<noteq> HEAD"
      using d by (auto simp: R Nd)
    then show ?thesis
      using t d a dm i rb by (auto simp: R P Nd)
  qed
qed

theorem rbinsert_correct:
  assumes "rb_tree t T"
  shows "\<exists>t' T'. jsw_rbinsert True t x = Some (1, t') \<and> rb_tree t' T' \<and>
    inorder T' = ins_item key (dupf x) (inorder T) \<and> tsize t' = tsize t + 1"
proof (cases "T = Lf")
  case True
  have "(\<lambda>_. NULL) = lk False NULL NULL" by (auto simp: lk_def)
  then show ?thesis
    using assms
    by (intro exI [of _ "t\<lparr>root := brk t, tsize := tsize t + 1,
          nodes := (nodes t)(brk t \<mapsto> \<lparr>red = False, data = dupf x, link = (\<lambda>_. NULL)\<rparr>),
          brk := Suc (brk t)\<rparr>"] exI [of _ "Nd (brk t) False (dupf x) Lf Lf"])
       (auto simp: rb_tree_def True jsw_rbinsert_def new_node_def)
next
  case False
  define h0 where "h0 = (nodes t)(HEAD \<mapsto>
    \<lparr>red = False, data = x, link = (\<lambda>_. NULL)(True := root t)\<rparr>)"
  define fs where "fs = [(HEAD, False, x, True, Lf :: 'a atree)]"
  have F: "rbi T" "\<not> rd T" "sorted_items key (inorder T)" "root t = ad T" "cmp t = cmpf"
    "dup t = dupf" "2 < brk t"
    using assms by (auto simp: rb_tree_def)
  have S: "shape h0 fs T (brk t)"
    unfolding h0_def fs_def by (rule rb_tree_shape [OF assms])
  have H: "headed fs x" and I: "items fs T = inorder T" and B: "balanced fs T"
    and K: "sided key (key x) fs"
    using F by (simp_all add: fs_def items_def nd_def balanced_def sided_def)
  have "ptrs (\<lambda>y. key y < key x) fs T HEAD NULL NULL False False (length (inorder T))"
    unfolding fs_def by (rule ptrs.at_root [OF False F(2)])
  then have "inserts key (dupf x) (inorder T) x
      (rbinsert_loop True cmpf dupf x h0 (brk t) HEAD NULL NULL (ad T) False False)"
    using loop_correct [OF _ S B H K] F(3) by (simp add: I)
  then obtain h b gs U where L: "rbinsert_loop True cmpf dupf x h0 (brk t) HEAD NULL NULL (ad T)
      False False = Some (h, b, True)" and S2: "shape h gs U b" and B2: "balanced gs U"
    and H2: "headed gs x" and I2: "items gs U = ins_item key (dupf x) (inorder T)"
    by (auto simp: inserts_def)
  define R where "R = paint False (plug (butlast gs) U)"
  obtain h' where h': "get_link h HEAD True = Some (ad R)" "R \<noteq> Lf \<Longrightarrow> set_red h (ad R) False = Some h'"
    "tree_at (h'(HEAD := None)) R" "distinct (addrs R)" "\<forall>a \<in> set (addrs R). a < b \<and> a \<noteq> HEAD"
    "dom (h'(HEAD := None)) = set (addrs R)" "rbi R" "\<not> rd R" "inorder R = items gs U"
    using shape_headless [OF S2 H2 B2 R_def] by blast
  have "HEAD \<in> set (addrs (plug gs U))"
    by (simp add: headed_plug [OF H2])
  then have b: "HEAD < b"
    using S2 by (auto simp: shape_def set_addrs_plug)
  have R: "R \<noteq> Lf"
    using h'(9) I2 ins_item_not_Nil [of key "dupf x" "inorder T"] by (cases R) auto
  have "jsw_rbinsert True t x = Some (1, t\<lparr>root := ad R, tsize := tsize t + 1,
      nodes := h'(HEAD := None), brk := b\<rparr>)"
    using False F(4-6) h'(1) h'(2) [OF R] L root_tree [OF assms]
    by (simp add: jsw_rbinsert_def h0_def)
  then show ?thesis
    using F h' I2 b sorted_ins_item [OF F(3), of "dupf x"]
    by (auto simp: rb_tree_def intro!: exI [of _ R])
qed

end

end
