(* ===== verification/Rb_Push.thy ===== *)
theory Rb_Push
  imports Rb_Insert_Correct
begin

text \<open>
  The loop of \<^verbatim>\<open>jsw_rberase\<close> pushes a red node down to where the item is removed: the rotations and
  the colour flip on the heap, and the invariant of the loop, kept by every round.
\<close>

section \<open>Pushing down: the rotations on the heap\<close>

lemma shapeI:
  assumes "shape h fs T b" and "frames_at h' fs' (ad T')" and "tree_at h' T'"
    and "distinct (addrs T' @ faddrs fs')"
    and "set (addrs T' @ faddrs fs') = set (addrs T @ faddrs fs)" and "dom h' = dom h"
  shows "shape h' fs' T' b"
  using assms unfolding shape_def by presburger

lemma push_turn_heap:
  assumes "shape h ((a, False, y, d, nd n True yn (\<not> d) nu nv) # (p, cp, yp, e, S) # fs) V b"
    and "\<not> rd V"
  shows "\<exists>h'. rberase_push h g p a d e = Some (h', n) \<and>
    shape h' ((a, True, y, d, nv) # (n, False, yn, d, nu) # (p, cp, yp, e, S) # fs) V b"
proof -
  have N: "tree_at h V" "h a = Some \<lparr>red = False, data = y, link = lk (\<not> d) n (ad V)\<rparr>"
    "h n = Some \<lparr>red = True, data = yn, link = lk (\<not> d) (ad nu) (ad nv)\<rparr>" "a \<noteq> NULL" "n \<noteq> NULL"
    using assms(1) by (auto simp: shape_def tree_at_nd lk_flip)
  have D: "distinct [a, n, p]" "n \<notin> set (addrs V)"
    using assms(1) by (auto simp: shape_def)
  have s: "jsw_single h a d =
    Some (h(a \<mapsto> \<lparr>red = True, data = y, link = lk (\<not> d) (ad nv) (ad V)\<rparr>,
            n \<mapsto> \<lparr>red = False, data = yn, link = lk (\<not> d) (ad nu) a\<rparr>), n)"
    using jsw_single_heap [of a n h False y "\<not> d" "ad V" True yn "ad nu" "ad nv"] N D by auto
  have P: "h p = Some \<lparr>red = cp, data = yp, link = lk e a (ad S)\<rparr>"
    using assms(1) by (simp add: shape_def)
  have r: "is_red h a = Some False" "is_red h n = Some True" "is_red h (ad V) = Some False"
    using N(2-) is_red_tree [OF N(1)] assms(2) by (simp_all add: is_red_def)
  define h' where "h' = h(a \<mapsto> \<lparr>red = True, data = y, link = lk (\<not> d) (ad nv) (ad V)\<rparr>,
            n \<mapsto> \<lparr>red = False, data = yn, link = lk (\<not> d) (ad nu) a\<rparr>,
            p \<mapsto> \<lparr>red = cp, data = yp, link = lk e n (ad S)\<rparr>)"
  have "rberase_push h g p a d e = Some (h', n)"
    using s r N(2) D P by (simp add: rberase_push_def h'_def)
  moreover have "shape h' ((a, True, y, d, nv) # (n, False, yn, d, nu) # (p, cp, yp, e, S) # fs) V b"
  proof (rule shapeI [OF assms(1)])
    show "distinct (addrs V @ faddrs ((a, True, y, d, nv) # (n, False, yn, d, nu) # (p, cp, yp, e, S) # fs))"
      using assms(1) by (auto simp: shape_def distinct_nd)
    show "dom h' = dom h"
      using N P by (auto simp: h'_def)
    show "tree_at h' V"
      using assms(1) by (simp add: shape_def h'_def)
    show "frames_at h' ((a, True, y, d, nv) # (n, False, yn, d, nu) # (p, cp, yp, e, S) # fs) (ad V)"
      using assms(1) by (auto simp: shape_def h'_def tree_at_nd lk_flip distinct_nd)
  qed auto
  ultimately show ?thesis by blast
qed

text \<open>The current node and both its children are black: the sibling decides.\<close>

lemma push_sibling:
  assumes S: "shape h ((a, False, y, d, o1) # (p, cp, yp, e, S) # fs) V b"
    and "\<not> rd V" "\<not> rd o1" and S': "S = nd s cs ys e sb sa"
  shows "rberase_push h g p a d e =
    (if \<not> rd sa \<and> \<not> rd sb
     then do { h \<leftarrow> set_red h p False; h \<leftarrow> set_red h s True; h \<leftarrow> set_red h a True; Some (h, p) }
     else do { h \<leftarrow> rberase_rotate h g p a e (rd sa) (rd sb); Some (h, p) })"
proof -
  have N: "tree_at h V" "tree_at h o1" "h a = Some \<lparr>red = False, data = y, link = lk d (ad V) (ad o1)\<rparr>"
    "h p = Some \<lparr>red = cp, data = yp, link = lk e a s\<rparr>" "a \<noteq> NULL" "s \<noteq> NULL"
    "h s = Some \<lparr>red = cs, data = ys, link = lk e (ad sb) (ad sa)\<rparr>" "tree_at h sa" "tree_at h sb"
    using S by (auto simp: shape_def S' tree_at_nd)
  have r: "is_red h a = Some False" "is_red h (ad V) = Some False" "is_red h (ad o1) = Some False"
    "is_red h (ad sa) = Some (rd sa)" "is_red h (ad sb) = Some (rd sb)"
    using N(3-) is_red_tree [OF N(1)] is_red_tree [OF N(2)] is_red_tree [OF N(8)]
      is_red_tree [OF N(9)] assms(2,3) by (simp_all add: is_red_def)
  show ?thesis
    using r N(3-7) by (simp add: rberase_push_def)
qed

lemma push_flip_heap:
  assumes S: "shape h ((a, False, y, d, o1) # (p, cp, yp, e, S) # fs) V b"
    and "\<not> rd V" "\<not> rd o1" and S': "S = nd s cs ys e sb sa" and "\<not> rd sa" "\<not> rd sb"
  shows "\<exists>h'. rberase_push h g p a d e = Some (h', p) \<and>
    shape h' ((a, True, y, d, o1) # (p, False, yp, e, nd s True ys e sb sa) # fs) V b"
proof -
  have N: "h a = Some \<lparr>red = False, data = y, link = lk d (ad V) (ad o1)\<rparr>"
    "h p = Some \<lparr>red = cp, data = yp, link = lk e a s\<rparr>" 
    "h s = Some \<lparr>red = cs, data = ys, link = lk e (ad sb) (ad sa)\<rparr>" "distinct [a, p, s]"
    using S by (auto simp: shape_def S' tree_at_nd)
  define h' where "h' = h(p \<mapsto> \<lparr>red = False, data = yp, link = lk e a s\<rparr>,
    s \<mapsto> \<lparr>red = True, data = ys, link = lk e (ad sb) (ad sa)\<rparr>,
    a \<mapsto> \<lparr>red = True, data = y, link = lk d (ad V) (ad o1)\<rparr>)"
  have "rberase_push h g p a d e = Some (h', p)"
    using N assms(5,6) by (simp add: push_sibling [OF assms(1-4)] h'_def)
  moreover have "shape h' ((a, True, y, d, o1) # (p, False, yp, e, nd s True ys e sb sa) # fs) V b"
  proof (rule shapeI [OF S])
    show "distinct (addrs V @ faddrs ((a, True, y, d, o1) # (p, False, yp, e, nd s True ys e sb sa) # fs))"
      using S by (auto simp: shape_def distinct_nd S')
    show "dom h' = dom h"
      using N by (auto simp: h'_def)
    show "tree_at h' V"
      using S by (simp add: shape_def h'_def S')
    show "frames_at h' ((a, True, y, d, o1) # (p, False, yp, e, nd s True ys e sb sa) # fs) (ad V)"
      using S by (auto simp: shape_def h'_def tree_at_nd distinct_nd S')
  qed (auto simp: S')
  ultimately show ?thesis by blast
qed

lemma rberase_colour_heap:
  assumes "distinct [y, q, u, v]"
    and "h y = Some \<lparr>red = cy, data = xy, link = lk e u v\<rparr>" and "h q = Some \<lparr>red = cq, data = xq, link = lq\<rparr>"
    and "h u = Some \<lparr>red = cu, data = xu, link = lu\<rparr>" and "h v = Some \<lparr>red = cv, data = xv, link = lv\<rparr>"
  shows "rberase_colour h y q =
    Some (h(y \<mapsto> \<lparr>red = True, data = xy, link = lk e u v\<rparr>, q \<mapsto> \<lparr>red = True, data = xq, link = lq\<rparr>,
            u \<mapsto> \<lparr>red = False, data = xu, link = lu\<rparr>, v \<mapsto> \<lparr>red = False, data = xv, link = lv\<rparr>))"
proof -
  have tw: "h0(v \<mapsto> x, u \<mapsto> w) = h0(u \<mapsto> w, v \<mapsto> x)" for h0 :: "'a rbheap" and x w
    using assms(1) by (simp add: fun_upd_twist)
  show ?thesis
    using assms by (cases e) (simp_all add: rberase_colour_def tw)
qed

lemma rberase_rotate_heap:
  assumes "jsw_single h p e = Some (h1, s)" and "\<not> rb \<and> ra" and "g \<notin> {p, s}"
     and "h g = Some \<lparr>red = cg, data = yg, link = lk dg p b\<rparr>" and "p \<noteq> b"
     and "h1 g = h g"
  shows "rberase_rotate h g p a e ra rb =
    rberase_colour (h1(g \<mapsto> \<lparr>red = cg, data = yg, link = lk dg s b\<rparr>)) s a"
  using assms by (cases dg) (simp_all add: rberase_rotate_def)

lemma rberase_rotate_heap2:
  assumes "jsw_double h p e = Some (h1, s)" and "rb" and "g \<notin> {p, s}"
     and "h g = Some \<lparr>red = cg, data = yg, link = lk dg p b\<rparr>" and "p \<noteq> b"
     and "h1 g = h g"
  shows "rberase_rotate h g p a e ra rb =
    rberase_colour (h1(g \<mapsto> \<lparr>red = cg, data = yg, link = lk dg s b\<rparr>)) s a"
  using assms by (cases dg) (simp_all add: rberase_rotate_def)

lemma push_single_heap:
  assumes S: "shape h ((a, False, y, d, o1) # (p, cp, yp, e, S) # (g, cg, yg, dg, Sg) # fs) V b"
    and "\<not> rd V" "\<not> rd o1" and S': "S = nd s cs ys e sb sa" and "rd sa" "\<not> rd sb"
  shows "\<exists>h'. rberase_push h g p a d e = Some (h', p) \<and>
    shape h' ((a, True, y, d, o1) # (p, False, yp, e, sb) # (s, True, ys, e, paint False sa) #
      (g, cg, yg, dg, Sg) # fs) V b"
proof -
  obtain n yn l r where sa: "sa = Nd n True yn l r"
    using assms(5) by (cases sa) auto
  have N: "h a = Some \<lparr>red = False, data = y, link = lk d (ad V) (ad o1)\<rparr>"
    "h p = Some \<lparr>red = cp, data = yp, link = lk (\<not> e) s a\<rparr>"
    "h s = Some \<lparr>red = cs, data = ys, link = lk (\<not> e) n (ad sb)\<rparr>"
    "h n = Some \<lparr>red = True, data = yn, link = lk False (ad l) (ad r)\<rparr>" "tree_at h Sg"
    "h g = Some \<lparr>red = cg, data = yg, link = lk dg p (ad Sg)\<rparr>" "p \<noteq> NULL"
    using S unfolding shape_def by (simp_all add: S' sa tree_at_nd lk_flip)
  have D: "distinct [a, p, s, n, g]" "p \<notin> set (addrs Sg)"
    using S unfolding shape_def by (simp_all add: S' sa distinct_nd, (elim conjE, simp)?)
  have g: "p \<noteq> ad Sg"
    by (rule ad_fresh [OF N(5) D(2) N(7)])
  have s: "jsw_single h p e =
    Some (h(p \<mapsto> \<lparr>red = True, data = yp, link = lk (\<not> e) (ad sb) a\<rparr>,
            s \<mapsto> \<lparr>red = False, data = ys, link = lk (\<not> e) n p\<rparr>), s)"
    using jsw_single_heap [of p s h cp yp "\<not> e" a cs ys n "ad sb"] N D by auto
  define h1 where "h1 = h(p \<mapsto> \<lparr>red = True, data = yp, link = lk (\<not> e) (ad sb) a\<rparr>,
            s \<mapsto> \<lparr>red = False, data = ys, link = lk (\<not> e) n p\<rparr>)"
  define h2 where "h2 = h1(g \<mapsto> \<lparr>red = cg, data = yg, link = lk dg s (ad Sg)\<rparr>)"
  define h' where "h' = h2(s \<mapsto> \<lparr>red = True, data = ys, link = lk (\<not> e) n p\<rparr>,
    a \<mapsto> \<lparr>red = True, data = y, link = lk d (ad V) (ad o1)\<rparr>,
    n \<mapsto> \<lparr>red = False, data = yn, link = lk False (ad l) (ad r)\<rparr>,
    p \<mapsto> \<lparr>red = False, data = yp, link = lk (\<not> e) (ad sb) a\<rparr>)"
  have "rberase_rotate h g p a e True False = rberase_colour h2 s a"
    using N D g s unfolding h2_def h1_def by (intro rberase_rotate_heap) auto
  moreover have "rberase_colour h2 s a = Some h'"
    unfolding h'_def by (rule rberase_colour_heap) (use N D in \<open>auto simp: h2_def h1_def\<close>)
  ultimately have "rberase_rotate h g p a e True False = Some h'" by simp
  then have "rberase_push h g p a d e = Some (h', p)"
    using assms(5,6) by (simp add: push_sibling [OF assms(1-4)])
  moreover have "shape h' ((a, True, y, d, o1) # (p, False, yp, e, sb) # (s, True, ys, e, paint False sa) #
      (g, cg, yg, dg, Sg) # fs) V b"
  proof (rule shapeI [OF S])
    show "distinct (addrs V @ faddrs ((a, True, y, d, o1) # (p, False, yp, e, sb) #
        (s, True, ys, e, paint False sa) # (g, cg, yg, dg, Sg) # fs))"
      using S unfolding shape_def
      by (simp add: distinct_nd S' Int_Un_distrib Int_Un_distrib2 Int_commute)
    show "dom h' = dom h"
      using N by (auto simp: h'_def h2_def h1_def)
    show "tree_at h' V"
      using S by (simp add: shape_def h'_def h2_def h1_def S' sa)
    show "frames_at h' ((a, True, y, d, o1) # (p, False, yp, e, sb) #
        (s, True, ys, e, paint False sa) # (g, cg, yg, dg, Sg) # fs) (ad V)"
      using S by (auto simp: shape_def h'_def h2_def h1_def tree_at_nd distinct_nd lk_flip S' sa)
  qed (auto simp: S')
  ultimately show ?thesis by blast
qed

lemma push_double_heap:
  assumes S: "shape h ((a, False, y, d, o1) # (p, cp, yp, e, S) # (g, cg, yg, dg, Sg) # fs) V b"
    and "\<not> rd V" "\<not> rd o1" and S': "S = nd s cs ys e sb sa" and sb: "sb = nd m True ym e b1 b2"
  shows "\<exists>h'. rberase_push h g p a d e = Some (h', p) \<and>
    shape h' ((a, True, y, d, o1) # (p, False, yp, e, b1) # (m, True, ym, e, nd s False ys e b2 sa) #
      (g, cg, yg, dg, Sg) # fs) V b"
proof -
  have N: "h a = Some \<lparr>red = False, data = y, link = lk d (ad V) (ad o1)\<rparr>"
    "h p = Some \<lparr>red = cp, data = yp, link = lk (\<not> e) s a\<rparr>"
    "h s = Some \<lparr>red = cs, data = ys, link = lk (\<not> e) (ad sa) m\<rparr>"
    "h m = Some \<lparr>red = True, data = ym, link = lk (\<not> e) (ad b2) (ad b1)\<rparr>" "tree_at h Sg"
    "h g = Some \<lparr>red = cg, data = yg, link = lk dg p (ad Sg)\<rparr>" "p \<noteq> NULL" "s \<noteq> NULL"
    using S unfolding shape_def by (simp_all add: S' sb tree_at_nd lk_flip)
  have D: "distinct [a, p, s, m, g]" "p \<notin> set (addrs Sg)"
    using S unfolding shape_def by (simp_all add: S' sb distinct_nd, (elim conjE, simp)?)
  have g: "p \<noteq> ad Sg"
    by (rule ad_fresh [OF N(5) D(2) N(7)])
  have s: "jsw_double h p e =
    Some (h(s \<mapsto> \<lparr>red = True, data = ys, link = lk (\<not> e) (ad sa) (ad b2)\<rparr>,
            p \<mapsto> \<lparr>red = True, data = yp, link = lk (\<not> e) (ad b1) a\<rparr>,
            m \<mapsto> \<lparr>red = False, data = ym, link = lk (\<not> e) s p\<rparr>), m)"
    using jsw_double_heap [of p s m h cp yp "\<not> e" a cs ys "ad sa" True ym "ad b2" "ad b1"] N D by auto
  define h1 where "h1 = h(s \<mapsto> \<lparr>red = True, data = ys, link = lk (\<not> e) (ad sa) (ad b2)\<rparr>,
            p \<mapsto> \<lparr>red = True, data = yp, link = lk (\<not> e) (ad b1) a\<rparr>,
            m \<mapsto> \<lparr>red = False, data = ym, link = lk (\<not> e) s p\<rparr>)"
  define h2 where "h2 = h1(g \<mapsto> \<lparr>red = cg, data = yg, link = lk dg m (ad Sg)\<rparr>)"
  define h' where "h' = h2(m \<mapsto> \<lparr>red = True, data = ym, link = lk (\<not> e) s p\<rparr>,
    a \<mapsto> \<lparr>red = True, data = y, link = lk d (ad V) (ad o1)\<rparr>,
    s \<mapsto> \<lparr>red = False, data = ys, link = lk (\<not> e) (ad sa) (ad b2)\<rparr>,
    p \<mapsto> \<lparr>red = False, data = yp, link = lk (\<not> e) (ad b1) a\<rparr>)"
  have r: "rberase_rotate h g p a e ra True = rberase_colour h2 m a" for ra
    using N D g s unfolding h2_def h1_def by (intro rberase_rotate_heap2) auto
  moreover have "rberase_colour h2 m a = Some h'"
    unfolding h'_def by (rule rberase_colour_heap) (use N D in \<open>auto simp: h2_def h1_def\<close>)
  ultimately have "rberase_rotate h g p a e ra True = Some h'" for ra by simp
  then have "rberase_push h g p a d e = Some (h', p)"
    using sb by (simp add: push_sibling [OF assms(1-4)])
  moreover have "shape h' ((a, True, y, d, o1) # (p, False, yp, e, b1) #
      (m, True, ym, e, nd s False ys e b2 sa) # (g, cg, yg, dg, Sg) # fs) V b"
  proof (rule shapeI [OF S])
    show "distinct (addrs V @ faddrs ((a, True, y, d, o1) # (p, False, yp, e, b1) #
        (m, True, ym, e, nd s False ys e b2 sa) # (g, cg, yg, dg, Sg) # fs))"
      using S unfolding shape_def
      by (simp add: distinct_nd S' sb Int_Un_distrib Int_Un_distrib2) (elim conjE, simp add: Int_commute)
    show "dom h' = dom h"
      using N by (auto simp: h'_def h2_def h1_def)
    show "tree_at h' V"
      using S by (simp add: shape_def h'_def h2_def h1_def S' sb)
    show "frames_at h' ((a, True, y, d, o1) # (p, False, yp, e, b1) #
        (m, True, ym, e, nd s False ys e b2 sa) # (g, cg, yg, dg, Sg) # fs) (ad V)"
      using S by (auto simp: shape_def h'_def h2_def h1_def tree_at_nd distinct_nd lk_flip S' sb)
  qed (auto simp: S' sb)
  ultimately show ?thesis by blast
qed

section \<open>Pushing down: the invariant\<close>

text \<open>
  At the head of the loop the current node is red, or the node below it in the direction of the
  search is, or the current node is the false root or a root without a red child.
\<close>

fun parent :: "'a frame list \<Rightarrow> addr" where
  "parent [] = NULL"
| "parent (f # fs) = fst f"

fun deletable :: "'a frame list \<Rightarrow> 'a atree \<Rightarrow> bool" where
  "deletable [] U = False"
| "deletable ((q, c, y, d, s) # gs) U \<longleftrightarrow> gs = [] \<or> c \<or> rd U \<or> tl gs = [] \<and> \<not> rd s"

text \<open>The node the path left last to the left: its item is the next one in order.\<close>

fun succ_addr :: "'a frame list \<Rightarrow> addr" where
  "succ_addr [] = NULL"
| "succ_addr ((a, c, y, d, s) # fs) = (if d then succ_addr fs else a)"

definition same_path :: "'a frame list \<Rightarrow> 'a frame list \<Rightarrow> bool" where
  "same_path fs gs \<longleftrightarrow> lefts gs = lefts fs \<and> rights gs = rights fs \<and> succ_addr gs = succ_addr fs"

definition pushed ::
    "'a frame list \<Rightarrow> 'a atree \<Rightarrow> addr \<Rightarrow> 'a \<Rightarrow> addr \<Rightarrow> bool \<Rightarrow> ('a rbheap \<times> addr) option \<Rightarrow> bool" where
  "pushed fs V b z a d res \<longleftrightarrow>
     (\<exists>h c y s gs. res = Some (h, parent gs) \<and> shape h ((a, c, y, d, s) # gs) V b \<and>
        balanced ((a, c, y, d, s) # gs) V \<and> headed gs z \<and> deletable ((a, c, y, d, s) # gs) V \<and>
        same_path fs ((a, c, y, d, s) # gs))"

lemma pushedI:
  assumes "res = Some (h, parent gs)" and "shape h ((a, c, y, d, s) # gs) V b"
    and "balanced ((a, c, y, d, s) # gs) V" and "headed gs z"
    and "deletable ((a, c, y, d, s) # gs) V" and "same_path fs ((a, c, y, d, s) # gs)"
  shows "pushed fs V b z a d res"
  using assms unfolding pushed_def by blast

lemma push_keep:
  assumes S: "shape h ((a, c, y, d, o1) # (p, cp, yp, e, S) # fs) V b"
    and B: "balanced ((p, cp, yp, e, S) # fs) (nd a c y d V o1)"
    and H: "headed ((p, cp, yp, e, S) # fs) z" and C: "c \<or> rd V \<or> fs = [] \<and> \<not> rd o1"
  shows "pushed ((a, c, y, d, o1) # (p, cp, yp, e, S) # fs) V b z a d (rberase_push h g p a d e)"
proof (rule pushedI [OF _ S _ H])
  have N: "tree_at h V" "tree_at h o1" "h a = Some \<lparr>red = c, data = y, link = lk d (ad V) (ad o1)\<rparr>"
    "h p = Some \<lparr>red = cp, data = yp, link = lk e a (ad S)\<rparr>" "a \<noteq> NULL"
    using S by (auto simp: shape_def)
  have "fs = [] \<Longrightarrow> ad S = NULL"
    using H by simp
  then have "rberase_push h g p a d e = Some (h, p)"
    using N(3-) is_red_tree [OF N(1)] is_red_tree [OF N(2)] C
    by (cases "c \<or> rd V") (auto simp: rberase_push_def is_red_def)
  then show "rberase_push h g p a d e = Some (h, parent ((p, cp, yp, e, S) # fs))"
    by simp
  show "balanced ((a, c, y, d, o1) # (p, cp, yp, e, S) # fs) V"
    using B by (auto simp: balanced_def rbi_nd bh_nd split: if_splits)
  show "deletable ((a, c, y, d, o1) # (p, cp, yp, e, S) # fs) V"
    using C by auto
qed (simp add: same_path_def)

lemma push_turn:
  assumes S: "shape h ((a, False, y, d, o1) # (p, cp, yp, e, S) # fs) V b"
    and B: "balanced ((p, cp, yp, e, S) # fs) (nd a False y d V o1)"
    and H: "headed ((p, cp, yp, e, S) # fs) z" and C: "\<not> rd V" "rd o1"
  shows "pushed ((a, False, y, d, o1) # (p, cp, yp, e, S) # fs) V b z a d (rberase_push h g p a d e)"
proof -
  obtain n yn nu nv where o1: "o1 = nd n True yn (\<not> d) nu nv"
    using nd_ex [of o1 "\<not> d"] C(2) by (metis rd.simps(1) rd_nd)
  obtain h' where h': "rberase_push h g p a d e = Some (h', n)"
    "shape h' ((a, True, y, d, nv) # (n, False, yn, d, nu) # (p, cp, yp, e, S) # fs) V b"
    using push_turn_heap [OF S [unfolded o1] C(1)] by blast
  show ?thesis
  proof (rule pushedI [OF _ h'(2)])
    show "rberase_push h g p a d e = Some (h', parent ((n, False, yn, d, nu) # (p, cp, yp, e, S) # fs))"
      using h' by simp
    show "balanced ((a, True, y, d, nv) # (n, False, yn, d, nu) # (p, cp, yp, e, S) # fs) V"
      using B C by (auto simp: balanced_def rbi_nd bh_nd o1)
    show "same_path ((a, False, y, d, o1) # (p, cp, yp, e, S) # fs)
        ((a, True, y, d, nv) # (n, False, yn, d, nu) # (p, cp, yp, e, S) # fs)"
      by (auto simp: same_path_def o1 nd_def)
  qed (use H in simp_all)
qed

text \<open>Below the root and with black children, the current node has a black sibling with a node.\<close>

lemma black_sibling:
  assumes B: "balanced ((p, cp, yp, e, S) # f # fs) (nd a False y d V o1)"
    and D: "deletable ((p, cp, yp, e, S) # f # fs) (nd a False y d V o1)"
  shows "\<exists>s ys sb sa. S = nd s False ys e sb sa \<and> rbi S \<and> bh sb = bh V \<and> bh sa = bh V \<and>
    (\<forall>c. ctx_ok (butlast (f # fs)) c (Suc (bh V))) \<and> bh o1 = bh V \<and> rbi V \<and> rbi o1"
proof -
  have F: "rbi S" "bh S = Suc (bh V)" "cp \<longrightarrow> \<not> rd S" "bh o1 = bh V" "rbi V" "rbi o1"
    "ctx_ok (butlast (f # fs)) cp (if cp then Suc (bh V) else Suc (Suc (bh V)))"
    using B by (auto simp: balanced_def rbi_nd bh_nd)
  have "S \<noteq> Lf"
    using F(2) by auto
  then obtain s cs ys sb sa where S: "S = nd s cs ys e sb sa"
    using nd_ex [of S e] by blast
  have "\<not> rd S"
    using D F(3) by auto
  moreover have "ctx_ok (butlast (f # fs)) c (Suc (bh V))" for c
    using D F(7) by (cases cp; cases fs) (auto intro: ctx_ok_black)
  ultimately show ?thesis
    using F by (auto simp: S rbi_nd bh_nd)
qed

lemma push_sib:
  assumes S: "shape h ((a, False, y, d, o1) # (p, cp, yp, e, S) # f # fs) V b"
    and B: "balanced ((p, cp, yp, e, S) # f # fs) (nd a False y d V o1)"
    and H: "headed ((p, cp, yp, e, S) # f # fs) z" and C: "\<not> rd V" "\<not> rd o1"
    and D: "deletable ((p, cp, yp, e, S) # f # fs) (nd a False y d V o1)"
  shows "pushed ((a, False, y, d, o1) # (p, cp, yp, e, S) # f # fs) V b z a d
    (rberase_push h (fst f) p a d e)"
proof -
  let ?fs = "(a, False, y, d, o1) # (p, cp, yp, e, S) # f # fs"
  obtain s ys sb sa where S': "S = nd s False ys e sb sa" and F: "rbi S" "bh sb = bh V" "bh sa = bh V"
    "\<And>c. ctx_ok (butlast (f # fs)) c (Suc (bh V))" "bh o1 = bh V" "rbi V" "rbi o1"
    using black_sibling [OF B D] by blast
  have R: "rbi sa" "rbi sb" "bh (paint False sa) = (if rd sa then Suc (bh sa) else bh sa)"
    using F(1) by (cases sa; simp add: S' rbi_nd)+
  obtain g cg yg dg Sg where f: "f = (g, cg, yg, dg, Sg)"
    by (cases f) auto
  show ?thesis
  proof (cases "rd sb")
    case True
    then obtain m ym b1 b2 where sb: "sb = nd m True ym e b1 b2"
      using nd_ex [of sb e] by (metis rd.simps(1) rd_nd)
    obtain h' where h': "rberase_push h g p a d e = Some (h', p)" "shape h' ((a, True, y, d, o1) #
        (p, False, yp, e, b1) # (m, True, ym, e, nd s False ys e b2 sa) # f # fs) V b"
      using push_double_heap [OF S [unfolded f] C S' sb] by (auto simp: f)
    show ?thesis
    proof (rule pushedI [OF _ h'(2)])
      show "balanced ((a, True, y, d, o1) # (p, False, yp, e, b1) #
          (m, True, ym, e, nd s False ys e b2 sa) # f # fs) V"
        using F R C by (simp add: balanced_def rbi_nd bh_nd sb)
      show "same_path ?fs ((a, True, y, d, o1) # (p, False, yp, e, b1) #
          (m, True, ym, e, nd s False ys e b2 sa) # f # fs)"
        by (auto simp: same_path_def S' sb nd_def)
    qed (use H h' in \<open>simp_all add: f\<close>)
  next
    case sb: False
    show ?thesis
    proof (cases "rd sa")
      case True
      obtain h' where h': "rberase_push h g p a d e = Some (h', p)" "shape h' ((a, True, y, d, o1) #
          (p, False, yp, e, sb) # (s, True, ys, e, paint False sa) # f # fs) V b"
        using push_single_heap [OF S [unfolded f] C S' True sb] by (auto simp: f)
      show ?thesis
      proof (rule pushedI [OF _ h'(2)])
        show "balanced ((a, True, y, d, o1) # (p, False, yp, e, sb) #
            (s, True, ys, e, paint False sa) # f # fs) V"
          using F R C sb True by (simp add: balanced_def rbi_nd bh_nd rbi_paint_black)
        show "same_path ?fs ((a, True, y, d, o1) # (p, False, yp, e, sb) #
            (s, True, ys, e, paint False sa) # f # fs)"
          by (auto simp: same_path_def S' nd_def)
      qed (use H h' in \<open>simp_all add: f\<close>)
    next
      case False
      obtain h' where h': "rberase_push h g p a d e = Some (h', p)"
        "shape h' ((a, True, y, d, o1) # (p, False, yp, e, nd s True ys e sb sa) # f # fs) V b"
        using push_flip_heap [OF S C S' False sb] by blast
      show ?thesis
      proof (rule pushedI [OF _ h'(2)])
        show "balanced ((a, True, y, d, o1) # (p, False, yp, e, nd s True ys e sb sa) # f # fs) V"
          using F R C sb False by (simp add: balanced_def rbi_nd bh_nd)
        show "same_path ?fs ((a, True, y, d, o1) # (p, False, yp, e, nd s True ys e sb sa) # f # fs)"
          by (auto simp: same_path_def S' nd_def)
      qed (use H h' in \<open>simp_all add: f\<close>)
    qed
  qed
qed

theorem rberase_push_correct:
  assumes S: "shape h ((a, c, y, d, o1) # (p, cp, yp, e, S) # fs) V b"
    and B: "balanced ((p, cp, yp, e, S) # fs) (nd a c y d V o1)"
    and H: "headed ((p, cp, yp, e, S) # fs) z"
    and D: "deletable ((p, cp, yp, e, S) # fs) (nd a c y d V o1)"
  shows "pushed ((a, c, y, d, o1) # (p, cp, yp, e, S) # fs) V b z a d
    (rberase_push h (parent fs) p a d e)"
proof (cases "c \<or> rd V \<or> fs = [] \<and> \<not> rd o1")
  case True
  then show ?thesis
    by (rule push_keep [OF S B H])
next
  case False
  then have F: "\<not> c" "\<not> rd V" "fs = [] \<longrightarrow> rd o1"
    by auto
  show ?thesis
  proof (cases "rd o1")
    case True
    then show ?thesis
      using push_turn [of h a y d o1 p cp yp e S fs V b z] S B H F by simp
  next
    case False
    then obtain f gs where "fs = f # gs"
      using F(3) by (cases fs) auto
    then show ?thesis
      using push_sib [of h a y d o1 p cp yp e S f gs V b z] S B H D F False by simp
  qed
qed

end
