(* ===== verification/Rb_Erase.thy ===== *)
theory Rb_Erase
  imports Rb_Push
begin

text \<open>
  \<^verbatim>\<open>jsw_rberase\<close> is correct: on a valid tree it returns, all its memory accesses are valid, the tree
  is valid again, exactly the item with the given key is gone, and only that item is released.
\<close>

section \<open>The loop\<close>

definition located :: "('a \<Rightarrow> int) \<Rightarrow> int \<Rightarrow> addr \<Rightarrow> 'a frame list \<Rightarrow> bool" where
  "located key k f fs \<longleftrightarrow>
     (\<forall>y \<in> set (tl (lefts fs)). key y < k) \<and>
     (if f = NULL then \<forall>y \<in> set (rights fs). k < key y
      else rights fs \<noteq> [] \<and> key (hd (rights fs)) = k \<and> succ_addr fs = f)"

lemma same_path_located: "same_path fs gs \<Longrightarrow> located key k f gs = located key k f fs"
  by (simp add: same_path_def located_def)

lemma same_path_items: "same_path fs gs \<Longrightarrow> items gs V = items fs V"
  by (simp add: same_path_def items_def inorder_plug)

lemma located_descend:
  assumes H: "headed fs z" and L: "located key k f fs"
    and O: "sorted_items key (items fs (Nd a c y l r))" and a: "a \<noteq> NULL"
  shows "located key k (if key y = k then a else f)
    ((a, c, y, key y < k, if key y < k then l else r) # fs)"
proof -
  obtain L0 where L0: "lefts fs = z # L0"
    using headed_lefts [OF H] by blast
  have o: "sorted_items key (L0 @ (inorder l @ y # inorder r) @ rights fs)"
    using O by (simp add: items_eq [OF H] L0)
  show ?thesis
  proof (cases "key y < k")
    case True
    then have "\<forall>v \<in> set (inorder l). key v < k"
      using o by (auto intro: less_trans)
    then show ?thesis
      using True L by (auto simp: located_def L0)
  next
    case False
    have r: "\<forall>v \<in> set (inorder r). key y < key v" "\<forall>v \<in> set (rights fs). key y < key v"
      using o by auto
    show ?thesis
    proof (cases "key y = k")
      case True
      then show ?thesis
        using L a by (auto simp: located_def L0)
    next
      case neq: False
      then have "f = NULL"
        using False L r by (auto simp: located_def split: if_splits)
      then show ?thesis
        using False neq L r by (auto simp: located_def L0)
    qed
  qed
qed

definition erased_at ::
    "('a \<Rightarrow> int) \<Rightarrow> int \<Rightarrow> 'a \<Rightarrow> addr \<Rightarrow> 'a list \<Rightarrow> ('a rbheap \<times> addr \<times> addr \<times> addr) option \<Rightarrow> bool" where
  "erased_at key k z b xs res \<longleftrightarrow>
     (\<exists>h q c y d s gs f. res = Some (h, parent gs, q, f) \<and> shape h ((q, c, y, d, s) # gs) Lf b \<and>
        balanced ((q, c, y, d, s) # gs) Lf \<and> headed gs z \<and> deletable ((q, c, y, d, s) # gs) Lf \<and>
        located key k f ((q, c, y, d, s) # gs) \<and> items ((q, c, y, d, s) # gs) Lf = xs)"

context rb_item begin

lemma rberase_loop_correct:
  assumes "shape h ((q, cq, yq, e, S) # fs) U b" and "balanced ((q, cq, yq, e, S) # fs) U"
    and "headed ((q, cq, yq, e, S) # fs) z" and "deletable ((q, cq, yq, e, S) # fs) U"
    and "located key (key x) f ((q, cq, yq, e, S) # fs)"
    and "sorted_items key (items ((q, cq, yq, e, S) # fs) U)" and "U = Lf \<longrightarrow> fs \<noteq> []"
  shows "erased_at key (key x) z b (items ((q, cq, yq, e, S) # fs) U)
    (rberase_loop cmpf x h (parent fs) q f e)"
  using assms
proof (induction U arbitrary: h q cq yq e S fs f)
  case Lf
  then have "h q = Some \<lparr>red = cq, data = yq, link = lk e NULL (ad S)\<rparr>"
    by (simp add: shape_def)
  then have "rberase_loop cmpf x h (parent fs) q f e = Some (h, parent fs, q, f)"
    by (subst rberase_loop.simps) simp
  moreover have "headed fs z"
    using Lf by simp
  ultimately show ?case
    using Lf.prems unfolding erased_at_def by blast
next
  case (Nd a c y l r)
  let ?fs = "(q, cq, yq, e, S) # fs"
  define d where "d = (key y < key x)"
  define V where "V = (if d then r else l)"
  define o1 where "o1 = (if d then l else r)"
  have U: "Nd a c y l r = nd a c y d V o1"
    by (simp add: nd_def V_def o1_def)
  have S1: "shape h ((a, c, y, d, o1) # ?fs) V b"
    using shape_descend [OF Nd.prems(1), of d] by (simp add: V_def o1_def)
  have a: "a \<noteq> NULL" and N: "h a = Some \<lparr>red = c, data = y, link = lk d (ad V) (ad o1)\<rparr>"
    "h q = Some \<lparr>red = cq, data = yq, link = lk e a (ad S)\<rparr>"
    using S1 by (auto simp: shape_def)
  have "pushed ((a, c, y, d, o1) # ?fs) V b z a d (rberase_push h (parent fs) q a d e)"
    using rberase_push_correct [OF S1, of z] Nd.prems(2-4) unfolding U by blast
  then obtain h' c2 y2 s2 gs where R: "rberase_push h (parent fs) q a d e = Some (h', parent gs)"
    and S2: "shape h' ((a, c2, y2, d, s2) # gs) V b" and B2: "balanced ((a, c2, y2, d, s2) # gs) V"
    and H2: "headed gs z" and D2: "deletable ((a, c2, y2, d, s2) # gs) V"
    and P: "same_path ((a, c, y, d, o1) # ?fs) ((a, c2, y2, d, s2) # gs)"
    unfolding pushed_def by blast
  define f' where "f' = (if key y = key x then a else f)"
  have L2: "located key (key x) f' ((a, c2, y2, d, s2) # gs)"
    unfolding same_path_located [OF P]
    using located_descend [OF Nd.prems(3,5,6) a] by (simp add: f'_def d_def o1_def)
  have I2: "items ((a, c2, y2, d, s2) # gs) V = items ?fs (Nd a c y l r)"
    unfolding same_path_items [OF P] by (simp add: items_def U)
  have step: "rberase_loop cmpf x h (parent fs) q f e = rberase_loop cmpf x h' (parent gs) a f' d"
    using N R a by (subst rberase_loop.simps) (simp add: cmp_less cmp_zero f'_def d_def)
  have "gs \<noteq> []" and H3: "headed ((a, c2, y2, d, s2) # gs) z"
    using H2 by (auto simp: headed_def)
  then have "erased_at key (key x) z b (items ?fs (Nd a c y l r)) (rberase_loop cmpf x h' (parent gs) a f' d)"
    using Nd.IH(1) [of h' a c2 y2 d s2 gs f'] Nd.IH(2) [of h' a c2 y2 d s2 gs f']
      S2 B2 D2 L2 Nd.prems(6) I2
    by (cases d) (simp_all add: V_def)
  then show ?case
    unfolding step .
qed

end

section \<open>Taking the node out\<close>

lemma last_is_leaf:
  assumes "balanced ((q, c, y, d, s) # gs) Lf" and "deletable ((q, c, y, d, s) # gs) Lf" and "gs \<noteq> []"
    and "headed gs z"
  shows "s = Lf \<and> balanced gs Lf"
proof -
  obtain f gs' where gs: "gs = f # gs'"
    using assms(3) by (cases gs) auto
  have s: "rbi s" "bh s = 0" "c \<longrightarrow> \<not> rd s"
    "ctx_ok (butlast gs) c (if c then 0 else Suc 0)"
    using assms(1) by (auto simp: balanced_def gs)
  have "\<not> rd s"
    using assms(2) s(3) by (auto simp: gs)
  then have "s = Lf"
    using s(2) by (cases s) auto
  moreover have "ctx_ok (butlast gs) False 0"
    using s(4) assms(2) by (cases c; cases gs') (auto simp: gs intro: ctx_ok_black)
  ultimately show ?thesis
    by (simp add: balanced_def)
qed

lemma unlink_heap:
  assumes "shape h ((q, c, y, d, Lf) # gs) Lf b" and "gs \<noteq> []"
  shows "\<exists>h'. rberase_unlink h (parent gs) q = Some h' \<and> shape (h'(q := None)) gs Lf b"
proof -
  obtain p cp yp e S fs where gs: "gs = (p, cp, yp, e, S) # fs"
    using assms(2) by (cases gs) auto
  have N: "h q = Some \<lparr>red = c, data = y, link = lk d NULL NULL\<rparr>" "q \<noteq> NULL" "tree_at h S"
    "h p = Some \<lparr>red = cp, data = yp, link = lk e q (ad S)\<rparr>" "q \<notin> set (addrs S)" "p \<noteq> q"
    "q \<notin> set (faddrs fs)" "p \<notin> set (addrs S)" "p \<notin> set (faddrs fs)"
    using assms(1) by (auto simp: shape_def gs)
  have "q \<noteq> ad S"
    by (rule ad_fresh [OF N(3,5,2)])
  then have "rberase_unlink h p q = Some (h(p \<mapsto> \<lparr>red = cp, data = yp, link = lk e NULL (ad S)\<rparr>))"
    using N(1,2,4) by (cases d) (simp_all add: rberase_unlink_def link_dir)
  moreover have "shape ((h(p \<mapsto> \<lparr>red = cp, data = yp, link = lk e NULL (ad S)\<rparr>))(q := None)) gs Lf b"
    using assms(1) N by (auto simp: shape_def gs)
  ultimately show ?thesis
    by (simp add: gs)
qed

fun put_next :: "'a \<Rightarrow> 'a frame list \<Rightarrow> 'a frame list" where
  "put_next v [] = []"
| "put_next v ((a, c, y, d, s) # fs) =
     (if d then (a, c, y, d, s) # put_next v fs else (a, c, v, d, s) # fs)"

lemma put_next_path [simp]:
  "faddrs (put_next v fs) = faddrs fs" "lefts (put_next v fs) = lefts fs"
  "ctx_ok (put_next v fs) c n = ctx_ok fs c n" "put_next v fs = [] \<longleftrightarrow> fs = []"
  "parent (put_next v fs) = parent fs"
  by (induction v fs arbitrary: c n rule: put_next.induct) auto

lemma rights_put_next: "rights fs \<noteq> [] \<Longrightarrow> rights (put_next v fs) = v # tl (rights fs)"
  by (induction v fs rule: put_next.induct) auto

lemma headed_put_next: "headed fs z \<Longrightarrow> headed (put_next v fs) z"
proof (induction v fs rule: put_next.induct)
  case (2 v a c y d s fs)
  then show ?case
    by (cases "fs = []") auto
qed simp

lemma butlast_put_next: "headed fs z \<Longrightarrow> butlast (put_next v fs) = put_next v (butlast fs)"
proof (induction v fs rule: put_next.induct)
  case (2 v a c y d s fs)
  then show ?case
    by (cases "fs = []") auto
qed simp

lemma frames_at_NULL: "frames_at h fs b \<Longrightarrow> NULL \<notin> set (faddrs fs)"
  using tree_at_addrs by (induction h fs b rule: frames_at.induct) fastforce+

lemma put_next_heap:
  assumes "frames_at h fs b" and "distinct (faddrs fs)" and "rights fs \<noteq> []"
  shows "\<exists>n. h (succ_addr fs) = Some n \<and> data n = hd (rights fs) \<and> succ_addr fs \<in> set (faddrs fs) \<and>
    frames_at (h(succ_addr fs \<mapsto> n\<lparr>data := v\<rparr>)) (put_next v fs) b"
  using assms
proof (induction v fs arbitrary: b rule: put_next.induct)
  case (2 v a c y d s fs)
  have A: "h a = Some \<lparr>red = c, data = y, link = lk d b (ad s)\<rparr>" "a \<noteq> NULL" "tree_at h s"
    "frames_at h fs a" "a \<notin> set (addrs s)" "a \<notin> set (faddrs fs)" "set (addrs s) \<inter> set (faddrs fs) = {}"
    "distinct (faddrs fs)"
    using 2(2,3) by auto
  show ?case
  proof (cases d)
    case True
    then obtain n where n: "h (succ_addr fs) = Some n" "data n = hd (rights fs)"
      "succ_addr fs \<in> set (faddrs fs)"
      "frames_at (h(succ_addr fs \<mapsto> n\<lparr>data := v\<rparr>)) (put_next v fs) a"
      using 2(1) [OF True A(4) A(8)] 2(4) True unfolding rights.simps if_True by metis
    then have "succ_addr fs \<noteq> a" "succ_addr fs \<notin> set (addrs s)"
      using A by auto
    then have "frames_at (h(succ_addr fs \<mapsto> n\<lparr>data := v\<rparr>)) ((a, c, y, d, s) # put_next v fs) b"
      unfolding frames_at.simps using n(4) A(1-3) tree_at_upd by fastforce
    moreover have "succ_addr ((a, c, y, d, s) # fs) = succ_addr fs" "rights ((a, c, y, d, s) # fs) = rights fs"
      "put_next v ((a, c, y, d, s) # fs) = (a, c, y, d, s) # put_next v fs"
      "succ_addr fs \<in> set (faddrs ((a, c, y, d, s) # fs))"
      using True n(3) by simp_all
    ultimately show ?thesis
      using n(1,2) by metis
  next
    case False
    define m where "m = \<lparr>red = c, data = v, link = lk d b (ad s)\<rparr>"
    have "tree_at (h(a \<mapsto> m)) s" "frames_at (h(a \<mapsto> m)) fs a"
      using A by simp_all
    then have "frames_at (h(a \<mapsto> m)) ((a, c, v, d, s) # fs) b"
      using A(2) by (simp add: m_def)
    moreover have "\<lparr>red = c, data = y, link = lk d b (ad s)\<rparr>\<lparr>data := v\<rparr> = m"
      by (simp add: m_def)
    moreover have "succ_addr ((a, c, y, d, s) # fs) = a" "hd (rights ((a, c, y, d, s) # fs)) = y"
      "put_next v ((a, c, y, d, s) # fs) = (a, c, v, d, s) # fs"
      "a \<in> set (faddrs ((a, c, y, d, s) # fs))"
      using False by simp_all
    ultimately show ?thesis
      using A(1) by (metis jsw_rbnode.select_convs(2))
  qed
qed simp

section \<open>The operation\<close>

text \<open>The state after the removal: a balanced tree, and what became of the items.\<close>

definition removed ::
    "('a \<Rightarrow> int) \<Rightarrow> int \<Rightarrow> 'a \<Rightarrow> addr \<Rightarrow> 'a list \<Rightarrow> ('a rbheap \<times> 'a list) option \<Rightarrow> bool" where
  "removed key k z b xs res \<longleftrightarrow>
     (\<exists>h fs. res = Some (h, filter (\<lambda>y. key y = k) xs) \<and> shape h fs Lf b \<and> balanced fs Lf \<and>
        headed fs z \<and> items fs Lf = filter (\<lambda>y. key y \<noteq> k) xs)"

lemma filter_key:
  assumes "sorted_items key (L @ r # R)" and "key r = k"
  shows "filter (\<lambda>y. key y = k) (L @ r # R) = [r]" "filter (\<lambda>y. key y \<noteq> k) (L @ r # R) = L @ R"
proof -
  have "\<forall>y \<in> set L. key y < k" "\<forall>y \<in> set R. k < key y"
    using assms by auto
  then have "filter (\<lambda>y. key y = k) L = []" "filter (\<lambda>y. key y = k) R = []"
    "filter (\<lambda>y. key y \<noteq> k) L = L" "filter (\<lambda>y. key y \<noteq> k) R = R"
    by (auto simp: filter_empty_conv filter_id_conv)
  then show "filter (\<lambda>y. key y = k) (L @ r # R) = [r]" "filter (\<lambda>y. key y \<noteq> k) (L @ r # R) = L @ R"
    using assms(2) by simp_all
qed

lemma remove_absent:
  assumes "shape h ((q, c, y, d, s) # gs) Lf b" and "balanced ((q, c, y, d, s) # gs) Lf"
    and H: "headed ((q, c, y, d, s) # gs) z" and L: "located key k NULL ((q, c, y, d, s) # gs)"
  shows "removed key k z b (items ((q, c, y, d, s) # gs) Lf) (rberase_remove h p q NULL)"
proof -
  have "\<forall>y \<in> set (items ((q, c, y, d, s) # gs) Lf). key y \<noteq> k"
    using L by (fastforce simp: items_eq [OF H] located_def)
  then have "filter (\<lambda>y. key y = k) (items ((q, c, y, d, s) # gs) Lf) = []"
    "filter (\<lambda>y. key y \<noteq> k) (items ((q, c, y, d, s) # gs) Lf) = items ((q, c, y, d, s) # gs) Lf"
    by (simp_all add: filter_empty_conv filter_id_conv)
  then show ?thesis
    using assms by (auto simp: removed_def rberase_remove_def)
qed

lemma remove_here:
  assumes S: "shape h ((q, c, y, False, Lf) # gs) Lf b" and B: "balanced gs Lf"
    and H: "headed gs z" and k: "key y = k"
    and O: "sorted_items key (items ((q, c, y, False, Lf) # gs) Lf)"
  shows "removed key k z b (items ((q, c, y, False, Lf) # gs) Lf) (rberase_remove h (parent gs) q q)"
proof -
  have gs: "gs \<noteq> []" and H2: "headed ((q, c, y, False, Lf) # gs) z"
    using H by (auto simp: headed_def)
  have N: "h q = Some \<lparr>red = c, data = y, link = lk False NULL NULL\<rparr>" "q \<noteq> NULL"
    using S by (auto simp: shape_def)
  then have "h(q \<mapsto> \<lparr>red = c, data = y, link = lk False NULL NULL\<rparr>) = h"
    by auto
  moreover obtain h' where "rberase_unlink h (parent gs) q = Some h'" "shape (h'(q := None)) gs Lf b"
    using unlink_heap [OF S gs] by blast
  moreover have i: "items ((q, c, y, False, Lf) # gs) Lf = tl (lefts gs) @ y # rights gs"
    by (simp add: items_eq [OF H2])
  moreover have "items gs Lf = tl (lefts gs) @ rights gs"
    by (simp add: items_eq [OF H])
  ultimately show ?thesis
    using N B H filter_key [OF O [unfolded i] k] by (auto simp: removed_def rberase_remove_def)
qed

lemma remove_pred:
  assumes S: "shape h ((q, c, y, True, Lf) # gs) Lf b" and B: "balanced gs Lf"
    and H: "headed gs z" and r: "rights gs \<noteq> []" "key (hd (rights gs)) = k"
    and O: "sorted_items key (items ((q, c, y, True, Lf) # gs) Lf)"
  shows "removed key k z b (items ((q, c, y, True, Lf) # gs) Lf)
    (rberase_remove h (parent gs) q (succ_addr gs))"
proof -
  let ?gs = "put_next y gs"
  have gs: "gs \<noteq> []" and H2: "headed ((q, c, y, True, Lf) # gs) z" and H3: "headed ?gs z"
    using H headed_put_next [OF H] by (simp_all add: headed_def)
  have F: "h q = Some \<lparr>red = c, data = y, link = lk True NULL NULL\<rparr>" "q \<noteq> NULL" "frames_at h gs q"
    "distinct (faddrs gs)" "q \<notin> set (faddrs gs)"
    using S by (auto simp: shape_def)
  obtain n where n: "h (succ_addr gs) = Some n" "data n = hd (rights gs)" "succ_addr gs \<in> set (faddrs gs)"
    "frames_at (h(succ_addr gs \<mapsto> n\<lparr>data := y\<rparr>)) ?gs q"
    using put_next_heap [OF F(3,4) r(1), of y] by blast
  have nq: "succ_addr gs \<noteq> q"
    using n(3) F(5) by auto
  have "succ_addr gs \<noteq> NULL"
    using S n(1,3) by (auto simp: shape_def frames_at_NULL)
  moreover have S2: "shape (h(succ_addr gs \<mapsto> n\<lparr>data := y\<rparr>)) ((q, c, y, True, Lf) # ?gs) Lf b"
    using S n(3,4) F(1) nq by (auto simp: shape_def)
  then obtain h' where "rberase_unlink (h(succ_addr gs \<mapsto> n\<lparr>data := y\<rparr>)) (parent gs) q = Some h'"
    "shape (h'(q := None)) ?gs Lf b"
    using unlink_heap [OF S2] gs by auto
  moreover obtain L where L: "lefts gs = z # L"
    using headed_lefts [OF H] by blast
  moreover have i: "items ((q, c, y, True, Lf) # gs) Lf = (L @ [y]) @ hd (rights gs) # tl (rights gs)"
    using r(1) by (simp add: items_eq [OF H2] L)
  moreover have "items ?gs Lf = (L @ [y]) @ tl (rights gs)"
    by (simp add: items_eq [OF H3] L rights_put_next [OF r(1)])
  moreover have "balanced ?gs Lf"
    using B by (simp add: balanced_def butlast_put_next [OF H])
  ultimately show ?thesis
    using n(1,2) F(1) H3 filter_key [OF O [unfolded i] r(2)]
    by (auto simp: removed_def rberase_remove_def)
qed

context rb_item begin

lemma remove_correct:
  assumes E: "erased_at key k z b xs (Some (h, p, q, f))" and O: "sorted_items key xs"
  shows "removed key k z b xs (rberase_remove h p q f)"
proof -
  obtain c y d s gs where p: "p = parent gs" and S: "shape h ((q, c, y, d, s) # gs) Lf b"
    and B: "balanced ((q, c, y, d, s) # gs) Lf" and H: "headed gs z"
    and D: "deletable ((q, c, y, d, s) # gs) Lf"
    and L: "located key k f ((q, c, y, d, s) # gs)" and I: "items ((q, c, y, d, s) # gs) Lf = xs"
    using E unfolding erased_at_def option.inject prod.inject by blast
  have gs: "gs \<noteq> []"
    using H by (auto simp: headed_def)
  have s: "s = Lf" and B2: "balanced gs Lf"
    using last_is_leaf [OF B D gs H] by blast+
  show ?thesis
  proof (cases "f = NULL")
    case True
    then show ?thesis
      using remove_absent [OF S B _, of z key k p] H gs L I by simp
  next
    case f: False
    show ?thesis
    proof (cases d)
      case True
      then show ?thesis
        using remove_pred [of h q c y gs b z key k] S B2 H L O I f by (simp add: s p located_def)
    next
      case False
      then show ?thesis
        using remove_here [of h q c y gs b z key k] S B2 H L O I f by (simp add: s p located_def)
    qed
  qed
qed

theorem rberase_correct:
  assumes T: "rb_tree t T"
  shows "\<exists>t' T'. jsw_rberase t x = Some (1, t', filter (\<lambda>y. key y = key x) (inorder T)) \<and> rb_tree t' T' \<and>
    inorder T' = filter (\<lambda>y. key y \<noteq> key x) (inorder T) \<and>
    tsize t' = (if T = Lf then tsize t else tsize t - 1)"
proof (cases "T = Lf")
  case True
  then show ?thesis
    using T root_tree [OF T] by (auto simp: jsw_rberase_def intro!: exI [of _ Lf])
next
  case False
  define h0 where "h0 = (nodes t)(HEAD \<mapsto>
    \<lparr>red = False, data = x, link = (\<lambda>_. NULL)(True := root t)\<rparr>)"
  have F: "rbi T" "\<not> rd T" "sorted_items key (inorder T)" "root t = ad T" "cmp t = cmpf"
    "dup t = dupf" "2 < brk t"
    using T by (auto simp: rb_tree_def)
  have S: "shape h0 [(HEAD, False, x, True, Lf)] T (brk t)"
    unfolding h0_def by (rule rb_tree_shape [OF T])
  have I: "items [(HEAD, False, x, True, Lf)] T = inorder T"
    by (simp add: items_def nd_def)
  have "erased_at key (key x) x (brk t) (inorder T) (rberase_loop cmpf x h0 NULL HEAD NULL True)"
    using rberase_loop_correct [OF S, of x x NULL] False F
    by (simp add: I balanced_def located_def)
  moreover from this obtain h p q f where L: "rberase_loop cmpf x h0 NULL HEAD NULL True = Some (h, p, q, f)"
    by (auto simp: erased_at_def)
  ultimately have "removed key (key x) x (brk t) (inorder T) (rberase_remove h p q f)"
    using remove_correct [OF _ F(3)] by simp
  then obtain h1 fs where R: "rberase_remove h p q f = Some (h1, filter (\<lambda>y. key y = key x) (inorder T))"
    and S1: "shape h1 fs Lf (brk t)" and B1: "balanced fs Lf" and H1: "headed fs x"
    and I1: "items fs Lf = filter (\<lambda>y. key y \<noteq> key x) (inorder T)"
    by (auto simp: removed_def)
  define P where "P = paint False (plug (butlast fs) Lf)"
  obtain h' where h': "get_link h1 HEAD True = Some (ad P)" "P \<noteq> Lf \<Longrightarrow> set_red h1 (ad P) False = Some h'"
    "P = Lf \<Longrightarrow> h' = h1"
    "tree_at (h'(HEAD := None)) P" "distinct (addrs P)" "\<forall>a \<in> set (addrs P). a < brk t \<and> a \<noteq> HEAD"
    "dom (h'(HEAD := None)) = set (addrs P)" "rbi P" "\<not> rd P" "inorder P = items fs Lf"
    using shape_headless [OF S1 H1 B1 P_def] by blast
  have "ad P = NULL \<longleftrightarrow> P = Lf"
    using tree_at_ad_NULL [OF h'(4)] .
  then have "jsw_rberase t x = Some (1, t\<lparr>root := ad P, tsize := tsize t - 1, nodes := h'(HEAD := None)\<rparr>,
      filter (\<lambda>y. key y = key x) (inorder T))"
    using False F(4,5) h'(1-3) L R root_tree [OF T]
    by (cases "P = Lf") (simp_all add: jsw_rberase_def h0_def)
  moreover have "sorted_items key (filter (\<lambda>y. key y \<noteq> key x) (inorder T))"
    using F(3) by (simp add: sorted_items_def sorted_wrt_map sorted_wrt_filter)
  ultimately show ?thesis
    using F(5-7) False h' I1 by (auto simp: rb_tree_def intro!: exI [of _ P])
qed

end

end
