(* ===== verification/Rb_Map.thy ===== *)
theory Rb_Map
  imports Rb_Erase
begin

text \<open>
  Search and destruction of the red-black tree, and what its clients rely on: a valid tree stands
  for a finite map from keys to items, and the operations of \<^verbatim>\<open>src/rbtree.c\<close> are lookup, insertion
  of an absent key, and removal in that map.  The laws are stated as the locale \<open>item_store\<close>; the
  tree is an instance of it for every comparison function that compares a key.
\<close>

section \<open>Search\<close>

context rb_item begin

lemma rbfind_loop_correct:
  assumes "tree_at h T" and "sorted_items key (inorder T)"
  shows "\<exists>a. rbfind_loop h cmpf x (ad T) = Some a \<and>
    (if a = NULL then None else map_option data (h a)) = item_map key (inorder T) (key x) \<and>
    (a = NULL \<or> h a \<noteq> None)"
  using assms
proof (induction T)
  case Lf
  then show ?case
    by (subst rbfind_loop.simps) simp
next
  case (Nd a c y l r)
  have n: "a \<noteq> NULL" "h a = Some \<lparr>red = c, data = y, link = lk False (ad l) (ad r)\<rparr>"
    "tree_at h l" "tree_at h r" "sorted_items key (inorder l)" "sorted_items key (inorder r)"
    using Nd.prems by auto
  have L: "key x \<notin> key ` set (inorder l)" if "key y \<le> key x"
    using Nd.prems(2) that by force
  have R: "key x \<notin> key ` set (inorder r)" if "key x \<le> key y"
    using Nd.prems(2) that by force
  have m: "item_map key (inorder (Nd a c y l r)) (key x) =
    (if key y = key x then Some y
     else if key y < key x then item_map key (inorder r) (key x)
     else item_map key (inorder l) (key x))"
    using L R item_map_None [of key "inorder l" "key x"] item_map_None [of key "inorder r" "key x"]
    by (cases "item_map key (inorder l) (key x)"; cases "key y < key x"; cases "key y = key x")
       (auto simp: item_map_append map_add_def)
  have s: "rbfind_loop h cmpf x a =
    (if key y = key x then Some a
     else rbfind_loop h cmpf x (ad (if key y < key x then r else l)))"
    using n by (subst rbfind_loop.simps) (simp add: cmp_less cmp_zero)
  show ?case
    using Nd.IH n m s by (cases "key y < key x") auto
qed

theorem rbfind_correct:
  assumes "rb_tree t T"
  shows "jsw_rbfind t x = Some (item_map key (inorder T) (key x))"
proof -
  have T: "tree_at (nodes t) T" "sorted_items key (inorder T)" "root t = ad T" "cmp t = cmpf"
    using assms by (auto simp: rb_tree_def)
  obtain a where "rbfind_loop (nodes t) cmpf x (ad T) = Some a"
    "(if a = NULL then None else map_option data (nodes t a)) = item_map key (inorder T) (key x)"
    "a = NULL \<or> nodes t a \<noteq> None"
    using rbfind_loop_correct [OF T(1,2), of x] by blast
  then show ?thesis
    using T by (auto simp: jsw_rbfind_def)
qed

end

section \<open>Destruction\<close>

text \<open>
  \<^verbatim>\<open>jsw_rbdelete\<close> rotates the tree to the right until its root has no left child and then takes the
  root off.  It returns, releases every item exactly once, in order, and frees every node.
\<close>

fun delete_size :: "'a atree \<Rightarrow> nat" where
  "delete_size Lf = 0"
| "delete_size (Nd a c x l r) = Suc (2 * delete_size l + delete_size r)"

lemma rbdelete_loop_correct:
  "tree_at h T \<Longrightarrow> distinct (addrs T) \<Longrightarrow>
   \<exists>h'. rbdelete_loop h rel (ad T) = Some (h', rel @ inorder T) \<and> dom h' = dom h - set (addrs T)"
proof (induction "delete_size T" arbitrary: T h rel rule: less_induct)
  case less
  show ?case
  proof (cases T)
    case Lf
    then show ?thesis
      by (subst rbdelete_loop.simps) simp
  next
    case T: (Nd a c x l r)
    have n: "a \<noteq> NULL" "h a = Some \<lparr>red = c, data = x, link = lk False (ad l) (ad r)\<rparr>"
      "tree_at h l" "tree_at h r" "a \<notin> set (addrs l)" "a \<notin> set (addrs r)"
      using less.prems by (auto simp: T)
    show ?thesis
    proof (cases l)
      case Lf
      have step: "rbdelete_loop h rel a = rbdelete_loop (h(a := None)) (rel @ [x]) (ad r)"
        using n Lf by (subst rbdelete_loop.simps) simp
      have "\<exists>h'. rbdelete_loop (h(a := None)) (rel @ [x]) (ad r) = Some (h', (rel @ [x]) @ inorder r) \<and>
        dom h' = dom (h(a := None)) - set (addrs r)"
        using less.prems n by (intro less.hyps) (auto simp: T Lf)
      then show ?thesis
        using step by (auto simp: T Lf)
    next
      case l: (Nd b e y ll lr)
      define h1 where "h1 = h(a \<mapsto> \<lparr>red = c, data = x, link = lk False (ad lr) (ad r)\<rparr>,
        b \<mapsto> \<lparr>red = e, data = y, link = lk False (ad ll) a\<rparr>)"
      have b: "b \<noteq> NULL" "h b = Some \<lparr>red = e, data = y, link = lk False (ad ll) (ad lr)\<rparr>" "a \<noteq> b"
        using n by (auto simp: l)
      have u: "(lk False b (ad r))(False := ad lr) = lk False (ad lr) (ad r)"
        "(lk False (ad ll) (ad lr))(True := a) = lk False (ad ll) a"
        by (auto simp: lk_def fun_eq_iff)
      have step: "rbdelete_loop h rel a = rbdelete_loop h1 rel (ad (Nd b e y ll (Nd a c x lr r)))"
        using n b by (subst rbdelete_loop.simps) (simp add: l h1_def u)
      have "\<exists>h'. rbdelete_loop h1 rel (ad (Nd b e y ll (Nd a c x lr r))) =
          Some (h', rel @ inorder (Nd b e y ll (Nd a c x lr r))) \<and>
          dom h' = dom h1 - set (addrs (Nd b e y ll (Nd a c x lr r)))"
        using less.prems by (intro less.hyps) (auto simp: T l h1_def)
      then show ?thesis
        using step b n by (auto simp: T l h1_def insert_absorb)
    qed
  qed
qed

context rb_item begin

theorem rbdelete_correct:
  assumes "rb_tree t T"
  shows "jsw_rbdelete t = Some (Map.empty, inorder T)"
  using rbdelete_loop_correct [of "nodes t" T "[]"] assms
  by (auto simp: rb_tree_def jsw_rbdelete_def)

section \<open>The map a tree stands for\<close>

definition rb_rep :: "'a jsw_rbtree \<Rightarrow> (int \<rightharpoonup> 'a) \<Rightarrow> bool" where
  "rb_rep t m \<longleftrightarrow> (\<exists>T. rb_tree t T \<and> m = item_map key (inorder T))"

end

text \<open>What the clients of the tree rely on.\<close>

locale item_store =
  fixes rep :: "'t \<Rightarrow> (int \<rightharpoonup> 'a) \<Rightarrow> bool"
    and new :: 't
    and find :: "'t \<Rightarrow> 'a \<Rightarrow> 'a option option"
    and ins :: "'t \<Rightarrow> 'a \<Rightarrow> (int \<times> 't) option"
    and era :: "'t \<Rightarrow> 'a \<Rightarrow> (int \<times> 't \<times> 'a list) option"
    and del :: "'t \<Rightarrow> ('a rbheap \<times> 'a list) option"
    and key :: "'a \<Rightarrow> int"
    and dup :: "'a \<Rightarrow> 'a"
  assumes rep_new: "rep new Map.empty"
    and rep_key: "rep t m \<Longrightarrow> m k = Some y \<Longrightarrow> key y = k"
    and key_dup: "key (dup x) = key x"
    and find_rep: "rep t m \<Longrightarrow> find t x = Some (m (key x))"
    and ins_rep: "rep t m \<Longrightarrow>
      \<exists>t'. ins t x = Some (1, t') \<and> rep t' (if m (key x) = None then m(key x \<mapsto> dup x) else m)"
    and era_rep: "rep t m \<Longrightarrow>
      \<exists>t'. era t x = Some (1, t', case m (key x) of None \<Rightarrow> [] | Some y \<Rightarrow> [y]) \<and>
        rep t' (m(key x := None))"
    and del_rep: "rep t m \<Longrightarrow> \<exists>xs. del t = Some (Map.empty, xs) \<and> distinct (map key xs) \<and> set xs = ran m"
begin

lemma ins_new: "rep t m \<Longrightarrow> m (key x) = None \<Longrightarrow>
    \<exists>t'. ins t x = Some (1, t') \<and> rep t' (m(key x \<mapsto> dup x))"
  using ins_rep [of t m x] by simp

lemma find_ins:
  "rep t m \<Longrightarrow> ins t x = Some (r, t') \<Longrightarrow>
   find t' y = Some (if key y = key x then Some (case m (key x) of None \<Rightarrow> dup x | Some z \<Rightarrow> z) else m (key y))"
  using ins_rep [of t m x] find_rep by (auto split: option.splits)

lemma find_era:
  "rep t m \<Longrightarrow> era t x = Some (r, t', ys) \<Longrightarrow>
   find t' y = Some (if key y = key x then None else m (key y))"
  using era_rep [of t m x] find_rep by auto

end

lemma filter_item_map:
  "sorted_items key xs \<Longrightarrow>
   filter (\<lambda>y. key y = k) xs = (case item_map key xs k of None \<Rightarrow> [] | Some y \<Rightarrow> [y])"
proof (induction xs)
  case (Cons x xs)
  have "key x = k \<Longrightarrow> filter (\<lambda>y. key y = k) xs = []"
    using Cons.prems by (auto simp: filter_empty_conv)
  then show ?case
    using Cons by auto
qed simp

lemma item_map_filter:
  "item_map key (filter (\<lambda>y. key y \<noteq> k) xs) = (item_map key xs)(k := None)"
  by (induction xs) auto

lemma ran_item_map:
  "sorted_items key xs \<Longrightarrow> ran (item_map key xs) = set xs"
proof (induction xs)
  case (Cons x xs)
  then have "item_map key xs (key x) = None"
    by (auto simp: item_map_None)
  then have "ran ((item_map key xs)(key x \<mapsto> x)) = insert x (ran (item_map key xs))"
    by (rule ran_map_upd)
  moreover have "ran (item_map key xs) = set xs"
    using Cons by simp
  ultimately show ?case
    by (simp only: item_map_Cons list.set)
qed simp

lemma sorted_items_distinct: "sorted_items key xs \<Longrightarrow> distinct (map key xs)"
  by (simp add: sorted_items_def strict_sorted_iff)

sublocale rb_item \<subseteq> store: item_store rb_rep "jsw_rbnew cmpf dupf" jsw_rbfind "jsw_rbinsert True"
  jsw_rberase jsw_rbdelete key dupf
proof
  show "rb_rep (jsw_rbnew cmpf dupf) Map.empty"
    unfolding rb_rep_def using rb_tree_empty by (intro exI [of _ Lf]) simp
  show "rb_rep t m \<Longrightarrow> m k = Some y \<Longrightarrow> key y = k" for t m k y
    using item_map_key [of key _ k y] by (auto simp: rb_rep_def)
  show "key (dupf x) = key x" for x
    by (rule key_dup)
  show "rb_rep t m \<Longrightarrow> jsw_rbfind t x = Some (m (key x))" for t m x
    using rbfind_correct by (auto simp: rb_rep_def)
  show "\<exists>t'. jsw_rbinsert True t x = Some (1, t') \<and>
      rb_rep t' (if m (key x) = None then m(key x \<mapsto> dupf x) else m)" if rp: "rb_rep t m" for t m x
  proof -
    obtain T where T: "rb_tree t T" "m = item_map key (inorder T)"
      using rp by (auto simp: rb_rep_def)
    obtain t' T' where "jsw_rbinsert True t x = Some (1, t')" "rb_tree t' T'"
      "inorder T' = ins_item key (dupf x) (inorder T)"
      using rbinsert_correct [OF T(1)] by blast
    moreover have "item_map key (ins_item key (dupf x) (inorder T)) =
        (if m (key x) = None then m(key x \<mapsto> dupf x) else m)"
      using T ins_item_absent [of key "inorder T" "dupf x"] ins_item_present [of key "inorder T" "dupf x"]
      by (auto simp: rb_tree_def key_dup item_map_None)
    ultimately show ?thesis
      by (auto simp: rb_rep_def)
  qed
  show "\<exists>t'. jsw_rberase t x = Some (1, t', case m (key x) of None \<Rightarrow> [] | Some y \<Rightarrow> [y]) \<and>
      rb_rep t' (m(key x := None))" if rp: "rb_rep t m" for t m x
  proof -
    obtain T where T: "rb_tree t T" "m = item_map key (inorder T)"
      using rp by (auto simp: rb_rep_def)
    have O: "sorted_items key (inorder T)"
      using T(1) by (simp add: rb_tree_def)
    obtain t' T' where "jsw_rberase t x = Some (1, t', filter (\<lambda>y. key y = key x) (inorder T))"
      "rb_tree t' T'" "inorder T' = filter (\<lambda>y. key y \<noteq> key x) (inorder T)"
      using rberase_correct [OF T(1), of x] by blast
    then show ?thesis
      using T(2) item_map_filter [of key "key x" "inorder T"] filter_item_map [OF O]
      unfolding rb_rep_def by metis
  qed
  show "\<exists>xs. jsw_rbdelete t = Some (Map.empty, xs) \<and> distinct (map key xs) \<and> set xs = ran m"
    if "rb_rep t m" for t m
    using that rbdelete_correct
    by (auto simp: rb_rep_def rb_tree_def ran_item_map sorted_items_distinct)
qed

end
