(* ===== verification/Tree_Helper.thy ===== *)
theory Tree_Helper
  imports Rb_Map Pcl_Config
begin

text \<open>
  The items of the library's trees and their comparison and copy functions
  (\<^verbatim>\<open>persistence_client_library_tree_helper.c\<close> and \<^verbatim>\<open>.h\<close>), and the proof that each comparison
  function orders its items by a key, so that each kind of tree is an item store.
\<close>

section \<open>Items\<close>

record key_handle =
  ldbid :: "32 word"
  user_no :: "32 word"
  seat_no :: "32 word"
  resource_id :: string

record key_item =
  kkey :: int
  khandle :: key_handle

record file_handle =
  permission :: int
  backupCreated :: int
  cacheStatus :: int
  userId :: int
  backupPath :: string
  csumPath :: string
  filePath :: "string option"

record file_item =
  fkey :: int
  fhandle :: file_handle

record key_value =
  vkey :: "32 word"
  vvalue :: string

section \<open>Comparison and copy\<close>

definition fh_key_val_cmp :: "file_item \<Rightarrow> file_item \<Rightarrow> int" where
  "fh_key_val_cmp p1 p2 =
     (if fkey p2 = fkey p1 then 0 else if fkey p2 < fkey p1 then -1 else 1)"

definition fh_key_val_dup :: "file_item \<Rightarrow> file_item" where
  "fh_key_val_dup p = \<lparr>fkey = fkey p, fhandle = fhandle p\<rparr>"

definition kh_key_val_cmp :: "key_item \<Rightarrow> key_item \<Rightarrow> int" where
  "kh_key_val_cmp p1 p2 =
     (if kkey p2 = kkey p1 then 0 else if kkey p2 < kkey p1 then -1 else 1)"

definition kh_key_val_dup :: "key_item \<Rightarrow> key_item" where
  "kh_key_val_dup p = \<lparr>kkey = kkey p, khandle = khandle p\<rparr>"

definition key_val_cmp :: "key_value \<Rightarrow> key_value \<Rightarrow> int" where
  "key_val_cmp p1 p2 =
     (if vkey p2 = vkey p1 then 0 else if vkey p2 < vkey p1 then -1 else 1)"

definition key_val_dup :: "key_value \<Rightarrow> key_value" where
  "key_val_dup p = \<lparr>vkey = vkey p, vvalue = vvalue p\<rparr>"

section \<open>The trees are item stores\<close>

text \<open>
  The comparison functions order larger keys first: the tree compares the stored item with the
  sought one and goes right when the result is negative.
\<close>

lemma fh_dup [simp]: "fh_key_val_dup p = p"
  by (simp add: fh_key_val_dup_def)

lemma kh_dup [simp]: "kh_key_val_dup p = p"
  by (simp add: kh_key_val_dup_def)

lemma kv_dup [simp]: "key_val_dup p = p"
  by (simp add: key_val_dup_def)

interpretation fh: rb_item fh_key_val_cmp fh_key_val_dup "\<lambda>i. - fkey i"
  by unfold_locales (auto simp: fh_key_val_cmp_def)

interpretation kh: rb_item kh_key_val_cmp kh_key_val_dup "\<lambda>i. - kkey i"
  by unfold_locales (auto simp: kh_key_val_cmp_def)

interpretation kv: rb_item key_val_cmp key_val_dup "\<lambda>i. - uint (vkey i)"
  by unfold_locales (auto simp: key_val_cmp_def word_less_def word_uint_eq_iff)

end
