(* ===== verification/Crc32.thy ===== *)
theory Crc32
  imports Pcl_Prelude
begin

text \<open>
  The checksum of \<^verbatim>\<open>src/crc32.c\<close>, over 32-bit words: the table, the loop with its guard on the table
  index, and the bitwise CRC-32 it is an optimisation of.  The table is right in all its 256 places;
  the guard skips its last place, so that the function is the CRC-32 only on inputs that never reach
  that place.
\<close>

section \<open>The code\<close>

definition crc32_array_size :: "32 word" where
  "crc32_array_size = 255"

definition crc32_tab :: "32 word list" where
  "crc32_tab = [
   0x00000000, 0x77073096, 0xee0e612c, 0x990951ba, 0x076dc419, 0x706af48f, 0xe963a535, 0x9e6495a3,
   0x0edb8832, 0x79dcb8a4, 0xe0d5e91e, 0x97d2d988, 0x09b64c2b, 0x7eb17cbd, 0xe7b82d07, 0x90bf1d91,
   0x1db71064, 0x6ab020f2, 0xf3b97148, 0x84be41de, 0x1adad47d, 0x6ddde4eb, 0xf4d4b551, 0x83d385c7,
   0x136c9856, 0x646ba8c0, 0xfd62f97a, 0x8a65c9ec, 0x14015c4f, 0x63066cd9, 0xfa0f3d63, 0x8d080df5,
   0x3b6e20c8, 0x4c69105e, 0xd56041e4, 0xa2677172, 0x3c03e4d1, 0x4b04d447, 0xd20d85fd, 0xa50ab56b,
   0x35b5a8fa, 0x42b2986c, 0xdbbbc9d6, 0xacbcf940, 0x32d86ce3, 0x45df5c75, 0xdcd60dcf, 0xabd13d59,
   0x26d930ac, 0x51de003a, 0xc8d75180, 0xbfd06116, 0x21b4f4b5, 0x56b3c423, 0xcfba9599, 0xb8bda50f,
   0x2802b89e, 0x5f058808, 0xc60cd9b2, 0xb10be924, 0x2f6f7c87, 0x58684c11, 0xc1611dab, 0xb6662d3d,
   0x76dc4190, 0x01db7106, 0x98d220bc, 0xefd5102a, 0x71b18589, 0x06b6b51f, 0x9fbfe4a5, 0xe8b8d433,
   0x7807c9a2, 0x0f00f934, 0x9609a88e, 0xe10e9818, 0x7f6a0dbb, 0x086d3d2d, 0x91646c97, 0xe6635c01,
   0x6b6b51f4, 0x1c6c6162, 0x856530d8, 0xf262004e, 0x6c0695ed, 0x1b01a57b, 0x8208f4c1, 0xf50fc457,
   0x65b0d9c6, 0x12b7e950, 0x8bbeb8ea, 0xfcb9887c, 0x62dd1ddf, 0x15da2d49, 0x8cd37cf3, 0xfbd44c65,
   0x4db26158, 0x3ab551ce, 0xa3bc0074, 0xd4bb30e2, 0x4adfa541, 0x3dd895d7, 0xa4d1c46d, 0xd3d6f4fb,
   0x4369e96a, 0x346ed9fc, 0xad678846, 0xda60b8d0, 0x44042d73, 0x33031de5, 0xaa0a4c5f, 0xdd0d7cc9,
   0x5005713c, 0x270241aa, 0xbe0b1010, 0xc90c2086, 0x5768b525, 0x206f85b3, 0xb966d409, 0xce61e49f,
   0x5edef90e, 0x29d9c998, 0xb0d09822, 0xc7d7a8b4, 0x59b33d17, 0x2eb40d81, 0xb7bd5c3b, 0xc0ba6cad,
   0xedb88320, 0x9abfb3b6, 0x03b6e20c, 0x74b1d29a, 0xead54739, 0x9dd277af, 0x04db2615, 0x73dc1683,
   0xe3630b12, 0x94643b84, 0x0d6d6a3e, 0x7a6a5aa8, 0xe40ecf0b, 0x9309ff9d, 0x0a00ae27, 0x7d079eb1,
   0xf00f9344, 0x8708a3d2, 0x1e01f268, 0x6906c2fe, 0xf762575d, 0x806567cb, 0x196c3671, 0x6e6b06e7,
   0xfed41b76, 0x89d32be0, 0x10da7a5a, 0x67dd4acc, 0xf9b9df6f, 0x8ebeeff9, 0x17b7be43, 0x60b08ed5,
   0xd6d6a3e8, 0xa1d1937e, 0x38d8c2c4, 0x4fdff252, 0xd1bb67f1, 0xa6bc5767, 0x3fb506dd, 0x48b2364b,
   0xd80d2bda, 0xaf0a1b4c, 0x36034af6, 0x41047a60, 0xdf60efc3, 0xa867df55, 0x316e8eef, 0x4669be79,
   0xcb61b38c, 0xbc66831a, 0x256fd2a0, 0x5268e236, 0xcc0c7795, 0xbb0b4703, 0x220216b9, 0x5505262f,
   0xc5ba3bbe, 0xb2bd0b28, 0x2bb45a92, 0x5cb36a04, 0xc2d7ffa7, 0xb5d0cf31, 0x2cd99e8b, 0x5bdeae1d,
   0x9b64c2b0, 0xec63f226, 0x756aa39c, 0x026d930a, 0x9c0906a9, 0xeb0e363f, 0x72076785, 0x05005713,
   0x95bf4a82, 0xe2b87a14, 0x7bb12bae, 0x0cb61b38, 0x92d28e9b, 0xe5d5be0d, 0x7cdcefb7, 0x0bdbdf21,
   0x86d3d2d4, 0xf1d4e242, 0x68ddb3f8, 0x1fda836e, 0x81be16cd, 0xf6b9265b, 0x6fb077e1, 0x18b74777,
   0x88085ae6, 0xff0f6a70, 0x66063bca, 0x11010b5c, 0x8f659eff, 0xf862ae69, 0x616bffd3, 0x166ccf45,
   0xa00ae278, 0xd70dd2ee, 0x4e048354, 0x3903b3c2, 0xa7672661, 0xd06016f7, 0x4969474d, 0x3e6e77db,
   0xaed16a4a, 0xd9d65adc, 0x40df0b66, 0x37d83bf0, 0xa9bcae53, 0xdebb9ec5, 0x47b2cf7f, 0x30b5ffe9,
   0xbdbdf21c, 0xcabac28a, 0x53b39330, 0x24b4a3a6, 0xbad03605, 0xcdd70693, 0x54de5729, 0x23d967bf,
   0xb3667a2e, 0xc4614ab8, 0x5d681b02, 0x2a6f2b94, 0xb40bbe37, 0xc30c8ea1, 0x5a05df1b, 0x2d02ef8d]"

text \<open>One byte: \<^verbatim>\<open>idx\<close> is the place in the table; a place behind \<^verbatim>\<open>crc32_array_size\<close> is skipped.\<close>

definition crc32_index :: "32 word \<Rightarrow> 8 word \<Rightarrow> 32 word" where
  "crc32_index crc b = (crc XOR ucast b) AND 0xFF"

definition crc32_step :: "32 word \<Rightarrow> 8 word \<Rightarrow> 32 word" where
  "crc32_step crc b =
     (let idx = crc32_index crc b in
      if idx < crc32_array_size then crc32_tab ! unat idx XOR drop_bit 8 crc else crc)"

text \<open>The loop over \<^verbatim>\<open>theSize\<close> bytes; \<open>None\<close> is a read behind the end of the buffer.\<close>

fun crc32_loop :: "32 word \<Rightarrow> 8 word list \<Rightarrow> nat \<Rightarrow> 32 word option" where
  "crc32_loop crc p 0 = Some crc"
| "crc32_loop crc [] (Suc n) = None"
| "crc32_loop crc (b # p) (Suc n) = crc32_loop (crc32_step crc b) p n"

definition pclCrc32 :: "32 word \<Rightarrow> 8 word list option \<Rightarrow> nat \<Rightarrow> 32 word option" where
  "pclCrc32 crc buf theSize =
     (case buf of
        None \<Rightarrow> Some 0
      | Some p \<Rightarrow> map_option (\<lambda>c. c XOR NOT 0) (crc32_loop (crc XOR NOT 0) p theSize))"

section \<open>The specification\<close>

text \<open>The shift register: eight shift and xor steps with the reversed polynomial for each byte.\<close>

definition crc_bit :: "32 word \<Rightarrow> 32 word" where
  "crc_bit c = drop_bit 1 c XOR (if bit c 0 then 0xEDB88320 else 0)"

definition crc_byte :: "32 word \<Rightarrow> 8 word \<Rightarrow> 32 word" where
  "crc_byte c b = (crc_bit ^^ 8) (c XOR ucast b)"

definition crc_spec :: "32 word \<Rightarrow> 8 word list \<Rightarrow> 32 word" where
  "crc_spec crc bs = fold (\<lambda>b c. crc_byte c b) bs (crc XOR NOT 0) XOR NOT 0"

section \<open>The table\<close>

text \<open>The register is linear, so the table is spanned by its entries at powers of two.\<close>

lemma crc_bit_xor: "crc_bit (a XOR b) = crc_bit a XOR crc_bit b"
  by (simp add: crc_bit_def bit_xor_iff drop_bit_xor xor.assoc xor.left_commute)

lemma crc_bit_pow_xor: "(crc_bit ^^ n) (a XOR b) = (crc_bit ^^ n) a XOR (crc_bit ^^ n) b"
  by (induction n arbitrary: a b) (simp_all add: crc_bit_xor)

lemma crc_bit8:
  "(crc_bit ^^ 8) c = crc_bit (crc_bit (crc_bit (crc_bit (crc_bit (crc_bit (crc_bit (crc_bit c)))))))"
  by (simp add: eval_nat_numeral)

lemma crc_bit_powers:
  "(crc_bit ^^ 8) 0 = 0"
  "(crc_bit ^^ 8) (2 ^ 0) = 0x77073096"
  "(crc_bit ^^ 8) (2 ^ 1) = 0xee0e612c"
  "(crc_bit ^^ 8) (2 ^ 2) = 0x076dc419"
  "(crc_bit ^^ 8) (2 ^ 3) = 0x0edb8832"
  "(crc_bit ^^ 8) (2 ^ 4) = 0x1db71064"
  "(crc_bit ^^ 8) (2 ^ 5) = 0x3b6e20c8"
  "(crc_bit ^^ 8) (2 ^ 6) = 0x76dc4190"
  "(crc_bit ^^ 8) (2 ^ 7) = 0xedb88320"
  by (simp_all add: crc_bit_def crc_bit8)

definition double :: "32 word list \<Rightarrow> 32 word \<Rightarrow> 32 word list" where
  "double xs e = xs @ map (\<lambda>x. e XOR x) xs"

lemma crc32_tab_doubled:
  "crc32_tab = double (double (double (double (double (double (double (double [0]
     0x77073096) 0xee0e612c) 0x076dc419) 0x0edb8832) 0x1db71064) 0x3b6e20c8) 0x76dc4190) 0xedb88320"
  by (simp add: crc32_tab_def double_def)

lemma not_bit_less: "i < 2 ^ k \<Longrightarrow> \<not> bit (i :: nat) k"
  by (simp add: bit_iff_odd)

lemma map_double:
  assumes "k < 32"
  shows "map (\<lambda>i. (crc_bit ^^ 8) (of_nat i)) [0..<2 ^ Suc k] =
    double (map (\<lambda>i. (crc_bit ^^ 8) (of_nat i)) [0..<2 ^ k]) ((crc_bit ^^ 8) (2 ^ k))"
proof -
  have "(crc_bit ^^ 8) (of_nat (i + 2 ^ k)) = (crc_bit ^^ 8) (2 ^ k) XOR (crc_bit ^^ 8) (of_nat i)"
    if "i < 2 ^ k" for i
  proof -
    have "(2 ^ k :: 32 word) AND of_nat i = 0"
      using that by (intro bit_word_eqI) (auto simp: bit_simps not_bit_less)
    then have "(2 ^ k :: 32 word) + of_nat i = 2 ^ k XOR of_nat i"
      by (simp only: disjunctive_xor_eq_or disjunctive_add_eq_or)
    then have "(of_nat (i + 2 ^ k) :: 32 word) = 2 ^ k XOR of_nat i"
      by (simp add: add.commute)
    then show ?thesis
      by (simp only: crc_bit_pow_xor)
  qed
  moreover have "[0..<2 ^ Suc k] = [0..<2 ^ k] @ map (\<lambda>i. i + 2 ^ k) [0..<2 ^ k]"
    using upt_add_eq_append [of 0 "2 ^ k" "2 ^ k"] map_add_upt [of "2 ^ k" "2 ^ k"] by (simp add: mult_2)
  ultimately show ?thesis
    by (simp add: double_def)
qed

lemma crc32_tab_entries: "crc32_tab = map (\<lambda>i. (crc_bit ^^ 8) (of_nat i)) [0..<256]"
proof -
  define M where "M k = map (\<lambda>i. (crc_bit ^^ 8) (of_nat i :: 32 word)) [0..<2 ^ k]" for k :: nat
  have M: "M (Suc k) = double (M k) ((crc_bit ^^ 8) (2 ^ k))" if "k < 32" for k
    unfolding M_def by (rule map_double [OF that])
  have "M 0 = [0]"
    by (simp add: M_def crc_bit_powers)
  moreover have "M 1 = double (M 0) 0x77073096" "M 2 = double (M 1) 0xee0e612c"
    "M 3 = double (M 2) 0x076dc419" "M 4 = double (M 3) 0x0edb8832" "M 5 = double (M 4) 0x1db71064"
    "M 6 = double (M 5) 0x3b6e20c8" "M 7 = double (M 6) 0x76dc4190" "M 8 = double (M 7) 0xedb88320"
    using M [of 0] M [of 1] M [of 2] M [of 3] M [of 4] M [of 5] M [of 6] M [of 7]
    unfolding crc_bit_powers by (simp_all add: eval_nat_numeral)
  ultimately have "crc32_tab = M 8"
    by (simp only: crc32_tab_doubled)
  then show ?thesis
    by (simp add: M_def)
qed

section \<open>The loop\<close>

lemma crc_bit_high: "n \<le> 8 \<Longrightarrow> (crc_bit ^^ n) (w AND NOT (mask 8)) = drop_bit n (w AND NOT (mask 8))"
proof (induction n)
  case (Suc n)
  then have "\<not> bit (drop_bit n (w AND NOT (mask 8))) 0"
    by (simp add: bit_simps)
  then show ?case
    using Suc by (simp add: crc_bit_def del: drop_bit_and)
qed simp

lemma unat_low: "unat (w AND mask 8 :: 32 word) < 256"
proof -
  have "w AND mask 8 \<le> (mask 8 :: 32 word)"
    by (rule word_and_le1)
  then show ?thesis
    by (simp add: word_le_nat_alt mask_eq_exp_minus_1)
qed

lemma crc32_tab_lookup: "crc32_tab ! unat (w AND mask 8) = (crc_bit ^^ 8) (w AND mask 8)"
  using unat_low [of w] by (simp add: crc32_tab_entries)

lemma crc_byte_table: "(crc_bit ^^ 8) w = crc32_tab ! unat (w AND mask 8) XOR drop_bit 8 w"
proof -
  have w: "w = (w AND mask 8) XOR (w AND NOT (mask 8))"
    by (rule bit_word_eqI) (auto simp: bit_simps)
  have "drop_bit 8 (w AND NOT (mask 8)) = drop_bit 8 w"
    by (rule bit_word_eqI) (auto simp: bit_simps dest: bit_imp_le_length)
  then have "(crc_bit ^^ 8) (w AND NOT (mask 8)) = drop_bit 8 w"
    using crc_bit_high [of 8 w] by simp
  then show ?thesis
    using crc_bit_pow_xor [of 8 "w AND mask 8" "w AND NOT (mask 8)"]
    by (simp only: crc32_tab_lookup w [symmetric])
qed

lemma crc32_index_mask: "crc32_index c b = (c XOR ucast b) AND mask 8"
  by (simp add: crc32_index_def mask_eq_exp_minus_1)

lemma crc_byte_index: "crc_byte c b = crc32_tab ! unat (crc32_index c b) XOR drop_bit 8 c"
proof -
  have "drop_bit 8 (c XOR ucast b) = drop_bit 8 c"
    by (rule bit_word_eqI) (auto simp: bit_simps dest: bit_imp_le_length)
  then show ?thesis
    by (simp add: crc_byte_def crc_byte_table crc32_index_mask)
qed

lemma crc32_index_less: "crc32_index c b \<noteq> 255 \<Longrightarrow> crc32_index c b < 255"
  using unat_low [of "c XOR ucast b"]
  by (simp add: crc32_index_mask word_less_nat_alt unat_arith_simps)

lemma crc32_step_correct: "crc32_index c b \<noteq> 255 \<Longrightarrow> crc32_step c b = crc_byte c b"
  using crc32_index_less [of c b] by (simp add: crc32_step_def crc32_array_size_def crc_byte_index)

lemma crc32_step_skip: "crc32_index c b = 255 \<Longrightarrow> crc32_step c b = c"
  by (simp add: crc32_step_def crc32_array_size_def)

lemma crc32_step_zero: "crc32_step (-1) 0 = -1"
  by (rule crc32_step_skip) (simp add: crc32_index_def)

text \<open>The inputs on which the loop reaches the last place of the table.\<close>

fun crc_reaches_last :: "32 word \<Rightarrow> 8 word list \<Rightarrow> bool" where
  "crc_reaches_last c [] = False"
| "crc_reaches_last c (b # bs) = (crc32_index c b = 255 \<or> crc_reaches_last (crc_byte c b) bs)"

lemma crc32_loop_fold: "crc32_loop c bs (length bs) = Some (fold (\<lambda>b c. crc32_step c b) bs c)"
  by (induction bs arbitrary: c) auto

lemma crc32_fold_correct:
  "\<not> crc_reaches_last c bs \<Longrightarrow> fold (\<lambda>b c. crc32_step c b) bs c = fold (\<lambda>b c. crc_byte c b) bs c"
  by (induction bs arbitrary: c) (auto simp: crc32_step_correct)

lemma crc32_loop_overrun: "length bs < n \<Longrightarrow> crc32_loop c bs n = None"
  by (induction c bs n rule: crc32_loop.induct) auto

lemma crc32_loop_prefix: "n \<le> length bs \<Longrightarrow> crc32_loop c bs n = crc32_loop c (take n bs) n"
  by (induction c bs n rule: crc32_loop.induct) auto

lemma pclCrc32_fold:
  "pclCrc32 c (Some bs) (length bs) = Some (fold (\<lambda>b c. crc32_step c b) bs (c XOR NOT 0) XOR NOT 0)"
  by (simp add: pclCrc32_def crc32_loop_fold)

section \<open>What the checksum is\<close>

text \<open>
  Every entry of the code's table is the result of eight shift and xor steps of the CRC-32
  register, as the comment above the table promises, including the last one.
\<close>

lemma crc32_tab_is_crc: "i < 256 \<Longrightarrow> crc32_tab ! i = (crc_bit ^^ 8) (of_nat i)"
  by (simp add: crc32_tab_entries)

lemma crc32_tab_is_crc_witness: "crc32_tab ! 255 = (crc_bit ^^ 8) 255 \<and> crc32_tab ! 255 = 0x2d02ef8d"
  using crc32_tab_is_crc [of 255] by (simp add: crc32_tab_def)

text \<open>C40: the checksum is the CRC-32 of the buffer on every input on which the register never selects
  the last place of the table.\<close>

theorem pclCrc32_is_crc:
  assumes "\<not> crc_reaches_last (crc XOR NOT 0) bs"
  shows "pclCrc32 crc (Some bs) (length bs) = Some (crc_spec crc bs)"
  using assms by (simp add: pclCrc32_fold crc32_fold_correct crc_spec_def)

theorem pclCrc32_is_crc_witness: "pclCrc32 0 (Some [97]) 1 = Some (crc_spec 0 [97])"
  using pclCrc32_is_crc [of 0 "[97]"] by (simp add: crc32_index_def)

text \<open>
  On the other inputs a byte is dropped: leading zero bytes never change the checksum that the
  backups are compared by, so two files that differ in them are taken for equal.
\<close>

lemma pclCrc32_drops_zeros:
  "pclCrc32 0 (Some (replicate k 0 @ bs)) (k + length bs) = pclCrc32 0 (Some bs) (length bs)"
proof (induction k)
  case (Suc k)
  then show ?case
    using pclCrc32_fold [of 0 "replicate (Suc k) 0 @ bs"] pclCrc32_fold [of 0 "replicate k 0 @ bs"]
    by (simp add: crc32_step_zero)
qed simp

end
