(* ===== verification/Notify.thy ===== *)
theory Notify
  imports Db_Access Tree_Helper Crc32
begin

text \<open>
  Registration for change notifications (\<^verbatim>\<open>persistence_notify_on_change\<close> and \<^verbatim>\<open>deleteNotifyTree\<close> of
  \<^verbatim>\<open>persistence_client_library_db_access.c\<close>): a tree of the checksums of the registered keys and the
  one callback of the application.  Registering a key that the tree holds frees the item the tree still
  points to; \<open>notify_stale\<close> records that, and the next use of the tree is then undefined, \<open>None\<close>.
\<close>

section \<open>The code\<close>

record 'w notify_state = "'w pcl_state" +
  gNotificationTree :: "key_value jsw_rbtree option"
  notify_stale :: bool
  gChangeNotifyCallback :: "int option"

datatype reg_policy = Notify_register | Notify_unregister | Notify_lastEntry

fun policy_num :: "reg_policy \<Rightarrow> 32 word" where
  "policy_num Notify_register = 0"
| "policy_num Notify_unregister = 1"
| "policy_num Notify_lastEntry = 2"

definition key_val_tree_new :: "key_value jsw_rbtree" where
  "key_val_tree_new = jsw_rbnew key_val_cmp key_val_dup"

definition deleteNotifyTree :: "('w, 'x) notify_state_scheme \<Rightarrow> ('w, 'x) notify_state_scheme option" where
  "deleteNotifyTree s =
     (case gNotificationTree s of
        None \<Rightarrow> Some s
      | Some t \<Rightarrow>
          if notify_stale s then None
          else do { (h, rel) \<leftarrow> jsw_rbdelete t; Some (s\<lparr>gNotificationTree := None\<rparr>) })"

definition key_hash :: "string \<Rightarrow> 32 word option" where
  "key_hash key = pclCrc32 0 (Some (map of_char key)) (length key)"

definition reg_msg :: "'w env \<Rightarrow> string \<Rightarrow> db_context \<Rightarrow> reg_policy \<Rightarrow> main_msg" where
  "reg_msg E res c p =
     \<lparr>cmd = CMD_REG_NOTIFY_SIGNAL, param0 = ctx_ldbid c, param1 = ctx_user c, param2 = ctx_seat c,
      param3 = policy_num p, mstring = c_copy (key_name_len (e_pco E)) res\<rparr>"

text \<open>The change of the tree; \<open>item_ok\<close> and \<open>node_ok\<close> are the mallocs of an item and of a node.\<close>

definition notify_register ::
  "bool \<Rightarrow> bool \<Rightarrow> 32 word \<Rightarrow> int option \<Rightarrow> key_value jsw_rbtree \<Rightarrow> key_value option
    \<Rightarrow> ('w, 'x) notify_state_scheme \<Rightarrow> (int \<times> ('w, 'x) notify_state_scheme) option" where
  "notify_register item_ok node_ok hash callback t found s =
     (case found of
        None \<Rightarrow>
          if item_ok then
            do { (r, t) \<leftarrow> jsw_rbinsert node_ok t \<lparr>vkey = hash, vvalue = []\<rparr>;
                 Some (0, s\<lparr>gNotificationTree := Some t, gChangeNotifyCallback := callback\<rparr>) }
          else Some (-1, s)
      | Some _ \<Rightarrow> Some (0, s\<lparr>notify_stale := True\<rparr>))"

definition notify_unregister ::
  "key_value jsw_rbtree \<Rightarrow> key_value option
    \<Rightarrow> ('w, 'x) notify_state_scheme \<Rightarrow> (int \<times> ('w, 'x) notify_state_scheme) option" where
  "notify_unregister t found s =
     (case found of
        None \<Rightarrow> Some (0, s)
      | Some item \<Rightarrow>
          do { (r, t, rel) \<leftarrow> jsw_rberase t item;
               Some (0, s\<lparr>gNotificationTree := Some t,
                          gChangeNotifyCallback := if jsw_rbsize t = 0 then None else gChangeNotifyCallback s\<rparr>) })"

definition persistence_notify_on_change ::
  "'w env \<Rightarrow> bool \<Rightarrow> bool \<Rightarrow> bool \<Rightarrow> string \<Rightarrow> string \<Rightarrow> db_context \<Rightarrow> int option \<Rightarrow> reg_policy
    \<Rightarrow> ('w, 'x) notify_state_scheme \<Rightarrow> (int \<times> ('w, 'x) notify_state_scheme) option" where
  "persistence_notify_on_change E search_ok item_ok node_ok res dbKey c callback regPolicy s =
     (if policy_num regPolicy < 2 then
        do { hash \<leftarrow> key_hash dbKey;
             let t = (case gNotificationTree s of None \<Rightarrow> key_val_tree_new | Some t \<Rightarrow> t);
             let s = s\<lparr>gNotificationTree := Some t\<rparr>;
             if search_ok then
               if notify_stale s then None
               else do {
                 found \<leftarrow> jsw_rbfind t \<lparr>vkey = hash, vvalue = []\<rparr>;
                 (rval, s) \<leftarrow> (if regPolicy = Notify_register
                               then notify_register item_ok node_ok hash callback t found s
                               else notify_unregister t found s);
                 let (r, s) = deliverToMainloop (e_wr E) (reg_msg E res c regPolicy) s;
                 Some (if r = -1 then -1 else rval, s) }
             else Some (-1, s) }
      else Some (-1, s))"

section \<open>The set of registered checksums\<close>

definition notify_set :: "('w, 'x) notify_state_scheme \<Rightarrow> 32 word set \<Rightarrow> bool" where
  "notify_set s K \<longleftrightarrow> \<not> notify_stale s \<and>
     (case gNotificationTree s of
        None \<Rightarrow> K = {}
      | Some t \<Rightarrow> \<exists>T. kv.rb_tree t T \<and> vkey ` set (inorder T) = K \<and> tsize t = of_nat (card K))"

lemma key_hash_Some: "\<exists>h. key_hash k = Some h"
proof -
  have "\<exists>c'. crc32_loop c p (length p) = Some c'" for c p
    by (induction p arbitrary: c) auto
  from this [of _ "map of_char k"] show ?thesis
    by (simp add: key_hash_def pclCrc32_def)
qed


definition notify_tree :: "('w, 'x) notify_state_scheme \<Rightarrow> key_value jsw_rbtree" where
  "notify_tree s = (case gNotificationTree s of None \<Rightarrow> key_val_tree_new | Some t \<Rightarrow> t)"

lemma notify_set_tree:
  assumes "notify_set s K"
  obtains T where "kv.rb_tree (notify_tree s) T" "vkey ` set (inorder T) = K" "tsize (notify_tree s) = of_nat (card K)"
proof (cases "gNotificationTree s")
  case None
  then have "notify_tree s = key_val_tree_new" "K = {}"
    using assms by (simp_all add: notify_tree_def notify_set_def)
  then show thesis
    using that [of Lf] kv.rb_tree_empty by (simp add: key_val_tree_new_def jsw_rbnew_def)
next
  case (Some t)
  then show thesis
    using assms that by (auto simp: notify_tree_def notify_set_def)
qed

lemma hash_finite [simp]: "finite (K :: 32 word set)"
  by (rule finite_subset [OF subset_UNIV finite])

lemma hash_card: "card (K :: 32 word set) < 2 ^ 64"
proof -
  have "card K \<le> card (UNIV :: 32 word set)"
    by (intro card_mono) simp_all
  also have "\<dots> < 2 ^ 64"
    by (simp add: card_word)
  finally show ?thesis .
qed

lemma card_zero: "(of_nat (card (K :: 32 word set)) :: 64 word) = 0 \<longleftrightarrow> K = {}"
  using hash_card [of K] by (simp add: word_of_nat_eq_0_iff nat_dvd_not_less card_gt_0_iff dvd_imp_le)
    (metis card_0_eq dvd_0_right gr0I hash_finite nat_dvd_not_less)

lemma ins_item_set:
  "sorted_items key xs \<Longrightarrow> key d \<notin> key ` set xs \<Longrightarrow> set (ins_item key d xs) = insert d (set xs)"
  by (induction xs) auto

lemma notify_find:
  assumes "notify_set s K"
  shows "\<exists>f. jsw_rbfind (notify_tree s) \<lparr>vkey = h, vvalue = []\<rparr> = Some f \<and>
    (case f of None \<Rightarrow> h \<notin> K | Some y \<Rightarrow> vkey y = h \<and> h \<in> K)"
proof -
  obtain T where T: "kv.rb_tree (notify_tree s) T" "vkey ` set (inorder T) = K"
    using notify_set_tree [OF assms] by metis
  have f: "jsw_rbfind (notify_tree s) \<lparr>vkey = h, vvalue = []\<rparr> = Some (item_map (\<lambda>i. - uint (vkey i)) (inorder T) (- uint h))"
    using kv.rbfind_correct [OF T(1)] by simp
  show ?thesis
  proof (cases "item_map (\<lambda>i. - uint (vkey i)) (inorder T) (- uint h)")
    case None
    then have "h \<notin> K"
      using T(2) by (auto simp: item_map_None)
    with f None show ?thesis
      by simp
  next
    case (Some y)
    have "- uint (vkey y) = - uint h"
      using item_map_key [OF Some] by simp
    moreover have "h \<in> K"
      using Some T(2) item_map_None [of "\<lambda>i. - uint (vkey i)" "inorder T" "- uint h"]
      by (auto simp: word_uint_eq_iff)
    ultimately show ?thesis
      using f Some by (simp add: word_uint_eq_iff)
  qed
qed

lemma notify_insert:
  assumes "notify_set s K" "h \<notin> K"
  shows "\<exists>t. jsw_rbinsert True (notify_tree s) \<lparr>vkey = h, vvalue = []\<rparr> = Some (1, t) \<and>
    notify_set (s\<lparr>gNotificationTree := Some t\<rparr>) (insert h K)"
proof -
  define x where "x = \<lparr>vkey = h, vvalue = []\<rparr>"
  obtain T where T: "kv.rb_tree (notify_tree s) T" "vkey ` set (inorder T) = K"
    "tsize (notify_tree s) = of_nat (card K)"
    using notify_set_tree [OF assms(1)] by metis
  obtain t T' where t: "jsw_rbinsert True (notify_tree s) x = Some (1, t)" "kv.rb_tree t T'"
    "inorder T' = ins_item (\<lambda>i. - uint (vkey i)) (key_val_dup x) (inorder T)" "tsize t = tsize (notify_tree s) + 1"
    using kv.rbinsert_correct [OF T(1), of x] by blast
  have "- uint (vkey x) \<notin> (\<lambda>i. - uint (vkey i)) ` set (inorder T)"
    using T(2) assms(2) by (auto simp: x_def word_uint_eq_iff)
  moreover have "sorted_items (\<lambda>i. - uint (vkey i)) (inorder T)"
    using T(1) by (simp add: kv.rb_tree_def)
  ultimately have "set (inorder T') = insert x (set (inorder T))"
    using t(3) by (simp add: ins_item_set)
  then have "vkey ` set (inorder T') = insert h K"
    using T(2) by (simp add: x_def)
  moreover have "tsize t = of_nat (card (insert h K))"
    using t(4) T(3) assms(2) by simp
  ultimately show ?thesis
    using t(1,2) assms(1) unfolding x_def notify_set_def by auto
qed

lemma notify_erase:
  assumes "notify_set s K" "vkey y = h" "h \<in> K"
  shows "\<exists>t rel. jsw_rberase (notify_tree s) y = Some (1, t, rel) \<and>
    notify_set (s\<lparr>gNotificationTree := Some t\<rparr>) (K - {h}) \<and> (jsw_rbsize t = 0 \<longleftrightarrow> K = {h})"
proof -
  obtain T where T: "kv.rb_tree (notify_tree s) T" "vkey ` set (inorder T) = K"
    "tsize (notify_tree s) = of_nat (card K)"
    using notify_set_tree [OF assms(1)] by metis
  obtain t T' rel where t: "jsw_rberase (notify_tree s) y = Some (1, t, rel)" "kv.rb_tree t T'"
    "inorder T' = filter (\<lambda>z. - uint (vkey z) \<noteq> - uint (vkey y)) (inorder T)"
    "tsize t = (if T = Lf then tsize (notify_tree s) else tsize (notify_tree s) - 1)"
    using kv.rberase_correct [OF T(1), of y] by blast
  have "T \<noteq> Lf"
    using T(2) assms(3) by auto
  moreover have "vkey ` set (inorder T') = K - {h}"
    using t(3) T(2) assms(2) by (auto simp: word_uint_eq_iff)
  moreover have c: "card K = Suc (card (K - {h}))"
    using assms(3) by (metis card_Suc_Diff1 hash_finite)
  ultimately have "tsize t = of_nat (card (K - {h}))" "vkey ` set (inorder T') = K - {h}"
    using t(4) T(3) by simp_all
  moreover have "K - {h} = {} \<longleftrightarrow> K = {h}"
    using assms(3) by auto
  ultimately show ?thesis
    using t(1,2) assms(1) card_zero [of "K - {h}"] unfolding notify_set_def by (auto simp: jsw_rbsize_def)
qed

lemma notify_set_frame [simp]:
  "notify_set (s\<lparr>pipe := x\<rparr>) K = notify_set s K"
  "notify_set (s\<lparr>gChangeNotifyCallback := c\<rparr>) K = notify_set s K"
  "pipe (s\<lparr>gNotificationTree := t\<rparr>) = pipe s"
  by (simp_all add: notify_set_def)

section \<open>Registration\<close>

text \<open>
  C32: registering a key whose checksum is not registered adds exactly that checksum to the set of
  registered keys, makes the given function the application's callback, and queues one registration
  message with the resource and its context; with memory and the pipe available the result is 0.
\<close>

theorem notify_register_new:
  assumes "notify_set s K" "key_hash dbKey = Some h" "h \<notin> K" "e_wr E (pipe s)"
  shows "\<exists>s'. persistence_notify_on_change E True True True res dbKey c callback Notify_register s = Some (0, s') \<and>
    notify_set s' (insert h K) \<and> gChangeNotifyCallback s' = callback \<and>
    pipe s' = pipe s @ [reg_msg E res c Notify_register]"
proof -
  obtain t where t: "jsw_rbinsert True (notify_tree s) \<lparr>vkey = h, vvalue = []\<rparr> = Some (1, t)"
    "notify_set (s\<lparr>gNotificationTree := Some t\<rparr>) (insert h K)"
    using notify_insert [OF assms(1,3)] by blast
  have f: "jsw_rbfind (notify_tree s) \<lparr>vkey = h, vvalue = []\<rparr> = Some None"
    using notify_find [OF assms(1), of h] assms(3) by (auto split: option.splits)
  have st: "\<not> notify_stale s"
    using assms(1) by (simp add: notify_set_def)
  define s' where "s' = s\<lparr>gNotificationTree := Some t, gChangeNotifyCallback := callback,
    pipe := pipe s @ [reg_msg E res c Notify_register]\<rparr>"
  have "persistence_notify_on_change E True True True res dbKey c callback Notify_register s = Some (0, s')"
    using assms(2,4) t(1) f st
    by (simp add: persistence_notify_on_change_def notify_register_def deliverToMainloop_def
        deliverToMainloop_NM_def notify_tree_def s'_def Let_def)
  moreover have "notify_set s' (insert h K)"
    using t(2) by (simp add: s'_def notify_set_def)
  ultimately show ?thesis
    by (intro exI [of _ s']) (simp add: s'_def)
qed

text \<open>
  Unregistering a registered key takes exactly its checksum out of the set; the callback is
  removed when no registered key is left and kept otherwise, and unregistering a key that is not
  registered only queues the message.
\<close>

lemma notify_unregister_result:
  assumes "notify_set s K" "key_hash dbKey = Some h" "e_wr E (pipe s)"
  shows "\<exists>s'. persistence_notify_on_change E True True True res dbKey c callback Notify_unregister s = Some (0, s') \<and>
    notify_set s' (K - {h}) \<and> pipe s' = pipe s @ [reg_msg E res c Notify_unregister] \<and>
    gChangeNotifyCallback s' = (if K = {h} then None else gChangeNotifyCallback s)"
proof -
  have st: "\<not> notify_stale s"
    using assms(1) by (simp add: notify_set_def)
  obtain f where f: "jsw_rbfind (notify_tree s) \<lparr>vkey = h, vvalue = []\<rparr> = Some f"
    "case f of None \<Rightarrow> h \<notin> K | Some y \<Rightarrow> vkey y = h \<and> h \<in> K"
    using notify_find [OF assms(1), of h] by blast
  show ?thesis
  proof (cases f)
    case None
    define s' where "s' = s\<lparr>gNotificationTree := Some (notify_tree s), pipe := pipe s @ [reg_msg E res c Notify_unregister]\<rparr>"
    have "persistence_notify_on_change E True True True res dbKey c callback Notify_unregister s = Some (0, s')"
      using assms(2,3) f st None
      by (simp add: persistence_notify_on_change_def notify_unregister_def deliverToMainloop_def
          deliverToMainloop_NM_def notify_tree_def s'_def Let_def)
    moreover have "notify_set s' K"
    proof -
      obtain T where "kv.rb_tree (notify_tree s) T" "vkey ` set (inorder T) = K" "tsize (notify_tree s) = of_nat (card K)"
        using notify_set_tree [OF assms(1)] by metis
      then show ?thesis
        using st by (auto simp: s'_def notify_set_def)
    qed
    ultimately show ?thesis
      using f(2) None by (intro exI [of _ s']) (auto simp: s'_def)
  next
    case (Some y)
    then have y: "vkey y = h" "h \<in> K"
      using f(2) by simp_all
    obtain t rel where t: "jsw_rberase (notify_tree s) y = Some (1, t, rel)"
      "notify_set (s\<lparr>gNotificationTree := Some t\<rparr>) (K - {h})" "jsw_rbsize t = 0 \<longleftrightarrow> K = {h}"
      using notify_erase [OF assms(1) y] by blast
    define s' where "s' = s\<lparr>gNotificationTree := Some t,
      gChangeNotifyCallback := if K = {h} then None else gChangeNotifyCallback s,
      pipe := pipe s @ [reg_msg E res c Notify_unregister]\<rparr>"
    have "persistence_notify_on_change E True True True res dbKey c callback Notify_unregister s = Some (0, s')"
      using assms(2,3) f(1) st Some t(1,3)
      by (simp add: persistence_notify_on_change_def notify_unregister_def deliverToMainloop_def
          deliverToMainloop_NM_def notify_tree_def s'_def Let_def)
    moreover have "notify_set s' (K - {h})"
      using t(2) by (simp add: s'_def notify_set_def)
    ultimately show ?thesis
      by (intro exI [of _ s']) (simp add: s'_def)
  qed
qed


section \<open>Concrete runs\<close>

definition notify_0 :: "mem notify_state" where
  "notify_0 = \<lparr>pipe = [], gLockAccess = 0, prct = prct_init, gHandlesDB = (\<lambda>_ _. 0),
     gHandlesDBCreated = (\<lambda>_ _. 0), loader = loader_1, gNotificationTree = None, notify_stale = False,
     gChangeNotifyCallback = None\<rparr>"

lemma notify_0_set: "notify_set notify_0 {}" "e_wr env_1 (pipe notify_0)"
  by (simp_all add: notify_set_def notify_0_def env_1_def)

lemma notify_run:
  obtains h and s1 :: "mem notify_state" where "key_hash ''/Node/pos'' = Some h" "notify_set s1 {h}" "e_wr env_1 (pipe s1)"
    "gChangeNotifyCallback s1 = Some 7"
proof -
  obtain h where h: "key_hash ''/Node/pos'' = Some h"
    using key_hash_Some by blast
  obtain t where "notify_set (notify_0\<lparr>gNotificationTree := Some t\<rparr>) {h}"
    using notify_insert [OF notify_0_set(1), of h] by auto
  then have "notify_set (notify_0\<lparr>gNotificationTree := Some t, gChangeNotifyCallback := Some 7\<rparr>) {h}"
    by simp
  then show thesis
    by (rule that [OF h]) (simp_all add: notify_0_def env_1_def)
qed

theorem notify_register_new_witness:
  "\<exists>s' h. persistence_notify_on_change env_1 True True True ''pos'' ''/Node/pos'' ctx_1 (Some 7) Notify_register notify_0
      = Some (0, s') \<and> notify_set s' {h} \<and> gChangeNotifyCallback s' = Some 7"
proof -
  obtain h where "key_hash ''/Node/pos'' = Some h"
    using key_hash_Some by blast
  from notify_register_new [OF notify_0_set(1) this _ notify_0_set(2), of "''pos''" ctx_1 "Some 7"] show ?thesis
    by auto
qed

lemma notify_unregister_result_witness:
  "\<exists>(s :: mem notify_state) s'. gChangeNotifyCallback s = Some 7 \<and>
     persistence_notify_on_change env_1 True True True ''pos'' ''/Node/pos'' ctx_1 None Notify_unregister s = Some (0, s') \<and>
     notify_set s' {} \<and> gChangeNotifyCallback s' = None"
proof -
  obtain h and s :: "mem notify_state" where r: "key_hash ''/Node/pos'' = Some h" "notify_set s {h}" "e_wr env_1 (pipe s)"
    "gChangeNotifyCallback s = Some 7"
    by (rule notify_run)
  from notify_unregister_result [OF r(2,1,3), of "''pos''" ctx_1 None] r(4) show ?thesis
    by auto
qed


end
