(* ===== verification/Handle_Idx.thy ===== *)
theory Handle_Idx
  imports Pcl_Config
begin

text \<open>
  The allocation of handle numbers (\<^verbatim>\<open>get_persistence_handle_idx\<close>,
  \<^verbatim>\<open>set_persistence_handle_close_idx\<close> and \<^verbatim>\<open>close_all_persistence_handle\<close> of
  \<^verbatim>\<open>persistence_client_library_handle.c\<close>): a counter and a stack of returned numbers.  \<open>lock\<close> says
  whether the mutex could be taken.
\<close>

section \<open>The code\<close>

record handle_idx =
  gHandleIdx :: int
  gFreeHandleArray :: "int list"
  gFreeHandleIdxHead :: int

definition handle_idx_init :: handle_idx where
  "handle_idx_init = \<lparr>gHandleIdx = 1, gFreeHandleArray = replicate (nat MaxPersHandle) 0, gFreeHandleIdxHead = 0\<rparr>"

definition get_persistence_handle_idx :: "bool \<Rightarrow> handle_idx \<Rightarrow> int \<times> handle_idx" where
  "get_persistence_handle_idx lock s =
     (if lock then
        (if gFreeHandleIdxHead s > 0 \<and> gFreeHandleIdxHead s < MaxPersHandle then
           (gFreeHandleArray s ! nat (gFreeHandleIdxHead s - 1),
            s\<lparr>gFreeHandleIdxHead := gFreeHandleIdxHead s - 1\<rparr>)
         else if gHandleIdx s < MaxPersHandle - 1 then
           (gHandleIdx s, s\<lparr>gHandleIdx := gHandleIdx s + 1\<rparr>)
         else (EPERS_MAXHANDLE, s))
      else (0, s))"

definition set_persistence_handle_close_idx :: "bool \<Rightarrow> int \<Rightarrow> handle_idx \<Rightarrow> handle_idx" where
  "set_persistence_handle_close_idx lock handle s =
     (if lock \<and> gFreeHandleIdxHead s \<ge> 0 \<and> gFreeHandleIdxHead s < MaxPersHandle then
        s\<lparr>gFreeHandleArray := (gFreeHandleArray s)[nat (gFreeHandleIdxHead s) := handle],
          gFreeHandleIdxHead := gFreeHandleIdxHead s + 1\<rparr>
      else s)"

definition close_all_handle_idx :: "handle_idx \<Rightarrow> handle_idx" where
  "close_all_handle_idx s =
     s\<lparr>gFreeHandleArray := replicate (nat MaxPersHandle) 0, gHandleIdx := 1, gFreeHandleIdxHead := 0\<rparr>"

section \<open>The handles that are open\<close>

text \<open>
  The allocator as a state machine over the set of open handles: a handle is opened, an open handle
  is closed, or all handles are closed.
\<close>

inductive handle_step :: "handle_idx \<times> int set \<Rightarrow> handle_idx \<times> int set \<Rightarrow> bool" where
  step_open: "get_persistence_handle_idx True s = (h, s') \<Longrightarrow> h \<noteq> EPERS_MAXHANDLE \<Longrightarrow>
     handle_step (s, H) (s', insert h H)"
| step_full: "get_persistence_handle_idx True s = (EPERS_MAXHANDLE, s') \<Longrightarrow> handle_step (s, H) (s', H)"
| step_close: "h \<in> H \<Longrightarrow> set_persistence_handle_close_idx True h s = s' \<Longrightarrow>
     handle_step (s, H) (s', H - {h})"
| step_close_all: "close_all_handle_idx s = s' \<Longrightarrow> handle_step (s, H) (s', {})"

inductive_cases handle_stepE: "handle_step (s, H) (s', H')"

definition free_handles :: "handle_idx \<Rightarrow> int list" where
  "free_handles s = take (nat (gFreeHandleIdxHead s)) (gFreeHandleArray s)"

definition handle_inv :: "handle_idx \<times> int set \<Rightarrow> bool" where
  "handle_inv = (\<lambda>(s, H).
     length (gFreeHandleArray s) = nat MaxPersHandle \<and> 1 \<le> gHandleIdx s \<and> gHandleIdx s \<le> MaxPersHandle - 1 \<and>
     0 \<le> gFreeHandleIdxHead s \<and> nat (gFreeHandleIdxHead s) \<le> length (gFreeHandleArray s) \<and>
     distinct (free_handles s) \<and> set (free_handles s) \<inter> H = {} \<and>
     set (free_handles s) \<union> H = {1..<gHandleIdx s})"

lemma handle_inv_init: "handle_inv (handle_idx_init, {})"
  by (simp add: handle_inv_def handle_idx_init_def free_handles_def)

text \<open>The stack never holds more numbers than the counter has handed out.\<close>

lemma free_bound:
  assumes "handle_inv (s, H)"
  shows "gFreeHandleIdxHead s \<le> gHandleIdx s - 1 - int (card H)" "finite H" "gFreeHandleIdxHead s < MaxPersHandle"
proof -
  have I: "set (free_handles s) \<union> H = {1..<gHandleIdx s}" "set (free_handles s) \<inter> H = {}"
    "distinct (free_handles s)" "1 \<le> gHandleIdx s" "gHandleIdx s \<le> 511"
    using assms by (auto simp: handle_inv_def)
  show fin: "finite H"
    using I(1) by (metis finite_Un finite_atLeastLessThan_int)
  have "card (set (free_handles s)) + card H = card {1..<gHandleIdx s}"
    using I fin by (metis card_Un_disjoint List.finite_set)
  moreover have "card (set (free_handles s)) = nat (gFreeHandleIdxHead s)"
    using assms I(3) by (simp add: distinct_card free_handles_def handle_inv_def min_absorb2)
  ultimately show "gFreeHandleIdxHead s \<le> gHandleIdx s - 1 - int (card H)"
    using assms I(4) by (simp add: handle_inv_def)
  then show "gFreeHandleIdxHead s < MaxPersHandle"
    using I(5) by linarith
qed

lemma free_pop:
  assumes "handle_inv (s, H)" and "0 < gFreeHandleIdxHead s"
  shows "free_handles s = free_handles (s\<lparr>gFreeHandleIdxHead := gFreeHandleIdxHead s - 1\<rparr>) @
    [gFreeHandleArray s ! nat (gFreeHandleIdxHead s - 1)]"
proof -
  have "nat (gFreeHandleIdxHead s) = Suc (nat (gFreeHandleIdxHead s - 1))"
    using assms(2) by linarith
  then show ?thesis
    using assms by (simp add: free_handles_def take_Suc_conv_app_nth handle_inv_def)
qed

lemma free_push:
  assumes "handle_inv (s, H)" and "s' = set_persistence_handle_close_idx True h s"
  shows "free_handles s' = free_handles s @ [h]" "gHandleIdx s' = gHandleIdx s"
    "length (gFreeHandleArray s') = length (gFreeHandleArray s)"
    "gFreeHandleIdxHead s' = gFreeHandleIdxHead s + 1"
proof -
  have b: "gFreeHandleIdxHead s < MaxPersHandle" "0 \<le> gFreeHandleIdxHead s"
    "length (gFreeHandleArray s) = 512"
    using free_bound(3) [OF assms(1)] assms(1) by (auto simp: handle_inv_def)
  then have "nat (gFreeHandleIdxHead s + 1) = Suc (nat (gFreeHandleIdxHead s))"
    by linarith
  then show "free_handles s' = free_handles s @ [h]"
    using b by (simp add: assms(2) set_persistence_handle_close_idx_def free_handles_def
        take_Suc_conv_app_nth)
  show "gHandleIdx s' = gHandleIdx s" "length (gFreeHandleArray s') = length (gFreeHandleArray s)"
    "gFreeHandleIdxHead s' = gFreeHandleIdxHead s + 1"
    using b by (simp_all add: assms(2) set_persistence_handle_close_idx_def)
qed

lemma open_cases:
  assumes I: "handle_inv (s, H)" and G: "get_persistence_handle_idx True s = (h, s')"
  shows "(h = EPERS_MAXHANDLE \<and> s' = s \<and> H = {1..<MaxPersHandle - 1}) \<or>
    (h \<in> {1..<MaxPersHandle - 1} \<and> h \<notin> H \<and> handle_inv (s', insert h H))"
proof (cases "gFreeHandleIdxHead s > 0")
  case True
  then have s': "s' = s\<lparr>gFreeHandleIdxHead := gFreeHandleIdxHead s - 1\<rparr>"
    and h: "h = gFreeHandleArray s ! nat (gFreeHandleIdxHead s - 1)"
    using G free_bound(3) [OF I] by (auto simp: get_persistence_handle_idx_def)
  have f: "free_handles s = free_handles s' @ [h]"
    using free_pop [OF I True] by (simp only: s' h)
  have "set (free_handles s) \<union> H = {1..<gHandleIdx s}" "set (free_handles s) \<inter> H = {}"
    using I by (simp_all add: handle_inv_def)
  then have "h \<in> {1..<gHandleIdx s}" "h \<notin> H"
    unfolding f by auto
  moreover have "handle_inv (s', insert h H)"
    using I True by (auto simp: handle_inv_def f) (auto simp: s')
  ultimately show ?thesis
    using I by (auto simp: handle_inv_def)
next
  case False
  then have z: "free_handles s = []" "gFreeHandleIdxHead s = 0"
    using I by (auto simp: handle_inv_def free_handles_def)
  then have H: "H = {1..<gHandleIdx s}"
    using I by (simp add: handle_inv_def)
  show ?thesis
  proof (cases "gHandleIdx s < MaxPersHandle - 1")
    case True
    then have h: "h = gHandleIdx s" "s' = s\<lparr>gHandleIdx := gHandleIdx s + 1\<rparr>"
      using G z by (auto simp: get_persistence_handle_idx_def)
    then show ?thesis
      using I True z by (auto simp: handle_inv_def H free_handles_def)
  next
    case False
    then show ?thesis
      using G z I by (auto simp: get_persistence_handle_idx_def H handle_inv_def)
  qed
qed

lemma handle_step_inv: "handle_step (s, H) (s', H') \<Longrightarrow> handle_inv (s, H) \<Longrightarrow> handle_inv (s', H')"
proof (erule handle_stepE)
  fix h assume "handle_inv (s, H)" "h \<in> H" "set_persistence_handle_close_idx True h s = s'" "H' = H - {h}"
  then show "handle_inv (s', H')"
    using free_push [of s H s' h] free_bound(3) [of s H] by (auto simp: handle_inv_def)
next
  assume "close_all_handle_idx s = s'" "H' = {}"
  then show "handle_inv (s', H')"
    by (auto simp: handle_inv_def close_all_handle_idx_def free_handles_def)
qed (use open_cases in fastforce)+

interpretation alloc: state_machine "(handle_idx_init, {})" handle_step handle_inv
proof
  show "handle_step x y \<Longrightarrow> handle_inv x \<Longrightarrow> handle_inv y" for x y
    by (cases x; cases y) (auto intro: handle_step_inv)
qed (rule handle_inv_init)

section \<open>Properties\<close>

text \<open>C31: a handle that is opened is not open already and is in the range of handle numbers, and the
  allocator only refuses when all 510 handle numbers are open.\<close>

theorem handle_fresh:
  assumes "handle_step\<^sup>*\<^sup>* (handle_idx_init, {}) (s, H)" and "get_persistence_handle_idx True s = (h, s')"
  shows "if h = EPERS_MAXHANDLE then H = {1..<MaxPersHandle - 1} else h \<notin> H \<and> 1 \<le> h \<and> h < MaxPersHandle - 1"
  using open_cases [OF alloc.good_reachable [OF assms(1)] assms(2)] by auto

theorem handle_fresh_witness:
  "\<exists>s'. get_persistence_handle_idx True handle_idx_init = (1, s') \<and> 1 \<notin> ({} :: int set)"
proof -
  have "\<exists>s'. get_persistence_handle_idx True handle_idx_init = (1, s')"
    by (simp add: get_persistence_handle_idx_def handle_idx_init_def)
  then obtain s' where s': "get_persistence_handle_idx True handle_idx_init = (1, s')" ..
  then show ?thesis
    using handle_fresh [OF rtranclp.rtrancl_refl s'] by auto
qed

text \<open>
  A handle that is closed is the next one to be opened, so closing and opening again never runs
  out of handle numbers.
\<close>

lemma handle_reuse:
  assumes "handle_step\<^sup>*\<^sup>* (handle_idx_init, {}) (s, H)" and "h \<in> H"
  shows "get_persistence_handle_idx True (set_persistence_handle_close_idx True h s) = (h, s\<lparr>gFreeHandleArray :=
     (gFreeHandleArray s)[nat (gFreeHandleIdxHead s) := h]\<rparr>)"
proof -
  have I: "handle_inv (s, H)"
    by (rule alloc.good_reachable [OF assms(1)])
  have "0 < card H"
    using free_bound(2) [OF I] assms(2) by (auto simp: card_gt_0_iff)
  then show ?thesis
    using free_bound(1) [OF I] I
    by (auto simp: get_persistence_handle_idx_def set_persistence_handle_close_idx_def handle_inv_def)
qed

lemma handle_reuse_witness:
  "fst (get_persistence_handle_idx True
     (set_persistence_handle_close_idx True 1 (snd (get_persistence_handle_idx True handle_idx_init)))) = 1"
proof -
  have "handle_step (handle_idx_init, {}) (snd (get_persistence_handle_idx True handle_idx_init), insert 1 {})"
    by (rule step_open) (simp_all add: get_persistence_handle_idx_def handle_idx_init_def)
  then show ?thesis
    using handle_reuse [of "snd (get_persistence_handle_idx True handle_idx_init)" "{1}" 1]
    by (simp add: r_into_rtranclp)
qed

end
