(* ===== verification/Key_Handles.thy ===== *)
theory Key_Handles
  imports Tree_Helper
begin

text \<open>
  The table of open key handles (\<^verbatim>\<open>gKeyHandleTree\<close> in
  \<^verbatim>\<open>persistence_client_library_handle.c\<close>): a tree that is created on the first access.  \<open>None\<close> for
  the tree is the NULL pointer; \<open>None\<close> for a result is a memory fault.
\<close>

section \<open>The code\<close>

text \<open>What the environment answers in a call: the mutex, the mallocs of the call, the malloc of a
  tree node, and what fresh memory holds.\<close>

record 'j hcall =
  lock_ok :: bool
  item_ok :: bool
  new_ok :: bool
  node_ok :: bool
  junk :: 'j

type_synonym key_tree = "key_item jsw_rbtree option"

definition key_tree_new :: "key_item jsw_rbtree" where
  "key_tree_new = jsw_rbnew kh_key_val_cmp kh_key_val_dup"

definition set_key_handle_data ::
    "pco \<Rightarrow> key_handle hcall \<Rightarrow> key_tree \<Rightarrow> int \<Rightarrow> string \<Rightarrow> 32 word \<Rightarrow> 32 word \<Rightarrow> 32 word \<Rightarrow>
     (int \<times> key_tree) option" where
  "set_key_handle_data P e t idx rid ldb user seat =
     (if lock_ok e then
        do { let tree = (case t of None \<Rightarrow> key_tree_new | Some tree \<Rightarrow> tree);
             if item_ok e then
               do { let item = \<lparr>kkey = idx, khandle = \<lparr>ldbid = ldb, user_no = user, seat_no = seat,
                                  resource_id = c_copy (key_name_len P) rid\<rparr>\<rparr>;
                    (r, tree) \<leftarrow> jsw_rbinsert (node_ok e) tree item;
                    Some (idx, Some tree) }
             else Some (-1, Some tree) }
      else Some (-1, t))"

text \<open>The result is the return value and the handle data written to the caller's structure.\<close>

definition get_key_handle_data ::
    "pco \<Rightarrow> key_handle hcall \<Rightarrow> key_tree \<Rightarrow> int \<Rightarrow> (int \<times> key_handle option) option" where
  "get_key_handle_data P e t idx =
     (if lock_ok e then
        (case t of
           None \<Rightarrow> Some (-1, None)
         | Some tree \<Rightarrow>
             if item_ok e then
               do { found \<leftarrow> jsw_rbfind tree \<lparr>kkey = idx, khandle = junk e\<rparr>;
                    case found of
                      None \<Rightarrow> Some (-1, None)
                    | Some it \<Rightarrow> Some (0, Some ((khandle it)\<lparr>resource_id :=
                        c_copy (key_name_len P) (resource_id (khandle it))\<rparr>)) }
             else Some (-1, None))
      else Some (-1, None))"

definition init_key_handle_array :: "key_handle hcall \<Rightarrow> key_tree \<Rightarrow> key_tree option" where
  "init_key_handle_array e t =
     (if lock_ok e then
        do { (case t of None \<Rightarrow> Some () | Some tree \<Rightarrow> map_option (\<lambda>_. ()) (jsw_rbdelete tree));
             Some (Some key_tree_new) }
      else Some t)"

definition clear_key_handle_array :: "key_handle hcall \<Rightarrow> key_tree \<Rightarrow> int \<Rightarrow> key_tree option" where
  "clear_key_handle_array e t idx =
     (if lock_ok e then
        (case t of
           None \<Rightarrow> Some None
         | Some tree \<Rightarrow>
             if item_ok e then
               do { (r, tree, rel) \<leftarrow> jsw_rberase tree \<lparr>kkey = idx, khandle = junk e\<rparr>;
                    Some (Some tree) }
             else Some t)
      else Some t)"

section \<open>The table the tree stands for\<close>

definition key_table :: "key_tree \<Rightarrow> (int \<rightharpoonup> key_handle) \<Rightarrow> bool" where
  "key_table t m \<longleftrightarrow>
     (case t of
        None \<Rightarrow> m = Map.empty
      | Some tree \<Rightarrow> \<exists>m'. kh.rb_rep tree m' \<and> m = (\<lambda>i. map_option khandle (m' (- i))))"

definition all_ok :: "'j \<Rightarrow> 'j hcall" where
  "all_ok j = \<lparr>lock_ok = True, item_ok = True, new_ok = True, node_ok = True, junk = j\<rparr>"

lemma all_ok_simps [simp]:
  "lock_ok (all_ok j)" "item_ok (all_ok j)" "new_ok (all_ok j)" "node_ok (all_ok j)" "junk (all_ok j) = j"
  by (simp_all add: all_ok_def)

lemma key_table_None [simp]: "key_table None m \<longleftrightarrow> m = Map.empty"
  by (simp add: key_table_def)

lemma key_table_new: "key_table (Some key_tree_new) Map.empty"
  using kh.store.rep_new by (auto simp: key_table_def key_tree_new_def)

lemma key_table_some:
  assumes "key_table t m"
  shows "\<exists>m'. kh.rb_rep (case t of None \<Rightarrow> key_tree_new | Some tree \<Rightarrow> tree) m' \<and>
    m = (\<lambda>i. map_option khandle (m' (- i)))"
  using assms kh.store.rep_new by (cases t) (auto simp: key_table_def key_tree_new_def)

lemma map_neg_upd: "(\<lambda>i. map_option f ((m(- k := v)) (- i))) = (\<lambda>i. map_option f (m (- i)))(k := map_option f v)"
  for k :: int
  by (auto simp: fun_eq_iff)

lemma set_key_table:
  assumes "key_table t m"
  shows "\<exists>t'. set_key_handle_data P (all_ok j) t idx rid ldb user seat = Some (idx, t') \<and>
    key_table t' (if m idx = None
      then m(idx \<mapsto> \<lparr>ldbid = ldb, user_no = user, seat_no = seat, resource_id = c_copy (key_name_len P) rid\<rparr>)
      else m)"
proof -
  define item where "item = \<lparr>kkey = idx, khandle = \<lparr>ldbid = ldb, user_no = user, seat_no = seat,
    resource_id = c_copy (key_name_len P) rid\<rparr>\<rparr>"
  have k: "kkey item = idx"
    by (simp add: item_def)
  define tree where "tree = (case t of None \<Rightarrow> key_tree_new | Some tree \<Rightarrow> tree)"
  obtain m' where m': "kh.rb_rep tree m'" "m = (\<lambda>i. map_option khandle (m' (- i)))"
    using key_table_some [OF assms] by (auto simp: tree_def)
  obtain tree' where t': "jsw_rbinsert True tree item = Some (1, tree')"
    "kh.rb_rep tree' (if m' (- idx) = None then m'(- idx \<mapsto> item) else m')"
    using kh.store.ins_rep [OF m'(1), of item] unfolding kh_dup k by blast
  have s: "set_key_handle_data P (all_ok j) t idx rid ldb user seat = Some (idx, Some tree')"
    using t'(1) by (simp add: set_key_handle_data_def item_def tree_def Let_def)
  show ?thesis
  proof (cases "m idx = None")
    case True
    then have "m' (- idx) = None"
      by (simp add: m'(2))
    then have "key_table (Some tree') (\<lambda>i. map_option khandle ((m'(- idx := Some item)) (- i)))"
      using t'(2) unfolding key_table_def by auto
    then show ?thesis
      using s True unfolding map_neg_upd by (simp add: m'(2) item_def)
  next
    case False
    then have "key_table (Some tree') m"
      using t'(2) unfolding key_table_def m'(2) by auto
    then show ?thesis
      using s False by auto
  qed
qed

lemma get_key_table:
  assumes "key_table t m"
  shows "get_key_handle_data P (all_ok j) t idx =
    Some (case m idx of None \<Rightarrow> (-1, None)
          | Some k \<Rightarrow> (0, Some (k\<lparr>resource_id := c_copy (key_name_len P) (resource_id k)\<rparr>)))"
proof (cases t)
  case None
  then show ?thesis
    using assms by (simp add: get_key_handle_data_def)
next
  case (Some tree)
  then obtain m' where m': "kh.rb_rep tree m'" "m = (\<lambda>i. map_option khandle (m' (- i)))"
    using assms by (auto simp: key_table_def)
  then show ?thesis
    using kh.store.find_rep [OF m'(1), of "\<lparr>kkey = idx, khandle = j\<rparr>"]
    by (cases "m' (- idx)") (simp_all add: Some get_key_handle_data_def)
qed

lemma clear_key_table:
  assumes "key_table t m"
  shows "\<exists>t'. clear_key_handle_array (all_ok j) t idx = Some t' \<and> key_table t' (m(idx := None))"
proof (cases t)
  case None
  then show ?thesis
    using assms by (simp add: clear_key_handle_array_def)
next
  case (Some tree)
  then obtain m' where m': "kh.rb_rep tree m'" "m = (\<lambda>i. map_option khandle (m' (- i)))"
    using assms by (auto simp: key_table_def)
  obtain tree' where t': "jsw_rberase tree \<lparr>kkey = idx, khandle = j\<rparr> =
      Some (1, tree', case m' (- idx) of None \<Rightarrow> [] | Some y \<Rightarrow> [y])"
    "kh.rb_rep tree' (m'(- idx := None))"
    using kh.store.era_rep [OF m'(1), of "\<lparr>kkey = idx, khandle = j\<rparr>"] by auto
  have "key_table (Some tree') (\<lambda>i. map_option khandle ((m'(- idx := None)) (- i)))"
    using t'(2) unfolding key_table_def by auto
  then show ?thesis
    using t'(1) unfolding map_neg_upd by (simp add: Some clear_key_handle_array_def m'(2))
qed

lemma init_key_table:
  assumes "key_table t m"
  shows "init_key_handle_array (all_ok j) t = Some (Some key_tree_new)"
proof (cases t)
  case (Some tree)
  then obtain m' where "kh.rb_rep tree m'"
    using assms by (auto simp: key_table_def)
  then show ?thesis
    using kh.store.del_rep by (fastforce simp: Some init_key_handle_array_def)
qed (simp add: init_key_handle_array_def)

section \<open>Properties\<close>

text \<open>After a key handle has been stored under a free number, looking that number up gives the
  database context and the resource name, cut to the length of the name array, and every other
  handle is as before.\<close>

lemma key_handle_roundtrip:
  assumes "key_table t m" and "m idx = None"
  shows "\<exists>t'. set_key_handle_data P (all_ok j) t idx rid ldb user seat = Some (idx, t') \<and>
    (\<forall>i. get_key_handle_data P (all_ok j) t' i =
       (if i = idx then Some (0, Some \<lparr>ldbid = ldb, user_no = user, seat_no = seat,
                                 resource_id = c_copy (key_name_len P) rid\<rparr>)
        else get_key_handle_data P (all_ok j) t i))"
proof -
  obtain t' where "set_key_handle_data P (all_ok j) t idx rid ldb user seat = Some (idx, t')"
    "key_table t' (m(idx \<mapsto> \<lparr>ldbid = ldb, user_no = user, seat_no = seat, resource_id = c_copy (key_name_len P) rid\<rparr>))"
    using set_key_table [OF assms(1)] assms(2) by fastforce
  then show ?thesis
    using get_key_table [OF assms(1)] get_key_table by (intro exI [of _ t']) simp
qed

lemma key_handle_roundtrip_witness:
  "\<exists>t'. set_key_handle_data pco_1 (all_ok undefined) None 7 ''pos'' 0x20 1 2 = Some (7, t') \<and>
    get_key_handle_data pco_1 (all_ok undefined) t' 7 =
      Some (0, Some \<lparr>ldbid = 0x20, user_no = 1, seat_no = 2, resource_id = ''pos''\<rparr>)"
  using key_handle_roundtrip [of None Map.empty 7 pco_1 undefined "''pos''" "0x20" 1 2]
  by (auto simp: pco_1_def)

end
