(* ===== verification/Key_Api.thy ===== *)
theory Key_Api
  imports Notify Handle_Idx Key_Handles
begin

text \<open>
  The key interface of the library (\<^verbatim>\<open>persistence_client_library_key.c\<close>): reading, writing, sizing and
  deleting a key, by name or through a handle, and registration for its changes.  The mutexes, the
  memory and what the configuration structure on the stack holds before it is filled are the fields
  of \<open>call_env\<close>, the answers of the environment during a call.
\<close>

section \<open>State and environment\<close>

record 'w key_state = "'w notify_state" +
  gPclInitCounter :: "32 word"
  handle_nums :: handle_idx
  gKeyHandleTree :: key_tree

record call_env =
  c_handle_lock :: bool
  c_key_lock :: bool
  c_idx_lock :: bool
  c_tree :: "key_handle hcall"
  c_config :: config_key
  c_search_ok :: bool
  c_item_ok :: bool
  c_node_ok :: bool

definition key_info :: "call_env \<Rightarrow> 32 word \<Rightarrow> 32 word \<Rightarrow> 32 word \<Rightarrow> pers_info" where
  "key_info C ldb user seat =
     \<lparr>dbctx = \<lparr>ctx_ldbid = ldb, ctx_user = user, ctx_seat = seat\<rparr>, configKey = c_config C\<rparr>"

text \<open>The context lookup of every function below.\<close>

definition key_context ::
  "'w env \<Rightarrow> call_env \<Rightarrow> 32 word \<Rightarrow> string \<Rightarrow> 32 word \<Rightarrow> 32 word \<Rightarrow> ('w, 'x) pcl_state_scheme \<Rightarrow> 'w
    \<Rightarrow> (db_ctx_result \<times> ('w, 'x) pcl_state_scheme \<times> 'w) option" where
  "key_context E C ldb rid user seat s w =
     map_option (\<lambda>(x, p, w). (x, s\<lparr>prct := p\<rparr>, w))
       (get_db_context (e_pco E) (names_of s) (e_app E) (rct_of s) (key_info C ldb user seat) rid False (prct s) w)"

abbreviation res_config :: "db_ctx_result \<Rightarrow> config_key" where
  "res_config x \<equiv> configKey (res_info x)"

definition is_key_resource :: "'w env \<Rightarrow> db_ctx_result \<Rightarrow> bool" where
  "is_key_resource E x \<longleftrightarrow> res_rval x \<ge> 0 \<and> ctype (res_config x) = type_key (e_pco E)"

section \<open>Functions by name\<close>

definition pclKeyDelete ::
  "'w env \<Rightarrow> call_env \<Rightarrow> 32 word \<Rightarrow> string \<Rightarrow> 32 word \<Rightarrow> 32 word
    \<Rightarrow> ('w, 'x) key_state_scheme \<Rightarrow> 'w \<Rightarrow> (int \<times> ('w, 'x) key_state_scheme \<times> 'w) option" where
  "pclKeyDelete E C ldb rid user seat s w =
     (if gPclInitCounter s > 0 \<and> c_key_lock C then
        if isAccessLocked s \<noteq> 1 then
          do { (x, s, w) \<leftarrow> key_context E C ldb rid user seat s w;
               if is_key_resource E x then
                 if cstorage (res_config x) < storage_last (e_pco E)
                 then persistence_delete_data E (res_path x) (res_key x) rid (res_info x) s w
                 else Some (EPERS_BADPOL, s, w)
               else Some (res_rval x, s, w) }
        else Some (EPERS_LOCKFS, s, w)
      else Some (EPERS_NOT_INITIALIZED, s, w))"

definition pclKeyGetSize ::
  "'w env \<Rightarrow> call_env \<Rightarrow> 32 word \<Rightarrow> string \<Rightarrow> 32 word \<Rightarrow> 32 word
    \<Rightarrow> ('w, 'x) key_state_scheme \<Rightarrow> 'w \<Rightarrow> (int \<times> ('w, 'x) key_state_scheme \<times> 'w) option" where
  "pclKeyGetSize E C ldb rid user seat s w =
     (if gPclInitCounter s > 0 \<and> c_key_lock C then
        do { (x, s, w) \<leftarrow> key_context E C ldb rid user seat s w;
             if is_key_resource E x then
               if cstorage (res_config x) < storage_last (e_pco E)
               then persistence_get_data_size E (res_path x) (res_key x) rid (res_info x) s w
               else Some (EPERS_BADPOL, s, w)
             else Some (EPERS_BADPOL, s, w) }
      else Some (EPERS_NOT_INITIALIZED, s, w))"

definition pclKeyReadData ::
  "'w env \<Rightarrow> call_env \<Rightarrow> 32 word \<Rightarrow> string \<Rightarrow> 32 word \<Rightarrow> 32 word \<Rightarrow> byte_buf \<Rightarrow> int
    \<Rightarrow> ('w, 'x) key_state_scheme \<Rightarrow> 'w \<Rightarrow> (int \<times> byte_buf \<times> ('w, 'x) key_state_scheme \<times> 'w) option" where
  "pclKeyReadData E C ldb rid user seat buf n s w =
     (if gPclInitCounter s > 0 \<and> c_key_lock C then
        if isAccessLocked s \<noteq> 1 then
          do { (x, s, w) \<leftarrow> key_context E C ldb rid user seat s w;
               if is_key_resource E x then
                 if cstorage (res_config x) < storage_last (e_pco E)
                 then persistence_get_data E (res_path x) (res_key x) rid (res_info x) buf n s w
                 else Some (EPERS_BADPOL, buf, s, w)
               else Some (res_rval x, buf, s, w) }
        else Some (EPERS_LOCKFS, buf, s, w)
      else Some (EPERS_NOT_INITIALIZED, buf, s, w))"

definition responsible :: "'w env \<Rightarrow> config_key \<Rightarrow> bool" where
  "responsible E c \<longleftrightarrow> strn_eq (resp_len (e_pco E)) (cstr (creponsible c)) (e_app E)"

definition pclKeyWriteData ::
  "'w env \<Rightarrow> call_env \<Rightarrow> 32 word \<Rightarrow> string \<Rightarrow> 32 word \<Rightarrow> 32 word \<Rightarrow> byte_buf \<Rightarrow> int
    \<Rightarrow> ('w, 'x) key_state_scheme \<Rightarrow> 'w \<Rightarrow> (int \<times> ('w, 'x) key_state_scheme \<times> 'w) option" where
  "pclKeyWriteData E C ldb rid user seat buf n s w =
     (if gPclInitCounter s > 0 \<and> c_key_lock C then
        if isAccessLocked s \<noteq> 1 then
          if n \<le> max_key_data (e_pco E) then
            do { (x, s, w) \<leftarrow> key_context E C ldb rid user seat s w;
                 if is_key_resource E x then
                   if cpermission (res_config x) \<noteq> perm_ro (e_pco E) then
                     if cstorage (res_config x) < storage_last (e_pco E) then
                       if cstorage (res_config x) = storage_shared (e_pco E) \<and> \<not> responsible E (res_config x)
                       then Some (EPERS_NOT_RESP_APP, s, w)
                       else persistence_set_data E (res_path x) (res_key x) rid (res_info x) buf n s w
                     else Some (EPERS_BADPOL, s, w)
                   else Some (EPERS_RESOURCE_READ_ONLY, s, w)
                 else Some (res_rval x, s, w) }
          else Some (EPERS_BUFLIMIT, s, w)
        else Some (EPERS_LOCKFS, s, w)
      else Some (EPERS_NOT_INITIALIZED, s, w))"

definition regNotifyOnChange ::
  "'w env \<Rightarrow> call_env \<Rightarrow> 32 word \<Rightarrow> string \<Rightarrow> 32 word \<Rightarrow> 32 word \<Rightarrow> int option \<Rightarrow> reg_policy
    \<Rightarrow> ('w, 'x) key_state_scheme \<Rightarrow> 'w \<Rightarrow> (int \<times> ('w, 'x) key_state_scheme \<times> 'w) option" where
  "regNotifyOnChange E C ldb rid user seat callback regPolicy s w =
     (if gPclInitCounter s > 0 then
        do { (x, s, w) \<leftarrow> key_context E C ldb rid user seat s w;
             if res_rval x = 0 then
               if cstorage (res_config x) \<noteq> storage_local (e_pco E) \<and> ctype (res_config x) = type_key (e_pco E)
               then map_option (\<lambda>(r, s). (r, s, w))
                      (persistence_notify_on_change E (c_search_ok C) (c_item_ok C) (c_node_ok C) rid (res_key x)
                         \<lparr>ctx_ldbid = ldb, ctx_user = user, ctx_seat = seat\<rparr> callback regPolicy s)
               else Some (EPERS_NOTIFY_NOT_ALLOWED, s, w)
             else Some (res_rval x, s, w) }
      else Some (EPERS_NOT_INITIALIZED, s, w))"

definition pclKeyRegisterNotifyOnChange ::
  "'w env \<Rightarrow> call_env \<Rightarrow> 32 word \<Rightarrow> string \<Rightarrow> 32 word \<Rightarrow> 32 word \<Rightarrow> int option
    \<Rightarrow> ('w, 'x) key_state_scheme \<Rightarrow> 'w \<Rightarrow> (int \<times> ('w, 'x) key_state_scheme \<times> 'w) option" where
  "pclKeyRegisterNotifyOnChange E C ldb rid user seat callback s w =
     (if c_key_lock C then
        if gChangeNotifyCallback s = callback \<or> gChangeNotifyCallback s = None
        then regNotifyOnChange E C ldb rid user seat callback Notify_register s w
        else Some (EPERS_NOTIFY_NOT_ALLOWED, s, w)
      else Some (EPERS_COMMON, s, w))"

definition pclKeyUnRegisterNotifyOnChange ::
  "'w env \<Rightarrow> call_env \<Rightarrow> 32 word \<Rightarrow> string \<Rightarrow> 32 word \<Rightarrow> 32 word \<Rightarrow> int option
    \<Rightarrow> ('w, 'x) key_state_scheme \<Rightarrow> 'w \<Rightarrow> (int \<times> ('w, 'x) key_state_scheme \<times> 'w) option" where
  "pclKeyUnRegisterNotifyOnChange E C ldb rid user seat callback s w =
     (if c_key_lock C then regNotifyOnChange E C ldb rid user seat callback Notify_unregister s w
      else Some (EPERS_NOT_INITIALIZED, s, w))"

section \<open>Functions through a handle\<close>

definition pclKeyHandleOpen ::
  "'w env \<Rightarrow> call_env \<Rightarrow> 32 word \<Rightarrow> string \<Rightarrow> 32 word \<Rightarrow> 32 word
    \<Rightarrow> ('w, 'x) key_state_scheme \<Rightarrow> 'w \<Rightarrow> (int \<times> ('w, 'x) key_state_scheme \<times> 'w) option" where
  "pclKeyHandleOpen E C ldb rid user seat s w =
     (if gPclInitCounter s > 0 \<and> c_handle_lock C then
        do { (x, s, w) \<leftarrow> key_context E C ldb rid user seat s w;
             if is_key_resource E x then
               if cstorage (res_config x) < storage_last (e_pco E) then
                 let (idx, hs) = get_persistence_handle_idx (c_idx_lock C) (handle_nums s) in
                 map_option (\<lambda>(handle, t). (handle, s\<lparr>handle_nums := hs, gKeyHandleTree := t\<rparr>, w))
                   (set_key_handle_data (e_pco E) (c_tree C) (gKeyHandleTree s) idx rid ldb user seat)
               else Some (EPERS_BADPOL, s, w)
             else Some (EPERS_NOT_INITIALIZED, s, w) }
      else Some (EPERS_NOT_INITIALIZED, s, w))"

text \<open>
  The functions on a handle share their frame: the handle's data are looked up and passed to \<open>f\<close>;
  \<open>fail\<close> makes a result of an error code.
\<close>

definition with_key_handle ::
  "'w env \<Rightarrow> call_env \<Rightarrow> int \<Rightarrow> (key_handle \<Rightarrow> 'r option) \<Rightarrow> (int \<Rightarrow> 'r) \<Rightarrow> ('w, 'x) key_state_scheme \<Rightarrow> 'r option" where
  "with_key_handle E C handle f fail s =
     (if gPclInitCounter s > 0 then
        do { (r, kh) \<leftarrow> get_key_handle_data (e_pco E) (c_tree C) (gKeyHandleTree s) handle;
             (case kh of
                None \<Rightarrow> Some (fail EPERS_MAXHANDLE)
              | Some kh \<Rightarrow> if resource_id kh \<noteq> [] then f kh else Some (fail EPERS_INVALID_HANDLE)) }
      else Some (fail EPERS_NOT_INITIALIZED))"

definition pclKeyHandleClose ::
  "'w env \<Rightarrow> call_env \<Rightarrow> int \<Rightarrow> ('w, 'x) key_state_scheme \<Rightarrow> (int \<times> ('w, 'x) key_state_scheme) option" where
  "pclKeyHandleClose E C handle s =
     (if c_handle_lock C then
        with_key_handle E C handle
          (\<lambda>kh. map_option (\<lambda>t. (1, s\<lparr>handle_nums := set_persistence_handle_close_idx (c_idx_lock C) handle (handle_nums s),
                                     gKeyHandleTree := t\<rparr>))
                  (clear_key_handle_array (c_tree C) (gKeyHandleTree s) handle))
          (\<lambda>e. (e, s)) s
      else Some (EPERS_NOT_INITIALIZED, s))"

definition pclKeyHandleGetSize ::
  "'w env \<Rightarrow> call_env \<Rightarrow> int \<Rightarrow> ('w, 'x) key_state_scheme \<Rightarrow> 'w \<Rightarrow> (int \<times> ('w, 'x) key_state_scheme \<times> 'w) option" where
  "pclKeyHandleGetSize E C handle s w =
     (if c_handle_lock C then
        with_key_handle E C handle
          (\<lambda>kh. pclKeyGetSize E C (ldbid kh) (resource_id kh) (user_no kh) (seat_no kh) s w) (\<lambda>e. (e, s, w)) s
      else Some (EPERS_NOT_INITIALIZED, s, w))"

definition pclKeyHandleReadData ::
  "'w env \<Rightarrow> call_env \<Rightarrow> int \<Rightarrow> byte_buf \<Rightarrow> int \<Rightarrow> ('w, 'x) key_state_scheme \<Rightarrow> 'w
    \<Rightarrow> (int \<times> byte_buf \<times> ('w, 'x) key_state_scheme \<times> 'w) option" where
  "pclKeyHandleReadData E C handle buf n s w =
     (if c_handle_lock C then
        with_key_handle E C handle
          (\<lambda>kh. pclKeyReadData E C (ldbid kh) (resource_id kh) (user_no kh) (seat_no kh) buf n s w)
          (\<lambda>e. (e, buf, s, w)) s
      else Some (EPERS_NOT_INITIALIZED, buf, s, w))"

definition pclKeyHandleWriteData ::
  "'w env \<Rightarrow> call_env \<Rightarrow> int \<Rightarrow> byte_buf \<Rightarrow> int \<Rightarrow> ('w, 'x) key_state_scheme \<Rightarrow> 'w
    \<Rightarrow> (int \<times> ('w, 'x) key_state_scheme \<times> 'w) option" where
  "pclKeyHandleWriteData E C handle buf n s w =
     (if c_handle_lock C then
        with_key_handle E C handle
          (\<lambda>kh. pclKeyWriteData E C (ldbid kh) (resource_id kh) (user_no kh) (seat_no kh) buf n s w)
          (\<lambda>e. (e, s, w)) s
      else Some (EPERS_NOT_INITIALIZED, s, w))"

definition handleRegNotifyOnChange ::
  "'w env \<Rightarrow> call_env \<Rightarrow> int \<Rightarrow> int option \<Rightarrow> reg_policy
    \<Rightarrow> ('w, 'x) key_state_scheme \<Rightarrow> 'w \<Rightarrow> (int \<times> ('w, 'x) key_state_scheme \<times> 'w) option" where
  "handleRegNotifyOnChange E C handle callback regPolicy s w =
     with_key_handle E C handle
       (\<lambda>kh. regNotifyOnChange E C (ldbid kh) (resource_id kh) (user_no kh) (seat_no kh) callback regPolicy s w)
       (\<lambda>e. (e, s, w)) s"

definition pclKeyHandleRegisterNotifyOnChange ::
  "'w env \<Rightarrow> call_env \<Rightarrow> int \<Rightarrow> int option
    \<Rightarrow> ('w, 'x) key_state_scheme \<Rightarrow> 'w \<Rightarrow> (int \<times> ('w, 'x) key_state_scheme \<times> 'w) option" where
  "pclKeyHandleRegisterNotifyOnChange E C handle callback s w =
     (if c_handle_lock C then
        if gChangeNotifyCallback s = callback \<or> gChangeNotifyCallback s = None
        then handleRegNotifyOnChange E C handle callback Notify_register s w
        else Some (EPERS_NOTIFY_NOT_ALLOWED, s, w)
      else Some (EPERS_COMMON, s, w))"

definition pclKeyHandleUnRegisterNotifyOnChange ::
  "'w env \<Rightarrow> call_env \<Rightarrow> int \<Rightarrow> int option
    \<Rightarrow> ('w, 'x) key_state_scheme \<Rightarrow> 'w \<Rightarrow> (int \<times> ('w, 'x) key_state_scheme \<times> 'w) option" where
  "pclKeyHandleUnRegisterNotifyOnChange E C handle callback s w =
     (if c_handle_lock C then handleRegNotifyOnChange E C handle callback Notify_unregister s w
      else Some (EPERS_NOT_INITIALIZED, s, w))"

section \<open>Writing and reading a key\<close>

lemma key_context_again:
  assumes "pure_rct (rct_of s)" "key_context E C ldb rid user seat s w = Some (x, s', w')"
    and "loader s2 = loader s" "prct s2 = prct s'"
  shows "w' = w \<and> s' = s\<lparr>prct := prct s'\<rparr> \<and> key_context E C ldb rid user seat s2 w2 = Some (x, s2, w2)"
proof -
  obtain p where p: "get_db_context (e_pco E) (names_of s) (e_app E) (rct_of s) (key_info C ldb user seat) rid False (prct s) w
      = Some (x, p, w')" "s' = s\<lparr>prct := p\<rparr>"
    using assms(2) by (auto simp: key_context_def)
  have "w' = w" "get_db_context (e_pco E) (names_of s) (e_app E) (rct_of s) (key_info C ldb user seat) rid False p w2
      = Some (x, p, w2)"
    using get_db_context_again [OF assms(1) p(1)] by simp_all
  moreover have "s2\<lparr>prct := p\<rparr> = s2"
    using assms(4) p(2) by simp
  ultimately show ?thesis
    using assms(3,4) p(2) by (simp add: key_context_def)
qed

lemma key_context_user:
  "pco_ok (e_pco E) \<Longrightarrow> key_context E C ldb rid user seat s w = Some (x, s', w') \<Longrightarrow>
     ctx_user (dbctx (res_info x)) = user"
  by (auto simp: key_context_def key_info_def dest!: get_db_context_ctx)

text \<open>The application may write the resource that was found.\<close>

definition may_write :: "'w env \<Rightarrow> db_ctx_result \<Rightarrow> bool" where
  "may_write E x \<longleftrightarrow>
     is_key_resource E x \<and> cpermission (res_config x) \<noteq> perm_ro (e_pco E) \<and>
     cstorage (res_config x) < storage_last (e_pco E) \<and>
     (cstorage (res_config x) = storage_shared (e_pco E) \<longrightarrow> responsible E (res_config x))"

lemma database_get_pcl_frame:
  "database_get E info p t s w = Some (h, s', w') \<Longrightarrow>
     gPclInitCounter (s' :: ('w, 'x) key_state_scheme) = gPclInitCounter s \<and> gLockAccess s' = gLockAccess s \<and>
     loader s' = loader s \<and> prct s' = prct s"
  by (auto simp: database_get_def Let_def split: if_splits option.splits prod.splits)

lemma send_frame:
  "pers_send_Notification_Signal E res cx c s = (r, s') \<Longrightarrow>
     gPclInitCounter (s' :: ('w, 'x) key_state_scheme) = gPclInitCounter s \<and> gLockAccess s' = gLockAccess s \<and>
     loader s' = loader s \<and> prct s' = prct s"
  by (auto simp: pers_send_Notification_Signal_def deliverToMainloop_def deliverToMainloop_NM_def Let_def
      split: if_splits)

lemma set_data_frame:
  assumes "stored_locally (e_pco E) info"
    and "persistence_set_data E dbPath key res info d n s w = Some (r, s', w')"
  shows "gPclInitCounter (s' :: ('w, 'x) key_state_scheme) = gPclInitCounter s \<and> gLockAccess s' = gLockAccess s \<and>
    loader s' = loader s \<and> prct s' = prct s"
  using assms
  by (auto simp: persistence_set_data_def write_database_def stored_locally_def Let_def
      split: if_splits option.splits prod.splits dest!: database_get_pcl_frame send_frame)

text \<open>
  C1: what an application writes to a key it reads back: with the library initialised and not locked,
  a resource it may write, a database that opens and plugins that behave as documented, writing
  \<open>n\<close> bytes returns \<open>n\<close> and sends one change signal for a shared key and none for a local one, and a
  following read of the same key into any buffer of at least \<open>n\<close> bytes returns \<open>n\<close> and those bytes.
\<close>

theorem pclKey_write_read:
  assumes "store_plugin (db_of s) nf mx view" "pure_rct (rct_of s)" "pco_ok (e_pco E)"
    and "gPclInitCounter s > 0" "c_key_lock C" "gLockAccess s \<noteq> 1" "e_wr E (pipe s)"
    and "key_context E C ldb rid user seat s w = Some (x, s0, w0)" "may_write E x"
    and "stored_locally (e_pco E) (res_info x)" "user \<noteq> PCL_USER_DEFAULTDATA"
    and "database_get E (res_info x) (res_path x) (cpolicy (res_config x)) s0 w0 = Some (h, s1, w1)" "0 \<le> h"
    and "0 \<le> n" "n \<le> mx" "n \<le> max_key_data (e_pco E)" "n \<le> int (length d)" "n \<le> m"
  shows "\<exists>s2 w2. pclKeyWriteData E C ldb rid user seat d n s w = Some (n, s2, w2) \<and>
    pipe s2 = pipe s @ signals E rid (res_info x) pclNotifyStatus_changed \<and>
    pclKeyReadData E C ldb rid user seat buf m s2 w2 = Some (n, take (nat n) d @ drop (nat n) buf, s2, w2)"
proof -
  obtain p where p: "s0 = s\<lparr>prct := p\<rparr>"
    using assms(8) by (auto simp: key_context_def)
  have u: "ctx_user (dbctx (res_info x)) \<noteq> PCL_USER_DEFAULTDATA"
    using key_context_user [OF assms(3,8)] assms(11) by simp
  obtain s2 w2 where S: "persistence_set_data E (res_path x) (res_key x) rid (res_info x) d n s0 w0 = Some (n, s2, w2)"
    "pipe s2 = pipe s0 @ signals E rid (res_info x) pclNotifyStatus_changed"
    "persistence_get_data E (res_path x) (res_key x) rid (res_info x) buf m s2 w2 =
      Some (n, take (nat n) d @ drop (nat n) buf, s2, w2)"
    using persistence_set_get [of s0 nf mx view n d E "res_info x" "res_path x" w0 h s1 w1 m
        "res_key x" rid buf] assms(1,7,10,12-18) p u
    by auto
  have fr: "gPclInitCounter s2 = gPclInitCounter s" "gLockAccess s2 = gLockAccess s" "loader s2 = loader s"
    "prct s2 = prct s0"
    using set_data_frame [OF assms(10) S(1)] p by simp_all
  have "key_context E C ldb rid user seat s2 w2 = Some (x, s2, w2)"
    using key_context_again [OF assms(2,8) fr(3,4)] by simp
  then have "pclKeyReadData E C ldb rid user seat buf m s2 w2 = Some (n, take (nat n) d @ drop (nat n) buf, s2, w2)"
    using assms(4-6,9) fr S(3) by (simp add: pclKeyReadData_def isAccessLocked_def may_write_def)
  moreover have "pclKeyWriteData E C ldb rid user seat d n s w = Some (n, s2, w2)"
    using assms(4-6,8,9,16) S(1) by (auto simp: pclKeyWriteData_def isAccessLocked_def may_write_def)
  ultimately show ?thesis
    using S(2) p by auto
qed


text \<open>
  A resource that the table describes as a file is no key, but reading it, writing it and
  deleting it as a key return the 0 of the context lookup: the caller is told that the call succeeded,
  and nothing is read, written or deleted.
\<close>

lemma pclKey_file_resource:
  assumes "gPclInitCounter s > 0" "c_key_lock C" "isAccessLocked s \<noteq> 1" "n \<le> max_key_data (e_pco E)"
    and "key_context E C ldb rid user seat s w = Some (x, s0, w0)" "res_rval x = 0"
    and "ctype (res_config x) = type_file (e_pco E)" "pco_ok (e_pco E)"
  shows "pclKeyReadData E C ldb rid user seat buf n s w = Some (0, buf, s0, w0) \<and>
    pclKeyWriteData E C ldb rid user seat buf n s w = Some (0, s0, w0) \<and>
    pclKeyDelete E C ldb rid user seat s w = Some (0, s0, w0) \<and>
    pclKeyGetSize E C ldb rid user seat s w = Some (EPERS_BADPOL, s0, w0)"
  using assms
  by (auto simp: pclKeyReadData_def pclKeyWriteData_def pclKeyDelete_def pclKeyGetSize_def is_key_resource_def pco_ok_def)

section \<open>Concrete runs\<close>

definition rct_2 :: "mem rct_plugin" where
  "rct_2 = \<lparr>rct_open = Some (\<lambda>p m w. (3, w)), rct_close = None,
     rct_read = Some (\<lambda>h k w. (if k = ''none'' then -1 else 144,
       if k = ''file'' then config_1\<lparr>ctype := 1\<rparr>
       else if k = ''fixed'' then config_1\<lparr>cpermission := 1\<rparr> else config_1, w))\<rparr>"

definition key_0 :: "mem key_state" where
  "key_0 = \<lparr>pipe = [], gLockAccess = 0, prct = prct_init, gHandlesDB = (\<lambda>_ _. 0),
     gHandlesDBCreated = (\<lambda>_ _. 0), loader = loader_1\<lparr>plugin_rct := rct_2\<rparr>, gNotificationTree = None,
     notify_stale = False, gChangeNotifyCallback = None, gPclInitCounter = 1, handle_nums = handle_idx_init,
     gKeyHandleTree = None\<rparr>"

definition call_0 :: call_env where
  "call_0 = \<lparr>c_handle_lock = True, c_key_lock = True, c_idx_lock = True, c_tree = all_ok undefined,
     c_config = config_1, c_search_ok = True, c_item_ok = True, c_node_ok = True\<rparr>"

lemma rct_2_pure: "pure_rct (rct_of key_0)"
  by (auto simp: pure_rct_def key_0_def loader_1_def rct_2_def)

lemma key_0_simps [simp]:
  "gPclInitCounter key_0 = 1" "c_key_lock call_0" "c_handle_lock call_0" "gLockAccess key_0 = 0" "pipe key_0 = []"
  "e_pco env_1 = pco_1" "db_of key_0 = mem_db" "isAccessLocked key_0 = 0"
  by (simp_all add: key_0_def call_0_def env_1_def loader_1_def isAccessLocked_def)

definition prct_1 :: prct_state where
  "prct_1 = \<lparr>gResource_table = (\<lambda>_. -1)(0 := 3), gResourceOpen = (\<lambda>_. 0)(0 := 1)\<rparr>"

lemma get_table_0:
  "get_resource_cfg_table P N app (rct_of key_0) PersistenceRCT_local 0 (prct key_0) w = (3, prct_1, w)"
  by (simp add: get_resource_cfg_table_def prct_index_def key_0_def prct_init_def rct_2_def loader_1_def prct_1_def)

lemma key_context_0:
  assumes "r \<noteq> ''none''"
  shows "\<exists>x. key_context env_1 call_0 0xFF r 1 0 key_0 w = Some (x, key_0\<lparr>prct := prct_1\<rparr>, w) \<and> res_rval x = 0 \<and>
    res_info x = (key_info call_0 0xFF 1 0)\<lparr>configKey :=
       if r = ''file'' then config_1\<lparr>ctype := 1\<rparr>
       else if r = ''fixed'' then config_1\<lparr>cpermission := 1\<rparr> else config_1\<rparr>"
proof -
  have g: "get_table_id 0xFF = (PersistenceRCT_local, 0)"
    by (simp add: get_table_id_def)
  have rd: "rct_read (rct_of key_0) = rct_read rct_2"
    by (simp add: key_0_def loader_1_def)
  have "storage_custom pco_1 = 2" "cfg_size pco_1 = 144" "storage_local pco_1 = 0"
    by (simp_all add: pco_1_def)
  then show ?thesis
    using assms make_db_names_total [of pco_1 "names_of key_0" "e_app env_1" "(key_info call_0 0xFF 1 0)\<lparr>configKey :=
       if r = ''file'' then config_1\<lparr>ctype := 1\<rparr>
       else if r = ''fixed'' then config_1\<lparr>cpermission := 1\<rparr> else config_1\<rparr>" r]
    by (auto simp: key_context_def get_db_context_def key_info_def g get_table_0 rd rct_2_def config_1_def store_policy_def)
qed

theorem pclKey_write_read_witness:
  "\<exists>s2 w2. pclKeyWriteData env_1 call_0 0xFF ''pos'' 1 0 [1, 2, 3] 2 key_0 (\<lambda>_ _. None) = Some (2, s2, w2) \<and> pipe s2 = [] \<and>
     pclKeyReadData env_1 call_0 0xFF ''pos'' 1 0 [0, 0, 0, 9] 4 s2 w2 = Some (2, [1, 2, 0, 9], s2, w2)"
proof -
  obtain x where x: "key_context env_1 call_0 0xFF ''pos'' 1 0 key_0 (\<lambda>_ _. None) =
      Some (x, key_0\<lparr>prct := prct_1\<rparr>, \<lambda>_ _. None)" "res_rval x = 0"
    "res_info x = (key_info call_0 0xFF 1 0)\<lparr>configKey := config_1\<rparr>"
    using key_context_0 [of "''pos''"] by fastforce
  have c: "cpolicy (res_config x) = 1" "cstorage (res_config x) = 0" "ctype (res_config x) = 0"
    "cpermission (res_config x) = 0" "ctx_ldbid (dbctx (res_info x)) = 0xFF"
    by (simp_all add: x(3) config_1_def key_info_def)
  obtain h s1 w1 where o: "database_get env_1 (res_info x) (res_path x) (cpolicy (res_config x)) (key_0\<lparr>prct := prct_1\<rparr>)
      (\<lambda>_ _. None) = Some (h, s1, w1)" "0 \<le> h"
  proof -
    have f: "db_file pco_1 (names_of key_0) (res_path x) 1 =
        Some (c_copy (path_len pco_1) (res_path x @ gLocalWt (names_of key_0)), 3)" "policy_last pco_1 = 3"
      "gHandlesDBCreated key_0 i j = 0" "db_open mem_db = Some (\<lambda>p f w. (int (length p), w))" for i j
      by (simp_all add: db_file_def pco_1_def key_0_def mem_db_def)
    show thesis
      using that c f by (simp add: database_get_def db_index_def Let_def)
  qed
  have m: "may_write env_1 x" "stored_locally pco_1 (res_info x)"
    "signals env_1 ''pos'' (res_info x) pclNotifyStatus_changed = []"
    using c x(2) by (simp_all add: may_write_def is_key_resource_def stored_locally_def signals_def pco_1_def)
  show ?thesis
    using pclKey_write_read [of key_0 "-8" 16384 "\<lambda>w. w" env_1 call_0, OF _ rct_2_pure _ _ _ _ _ x(1) m(1) _ _ o, of 2 "[1, 2, 3]" 4 "[0, 0, 0, 9]"]
      mem_db_store pco_1_ok m(2,3) by (simp add: env_1_def pco_1_def)
qed


lemma pclKey_file_resource_witness:
  "\<exists>s2. pclKeyWriteData env_1 call_0 0xFF ''file'' 1 0 [1] 1 key_0 mem_2 = Some (0, s2, mem_2)"
proof -
  obtain x where x: "key_context env_1 call_0 0xFF ''file'' 1 0 key_0 mem_2 = Some (x, key_0\<lparr>prct := prct_1\<rparr>, mem_2)"
    "res_rval x = 0" "res_info x = (key_info call_0 0xFF 1 0)\<lparr>configKey := config_1\<lparr>ctype := 1\<rparr>\<rparr>"
    using key_context_0 [of "''file''"] by fastforce
  then have "ctype (res_config x) = type_file (e_pco env_1)"
    by (simp add: pco_1_def)
  from pclKey_file_resource [OF _ _ _ _ x(1,2) this, of 1 "[1]"] pco_1_ok show ?thesis
    by (simp add: pco_1_def)
qed

section \<open>Handles\<close>

text \<open>
  The invariant of the open handles: the numbers \<open>H\<close> are the ones handed out, and the tree stores
  the data \<open>m\<close> of those that are key handles.
\<close>

definition handles_ok :: "('w, 'x) key_state_scheme \<Rightarrow> (int \<rightharpoonup> key_handle) \<Rightarrow> int set \<Rightarrow> bool" where
  "handles_ok s m H \<longleftrightarrow> key_table (gKeyHandleTree s) m \<and> handle_inv (handle_nums s, H) \<and> dom m \<subseteq> H"

definition calls_ok :: "call_env \<Rightarrow> bool" where
  "calls_ok C \<longleftrightarrow> c_handle_lock C \<and> c_key_lock C \<and> c_idx_lock C \<and> (\<exists>j. c_tree C = all_ok j)"

lemma handles_ok_0: "handles_ok key_0 Map.empty {}"
  using handle_inv_init by (simp add: handles_ok_def key_0_def)

lemma calls_ok_0: "calls_ok call_0"
  by (auto simp: calls_ok_def call_0_def)

lemma with_key_handle_eq:
  assumes "key_table (gKeyHandleTree s) m" "c_tree C = all_ok j" "gPclInitCounter s > 0"
  shows "with_key_handle E C h f fail s =
    (case m h of None \<Rightarrow> Some (fail EPERS_MAXHANDLE)
     | Some kh \<Rightarrow>
         if c_copy (key_name_len (e_pco E)) (resource_id kh) \<noteq> []
         then f (kh\<lparr>resource_id := c_copy (key_name_len (e_pco E)) (resource_id kh)\<rparr>)
         else Some (fail EPERS_INVALID_HANDLE))"
  using assms(3) get_key_table [OF assms(1), of "e_pco E" j h]
  by (simp add: with_key_handle_def assms(2) split: option.splits)

lemma open_key_handle:
  assumes "handles_ok s m H" "calls_ok C"
    and "pclKeyHandleOpen E C ldb rid user seat s w = Some (h, s', w')" "0 \<le> h"
  shows "h \<notin> H \<and> handles_ok s' (m(h \<mapsto> \<lparr>ldbid = ldb, user_no = user, seat_no = seat,
      resource_id = c_copy (key_name_len (e_pco E)) rid\<rparr>)) (insert h H) \<and> gPclInitCounter s' > 0"
proof -
  obtain j where j: "c_tree C = all_ok j" "c_idx_lock C" "c_handle_lock C"
    using assms(2) by (auto simp: calls_ok_def)
  have init: "gPclInitCounter s > 0"
    using assms(3,4) by (auto simp: pclKeyHandleOpen_def split: if_splits)
  then obtain x s0 where ctx: "key_context E C ldb rid user seat s w = Some (x, s0, w')"
    using assms(3,4) j(3) by (auto simp: pclKeyHandleOpen_def split: if_splits prod.splits)
  obtain p where p: "s0 = s\<lparr>prct := p\<rparr>"
    using ctx by (auto simp: key_context_def)
  obtain idx hs where g: "get_persistence_handle_idx True (handle_nums s) = (idx, hs)"
    by (cases "get_persistence_handle_idx True (handle_nums s)")
  obtain t where t: "set_key_handle_data (e_pco E) (c_tree C) (gKeyHandleTree s) idx rid ldb user seat = Some (h, t)"
    "s' = s0\<lparr>handle_nums := hs, gKeyHandleTree := t\<rparr>"
    using assms(3,4) init j(2,3) ctx g p
    by (auto simp: pclKeyHandleOpen_def split: if_splits)
  have I: "key_table (gKeyHandleTree s) m" "handle_inv (handle_nums s, H)" "dom m \<subseteq> H"
    using assms(1) by (simp_all add: handles_ok_def)
  obtain t' where t': "set_key_handle_data (e_pco E) (all_ok j) (gKeyHandleTree s) idx rid ldb user seat = Some (idx, t')"
    "key_table t' (if m idx = None
      then m(idx \<mapsto> \<lparr>ldbid = ldb, user_no = user, seat_no = seat, resource_id = c_copy (key_name_len (e_pco E)) rid\<rparr>)
      else m)"
    using set_key_table [OF I(1)] by blast
  then have e: "h = idx" "t = t'"
    using t(1) j(1) by simp_all
  then have n: "h \<notin> H" "handle_inv (hs, insert h H)"
    using open_cases [OF I(2) g] assms(4) by auto
  then have "m h = None"
    using I(3) by auto
  then show ?thesis
    using n t' e t(2) I(3) init p by (auto simp: handles_ok_def)
qed

text \<open>
  C3: an opened handle stands for the key it was opened with: its number was not in use, every other
  handle keeps its data, and as long as the handle's entry is there, reading, writing and sizing
  through the handle is the same as by name, for a resource name that is not empty and fits the
  name array.
\<close>

theorem pclKeyHandle_same_key:
  assumes "handles_ok s m H" "calls_ok C"
    and "pclKeyHandleOpen E C ldb rid user seat s w = Some (h, s', w')" "0 \<le> h"
    and "rid \<noteq> []" "length rid < key_name_len (e_pco E)"
  shows "h \<notin> H \<and> (\<exists>m'. handles_ok s' m' (insert h H) \<and> (\<forall>k. k \<noteq> h \<longrightarrow> m' k = m k)) \<and>
    pclKeyHandleReadData E C h buf n s' v = pclKeyReadData E C ldb rid user seat buf n s' v \<and>
    pclKeyHandleWriteData E C h buf n s' v = pclKeyWriteData E C ldb rid user seat buf n s' v \<and>
    pclKeyHandleGetSize E C h s' v = pclKeyGetSize E C ldb rid user seat s' v"
proof -
  define kh where "kh = \<lparr>ldbid = ldb, user_no = user, seat_no = seat,
      resource_id = c_copy (key_name_len (e_pco E)) rid\<rparr>"
  have o: "h \<notin> H" "handles_ok s' (m(h \<mapsto> kh)) (insert h H)" "gPclInitCounter s' > 0"
    using open_key_handle [OF assms(1-4)] by (simp_all add: kh_def)
  obtain j where j: "c_tree C = all_ok j" "c_handle_lock C"
    using assms(2) by (auto simp: calls_ok_def)
  have "key_table (gKeyHandleTree s') (m(h \<mapsto> kh))"
    using o(2) by (simp add: handles_ok_def)
  note W = with_key_handle_eq [OF this j(1) o(3), where E = E and h = h]
  show ?thesis
    using o(1,2) assms(5,6) j(2)
    by (auto simp: pclKeyHandleReadData_def pclKeyHandleWriteData_def pclKeyHandleGetSize_def W kh_def
        intro!: exI [of _ "m(h \<mapsto> kh)"])
qed

theorem pclKeyHandle_same_key_witness:
  "\<exists>s'. pclKeyHandleOpen env_1 call_0 0xFF ''pos'' 1 0 key_0 mem_2 = Some (1, s', mem_2) \<and>
     pclKeyHandleGetSize env_1 call_0 1 s' mem_2 = pclKeyGetSize env_1 call_0 0xFF ''pos'' 1 0 s' mem_2"
proof -
  obtain x where x: "key_context env_1 call_0 0xFF ''pos'' 1 0 key_0 mem_2 = Some (x, key_0\<lparr>prct := prct_1\<rparr>, mem_2)"
    "res_rval x = 0" "res_info x = (key_info call_0 0xFF 1 0)\<lparr>configKey := config_1\<rparr>"
    using key_context_0 [of "''pos''"] by fastforce
  then have k: "is_key_resource env_1 x" "cstorage (res_config x) < storage_last pco_1"
    by (simp_all add: is_key_resource_def config_1_def pco_1_def)
  obtain hs where g: "get_persistence_handle_idx True handle_idx_init = (1, hs)"
    by (simp add: get_persistence_handle_idx_def handle_idx_init_def)
  obtain t where t: "set_key_handle_data pco_1 (all_ok undefined) None 1 ''pos'' 0xFF 1 0 = Some (1, t)"
    using set_key_table [of None Map.empty pco_1 undefined 1 "''pos''" "0xFF" 1 0] by auto
  have "handle_nums key_0 = handle_idx_init" "gKeyHandleTree key_0 = None" "c_idx_lock call_0"
    "c_tree call_0 = all_ok undefined"
    by (simp_all add: key_0_def call_0_def)
  then have o: "pclKeyHandleOpen env_1 call_0 0xFF ''pos'' 1 0 key_0 mem_2 =
      Some (1, key_0\<lparr>prct := prct_1, handle_nums := hs, gKeyHandleTree := t\<rparr>, mem_2)"
    using x(1) k g t by (simp add: pclKeyHandleOpen_def)
  then show ?thesis
    using pclKeyHandle_same_key [OF handles_ok_0 calls_ok_0 o, where v = mem_2] by (simp add: pco_1_def)
qed

text \<open>
  Closing an open key handle returns 1, gives its number back and forgets its data: reading,
  writing, sizing or closing the handle again reports that there is no such handle and changes
  nothing, while the other handles keep their data.
\<close>

lemma pclKeyHandleClose_closes:
  assumes "handles_ok s m H" "calls_ok C" "gPclInitCounter s > 0" "m h = Some kh"
    and "c_copy (key_name_len (e_pco E)) (resource_id kh) \<noteq> []"
  shows "\<exists>s'. pclKeyHandleClose E C h s = Some (1, s') \<and> handles_ok s' (m(h := None)) (H - {h}) \<and>
    pclKeyHandleReadData E C h buf n s' w = Some (EPERS_MAXHANDLE, buf, s', w) \<and>
    pclKeyHandleWriteData E C h buf n s' w = Some (EPERS_MAXHANDLE, s', w) \<and>
    pclKeyHandleGetSize E C h s' w = Some (EPERS_MAXHANDLE, s', w) \<and>
    pclKeyHandleClose E C h s' = Some (EPERS_MAXHANDLE, s')"
proof -
  obtain j where j: "c_tree C = all_ok j" "c_handle_lock C" "c_idx_lock C"
    using assms(2) by (auto simp: calls_ok_def)
  have I: "key_table (gKeyHandleTree s) m" "handle_inv (handle_nums s, H)" "dom m \<subseteq> H"
    using assms(1) by (simp_all add: handles_ok_def)
  obtain t where t: "clear_key_handle_array (all_ok j) (gKeyHandleTree s) h = Some t" "key_table t (m(h := None))"
    using clear_key_table [OF I(1)] by blast
  define s' where "s' = s\<lparr>handle_nums := set_persistence_handle_close_idx True h (handle_nums s), gKeyHandleTree := t\<rparr>"
  have c: "pclKeyHandleClose E C h s = Some (1, s')"
    using assms(4,5) j t(1) with_key_handle_eq [OF I(1) j(1) assms(3), where E = E and h = h]
    by (simp add: pclKeyHandleClose_def s'_def)
  have "h \<in> H"
    using assms(4) I(3) by auto
  then have "handle_inv (handle_nums s', H - {h})"
    using handle_step_inv [OF step_close I(2)] by (simp add: s'_def)
  then have h: "handles_ok s' (m(h := None)) (H - {h})"
    using t(2) I(3) by (auto simp: handles_ok_def s'_def)
  have "key_table (gKeyHandleTree s') (m(h := None))" "gPclInitCounter s' > 0"
    using t(2) assms(3) by (simp_all add: s'_def)
  note W = with_key_handle_eq [OF this(1) j(1) this(2), where E = E and h = h]
  show ?thesis
    using c h j(2)
    by (intro exI [of _ s'])
      (simp add: pclKeyHandleReadData_def pclKeyHandleWriteData_def pclKeyHandleGetSize_def pclKeyHandleClose_def W)
qed

lemma key_handle_run:
  obtains s m where "handles_ok (s :: mem key_state) m {1}" "gPclInitCounter s > 0"
    "m 1 = Some \<lparr>ldbid = 0xFF, user_no = 1, seat_no = 0, resource_id = ''pos''\<rparr>"
proof -
  obtain hs where g: "get_persistence_handle_idx True handle_idx_init = (1, hs)"
    by (simp add: get_persistence_handle_idx_def handle_idx_init_def)
  obtain t where t: "key_table t [1 \<mapsto> \<lparr>ldbid = 0xFF, user_no = 1, seat_no = 0, resource_id = ''pos''\<rparr>]"
    using set_key_table [of None Map.empty pco_1 undefined 1 "''pos''" "0xFF" 1 0] by (auto simp: pco_1_def)
  have "handle_inv (hs, {1})"
    using open_cases [OF handle_inv_init g] by auto
  then show thesis
    using t
    by (intro that [of "key_0\<lparr>handle_nums := hs, gKeyHandleTree := t\<rparr>"
        "[1 \<mapsto> \<lparr>ldbid = 0xFF, user_no = 1, seat_no = 0, resource_id = ''pos''\<rparr>]"])
      (simp_all add: handles_ok_def)
qed

lemma pclKeyHandleClose_closes_witness:
  "\<exists>(s :: mem key_state) s'. pclKeyHandleClose env_1 call_0 1 s = Some (1, s') \<and>
     pclKeyHandleClose env_1 call_0 1 s' = Some (EPERS_MAXHANDLE, s')"
proof -
  obtain s :: "mem key_state" and m where s: "handles_ok s m {1}" "gPclInitCounter s > 0"
    "m 1 = Some \<lparr>ldbid = 0xFF, user_no = 1, seat_no = 0, resource_id = ''pos''\<rparr>"
    by (rule key_handle_run)
  have "c_copy (key_name_len (e_pco env_1)) ''pos'' \<noteq> []"
    by (simp add: pco_1_def c_copy_def)
  then show ?thesis
    using pclKeyHandleClose_closes [OF s(1) calls_ok_0 s(2,3), of env_1 "[]" 0 "\<lambda>_ _. None"] by auto
qed

text \<open>
  C5: when all handle numbers are in use, opening a key reports the error -4 and all the same stores
  the key under the number -4: the error code works as a handle, and closing it puts -4 among the free
  numbers, so that the next open hands out -4 as if it were a handle.
\<close>

theorem pclKeyHandle_exhausted:
  assumes "handles_ok s m {1..<MaxPersHandle - 1}" "calls_ok C" "gPclInitCounter s > 0"
    and "key_context E C ldb rid user seat s w = Some (x, s0, w0)" "is_key_resource E x"
    and "cstorage (res_config x) < storage_last (e_pco E)" "rid \<noteq> []" "length rid < key_name_len (e_pco E)"
  shows "\<exists>s1 s2. pclKeyHandleOpen E C ldb rid user seat s w = Some (EPERS_MAXHANDLE, s1, w0) \<and>
    pclKeyHandleGetSize E C (-4) s1 v = pclKeyGetSize E C ldb rid user seat s1 v \<and>
    pclKeyHandleClose E C (-4) s1 = Some (1, s2) \<and>
    fst (get_persistence_handle_idx True (handle_nums s2)) = -4"
proof -
  obtain j where j: "c_tree C = all_ok j" "c_handle_lock C" "c_idx_lock C"
    using assms(2) by (auto simp: calls_ok_def)
  have I: "key_table (gKeyHandleTree s) m" "handle_inv (handle_nums s, {1..<MaxPersHandle - 1})"
    "dom m \<subseteq> {1..<MaxPersHandle - 1}"
    using assms(1) by (simp_all add: handles_ok_def)
  obtain idx hs where g: "get_persistence_handle_idx True (handle_nums s) = (idx, hs)"
    by (cases "get_persistence_handle_idx True (handle_nums s)")
  then have e: "idx = -4" "hs = handle_nums s"
    using open_cases [OF I(2) g] by auto
  have mn: "m (-4) = None"
    using I(3) by (auto simp: domIff subset_iff)
  define kh where "kh = \<lparr>ldbid = ldb, user_no = user, seat_no = seat, resource_id = rid\<rparr>"
  obtain t where t: "set_key_handle_data (e_pco E) (all_ok j) (gKeyHandleTree s) (-4) rid ldb user seat = Some (-4, t)"
    "key_table t (m(-4 \<mapsto> kh))"
    using set_key_table [OF I(1), where idx = "-4"] mn assms(8) unfolding kh_def by fastforce
  obtain p where p: "s0 = s\<lparr>prct := p\<rparr>"
    using assms(4) by (auto simp: key_context_def)
  define s1 where "s1 = s\<lparr>prct := p, gKeyHandleTree := t\<rparr>"
  have o: "pclKeyHandleOpen E C ldb rid user seat s w = Some (EPERS_MAXHANDLE, s1, w0)"
    using assms(3-6) j t(1) g e p by (simp add: pclKeyHandleOpen_def s1_def)
  have k1: "key_table (gKeyHandleTree s1) (m(-4 \<mapsto> kh))" "gPclInitCounter s1 > 0"
    using t(2) assms(3) by (simp_all add: s1_def)
  note W = with_key_handle_eq [OF k1(1) j(1) k1(2), where E = E and h = "-4"]
  obtain t2 where t2: "clear_key_handle_array (all_ok j) (gKeyHandleTree s1) (-4) = Some t2"
    using clear_key_table [OF k1(1)] by blast
  define s2 where "s2 = s1\<lparr>handle_nums := set_persistence_handle_close_idx True (-4) (handle_nums s1), gKeyHandleTree := t2\<rparr>"
  have "pclKeyHandleClose E C (-4) s1 = Some (1, s2)"
    using j t2 assms(7,8) by (simp add: pclKeyHandleClose_def W kh_def s2_def)
  moreover have "fst (get_persistence_handle_idx True (handle_nums s2)) = -4"
  proof -
    have "gFreeHandleIdxHead (handle_nums s) = 0" "length (gFreeHandleArray (handle_nums s)) = 512"
      using free_bound(1) [OF I(2)] I(2) by (auto simp: handle_inv_def)
    then show ?thesis
      by (simp add: s2_def s1_def set_persistence_handle_close_idx_def get_persistence_handle_idx_def)
  qed
  moreover have "pclKeyHandleGetSize E C (-4) s1 v = pclKeyGetSize E C ldb rid user seat s1 v"
    using j(2) assms(7,8) by (simp add: pclKeyHandleGetSize_def W kh_def)
  ultimately show ?thesis
    using o by blast
qed

text \<open>All numbers handed out.\<close>

definition full_nums :: handle_idx where
  "full_nums = handle_idx_init\<lparr>gHandleIdx := MaxPersHandle - 1\<rparr>"

theorem pclKeyHandle_exhausted_witness:
  "\<exists>s1. pclKeyHandleOpen env_1 call_0 0xFF ''pos'' 1 0 (key_0\<lparr>handle_nums := full_nums\<rparr>) mem_2 = Some (-4, s1, mem_2) \<and>
     pclKeyHandleGetSize env_1 call_0 (-4) s1 mem_2 = pclKeyGetSize env_1 call_0 0xFF ''pos'' 1 0 s1 mem_2"
proof -
  obtain x where x: "key_context env_1 call_0 0xFF ''pos'' 1 0 key_0 mem_2 = Some (x, key_0\<lparr>prct := prct_1\<rparr>, mem_2)"
    "res_rval x = 0" "res_info x = (key_info call_0 0xFF 1 0)\<lparr>configKey := config_1\<rparr>"
    using key_context_0 [of "''pos''"] by fastforce
  then have k: "is_key_resource env_1 x" "cstorage (res_config x) < storage_last pco_1"
    by (simp_all add: is_key_resource_def config_1_def pco_1_def)
  have x': "key_context env_1 call_0 0xFF ''pos'' 1 0 (key_0\<lparr>handle_nums := full_nums\<rparr>) mem_2 =
      Some (x, key_0\<lparr>handle_nums := full_nums, prct := prct_1\<rparr>, mem_2)"
    using x(1) by (auto simp: key_context_def dest: arg_cong [where f = prct])
  have "handle_inv (full_nums, {1..<MaxPersHandle - 1})"
    by (simp add: handle_inv_def full_nums_def handle_idx_init_def free_handles_def)
  then have h: "handles_ok (key_0\<lparr>handle_nums := full_nums\<rparr>) Map.empty {1..<MaxPersHandle - 1}"
    by (simp add: handles_ok_def key_0_def)
  from pclKeyHandle_exhausted [OF h calls_ok_0 _ x' k(1), where v = mem_2] k(2) show ?thesis
    by (auto simp: pco_1_def)
qed

section \<open>Notifications\<close>

text \<open>
  An application has one callback for changes, and only for keys that are not local: registering
  another function while one is registered, and registering for a local resource or a file, is refused
  with its own code and changes neither the registrations nor the callback, and sends nothing.
\<close>

lemma pclKeyRegisterNotify_refused:
  assumes "c_key_lock C" "gPclInitCounter s > 0"
    and "key_context E C ldb rid user seat s w = Some (x, s0, w0)" "res_rval x = 0"
    and "(gChangeNotifyCallback s \<noteq> None \<and> gChangeNotifyCallback s \<noteq> callback) \<or>
         cstorage (res_config x) = storage_local (e_pco E) \<or> ctype (res_config x) \<noteq> type_key (e_pco E)"
  shows "\<exists>s' w'. pclKeyRegisterNotifyOnChange E C ldb rid user seat callback s w = Some (EPERS_NOTIFY_NOT_ALLOWED, s', w') \<and>
    gChangeNotifyCallback s' = gChangeNotifyCallback s \<and> gNotificationTree s' = gNotificationTree s \<and>
    notify_stale s' = notify_stale s \<and> pipe s' = pipe s"
proof -
  obtain p where "s0 = s\<lparr>prct := p\<rparr>"
    using assms(3) by (auto simp: key_context_def)
  then show ?thesis
    using assms by (auto simp: pclKeyRegisterNotifyOnChange_def regNotifyOnChange_def)
qed

lemma pclKeyRegisterNotify_refused_witness:
  "\<exists>s' w'. pclKeyRegisterNotifyOnChange env_1 call_0 0xFF ''pos'' 1 0 (Some 7) key_0 mem_2 = Some (EPERS_NOTIFY_NOT_ALLOWED, s', w')"
proof -
  obtain x where x: "key_context env_1 call_0 0xFF ''pos'' 1 0 key_0 mem_2 = Some (x, key_0\<lparr>prct := prct_1\<rparr>, mem_2)"
    "res_rval x = 0" "res_info x = (key_info call_0 0xFF 1 0)\<lparr>configKey := config_1\<rparr>"
    using key_context_0 [of "''pos''"] by fastforce
  then have "cstorage (res_config x) = storage_local (e_pco env_1)"
    by (simp add: config_1_def pco_1_def)
  with pclKeyRegisterNotify_refused [OF _ _ x(1,2), of "Some 7"] show ?thesis
    by auto
qed

end
