(* ===== verification/File_Handles.thy ===== *)
theory File_Handles
  imports Key_Handles
begin

text \<open>
  The tables of open file handles in \<^verbatim>\<open>persistence_client_library_handle.c\<close>: \<^verbatim>\<open>gFileHandleTree\<close> for
  the descriptors of \<^verbatim>\<open>pclFileOpen\<close> and \<^verbatim>\<open>gOssFileHandleTree\<close> for the handles of
  \<^verbatim>\<open>pclFileCreatePath\<close>.  An entry is changed by erasing it from the tree and inserting a changed copy.
\<close>

section \<open>The code\<close>

type_synonym file_tree = "file_item jsw_rbtree option"
type_synonym fcall = "file_handle hcall"

definition file_tree_new :: "file_item jsw_rbtree" where
  "file_tree_new = jsw_rbnew fh_key_val_cmp fh_key_val_dup"

text \<open>What all setters share: the tree is created if need be, the entry is sought, a fresh entry is
  inserted or the found one replaced by a changed copy.  The third component says whether the entry
  was there.\<close>

definition fh_put ::
    "fcall \<Rightarrow> file_tree \<Rightarrow> int \<Rightarrow> file_handle \<Rightarrow> (file_handle \<Rightarrow> file_handle) \<Rightarrow>
     (file_tree \<times> bool) option" where
  "fh_put e t idx fresh upd =
     do { let tree = (case t of None \<Rightarrow> file_tree_new | Some tree \<Rightarrow> tree);
          if item_ok e then
            do { found \<leftarrow> jsw_rbfind tree \<lparr>fkey = idx, fhandle = junk e\<rparr>;
                 case found of
                   None \<Rightarrow> do { (r, tree) \<leftarrow> jsw_rbinsert (node_ok e) tree \<lparr>fkey = idx, fhandle = fresh\<rparr>;
                               Some (Some tree, False) }
                 | Some it \<Rightarrow>
                     if new_ok e then
                       do { (r, tree, rel) \<leftarrow> jsw_rberase tree it;
                            (r, tree) \<leftarrow> jsw_rbinsert (node_ok e) tree
                                          \<lparr>fkey = idx, fhandle = upd (fhandle it)\<rparr>;
                            Some (Some tree, True) }
                     else Some (Some tree, True) }
          else Some (Some tree, False) }"

text \<open>What all getters share: \<open>dflt\<close> without lock, tree or memory, \<open>miss\<close> when there is no entry.\<close>

definition fh_get :: "fcall \<Rightarrow> file_tree \<Rightarrow> int \<Rightarrow> 'b \<Rightarrow> 'b \<Rightarrow> (file_handle \<Rightarrow> 'b) \<Rightarrow> 'b option" where
  "fh_get e t idx dflt miss sel =
     (if lock_ok e then
        (case t of
           None \<Rightarrow> Some dflt
         | Some tree \<Rightarrow>
             if item_ok e then
               do { found \<leftarrow> jsw_rbfind tree \<lparr>fkey = idx, fhandle = junk e\<rparr>;
                    Some (case found of None \<Rightarrow> miss | Some it \<Rightarrow> sel (fhandle it)) }
             else Some dflt)
      else Some dflt)"

definition remove_file_handle_data :: "fcall \<Rightarrow> file_tree \<Rightarrow> int \<Rightarrow> (int \<times> file_tree) option" where
  "remove_file_handle_data e t idx =
     (if lock_ok e then
        (case t of
           None \<Rightarrow> Some (-1, None)
         | Some tree \<Rightarrow>
             if item_ok e then
               do { (r, tree, rel) \<leftarrow> jsw_rberase tree \<lparr>fkey = idx, fhandle = junk e\<rparr>;
                    Some (r, Some tree) }
             else Some (-1, t))
      else Some (-1, t))"

definition set_file_handle_data ::
    "pco \<Rightarrow> fcall \<Rightarrow> file_tree \<Rightarrow> int \<Rightarrow> int \<Rightarrow> string \<Rightarrow> string \<Rightarrow> string option \<Rightarrow>
     (int \<times> file_tree) option" where
  "set_file_handle_data P e t idx perm backup csum path =
     (if lock_ok e then
        do { (t, found) \<leftarrow> fh_put e t idx
               \<lparr>permission = perm, backupCreated = 0, cacheStatus = -1, userId = 0,
                backupPath = c_copy (path_len P) backup, csumPath = c_copy (path_len P) csum,
                filePath = path\<rparr>
               (\<lambda>f. f\<lparr>permission := perm, filePath := path,
                       backupPath := c_copy (path_len P) backup, csumPath := c_copy (path_len P) csum\<rparr>);
             Some (if item_ok e then 0 else -1, t) }
      else Some (-1, t))"

definition get_file_permission :: "pco \<Rightarrow> fcall \<Rightarrow> file_tree \<Rightarrow> int \<Rightarrow> int option" where
  "get_file_permission P e t idx = fh_get e t idx (perm_last P) (-1) permission"

definition get_file_backup_path :: "fcall \<Rightarrow> file_tree \<Rightarrow> int \<Rightarrow> string option option" where
  "get_file_backup_path e t idx = fh_get e t idx None None (\<lambda>f. Some (backupPath f))"

definition get_file_checksum_path :: "fcall \<Rightarrow> file_tree \<Rightarrow> int \<Rightarrow> string option option" where
  "get_file_checksum_path e t idx = fh_get e t idx None None (\<lambda>f. Some (csumPath f))"

definition set_file_backup_status :: "pco \<Rightarrow> fcall \<Rightarrow> file_tree \<Rightarrow> int \<Rightarrow> int \<Rightarrow> file_tree option" where
  "set_file_backup_status P e t idx status =
     (if lock_ok e then
        map_option fst (fh_put e t idx
          ((junk e)\<lparr>backupCreated := status, permission := perm_last P, cacheStatus := -1,
                    userId := 0, filePath := None\<rparr>)
          (\<lambda>f. f\<lparr>backupCreated := status\<rparr>))
      else Some t)"

definition get_file_backup_status :: "fcall \<Rightarrow> file_tree \<Rightarrow> int \<Rightarrow> int option" where
  "get_file_backup_status e t idx = fh_get e t idx (-1) (-1) backupCreated"

definition set_file_cache_status :: "pco \<Rightarrow> fcall \<Rightarrow> file_tree \<Rightarrow> int \<Rightarrow> int \<Rightarrow> file_tree option" where
  "set_file_cache_status P e t idx status =
     (if lock_ok e then
        map_option fst (fh_put e t idx
          \<lparr>permission = perm_last P, backupCreated = 0, cacheStatus = status, userId = 0,
           backupPath = [], csumPath = [], filePath = None\<rparr>
          (\<lambda>f. f\<lparr>cacheStatus := status\<rparr>))
      else Some t)"

definition get_file_cache_status :: "fcall \<Rightarrow> file_tree \<Rightarrow> int \<Rightarrow> int option" where
  "get_file_cache_status e t idx = fh_get e t idx (-1) (-1) cacheStatus"

text \<open>\<^verbatim>\<open>set_file_user_id\<close> ends with \<^verbatim>\<open>free(foundItem)\<close>.  A found item belongs to the tree: it has been
  released by \<^verbatim>\<open>jsw_rberase\<close>, or is still referenced by its node.  Freeing it is a memory error.\<close>

definition set_file_user_id :: "fcall \<Rightarrow> file_tree \<Rightarrow> int \<Rightarrow> int \<Rightarrow> file_tree option" where
  "set_file_user_id e t idx uid =
     (if lock_ok e then
        do { (t, found) \<leftarrow> fh_put e t idx
               \<lparr>permission = -1, backupCreated = 0, cacheStatus = -1, userId = uid,
                backupPath = [], csumPath = [], filePath = None\<rparr>
               (\<lambda>f. f\<lparr>userId := uid\<rparr>);
             if found then None else Some t }
      else Some t)"

definition get_file_user_id :: "fcall \<Rightarrow> file_tree \<Rightarrow> int \<Rightarrow> int option" where
  "get_file_user_id e t idx = fh_get e t idx (-1) (-1) userId"

text \<open>The second table.  An existing entry keeps its backup flag, whatever \<open>backupDone\<close> says.\<close>

definition set_ossfile_handle_data ::
    "pco \<Rightarrow> fcall \<Rightarrow> file_tree \<Rightarrow> int \<Rightarrow> int \<Rightarrow> int \<Rightarrow> string \<Rightarrow> string \<Rightarrow> string option \<Rightarrow>
     (int \<times> file_tree) option" where
  "set_ossfile_handle_data P e t idx perm backupDone backup csum path =
     (if lock_ok e then
        do { (t, found) \<leftarrow> fh_put e t idx
               \<lparr>permission = perm, backupCreated = backupDone, cacheStatus = -1, userId = 0,
                backupPath = c_copy (path_len P) backup, csumPath = c_copy (path_len P) csum,
                filePath = path\<rparr>
               (\<lambda>f. f\<lparr>permission := perm, filePath := path,
                       backupPath := c_copy (path_len P) backup, csumPath := c_copy (path_len P) csum\<rparr>);
             Some (0, t) }
      else Some (0, t))"

definition get_ossfile_permission :: "pco \<Rightarrow> fcall \<Rightarrow> file_tree \<Rightarrow> int \<Rightarrow> int option" where
  "get_ossfile_permission P e t idx = fh_get e t idx (perm_last P) (-1) permission"

definition get_ossfile_backup_path :: "fcall \<Rightarrow> file_tree \<Rightarrow> int \<Rightarrow> string option option" where
  "get_ossfile_backup_path e t idx = fh_get e t idx None None (\<lambda>f. Some (backupPath f))"

definition get_ossfile_file_path :: "fcall \<Rightarrow> file_tree \<Rightarrow> int \<Rightarrow> string option option" where
  "get_ossfile_file_path e t idx = fh_get e t idx None None filePath"

definition set_ossfile_file_path :: "fcall \<Rightarrow> file_tree \<Rightarrow> int \<Rightarrow> string option \<Rightarrow> file_tree option" where
  "set_ossfile_file_path e t idx path =
     (if lock_ok e then
        map_option fst (fh_put e t idx
          \<lparr>permission = -1, backupCreated = 0, cacheStatus = -1, userId = 0,
           backupPath = [], csumPath = [], filePath = path\<rparr>
          (\<lambda>f. f\<lparr>filePath := path\<rparr>))
      else Some t)"

definition get_ossfile_checksum_path :: "fcall \<Rightarrow> file_tree \<Rightarrow> int \<Rightarrow> string option option" where
  "get_ossfile_checksum_path e t idx = fh_get e t idx None None (\<lambda>f. Some (csumPath f))"

definition remove_ossfile_handle_data :: "fcall \<Rightarrow> file_tree \<Rightarrow> int \<Rightarrow> (int \<times> file_tree) option" where
  "remove_ossfile_handle_data e t idx =
     (if lock_ok e then
        (case t of
           None \<Rightarrow> Some (-1, None)
         | Some tree \<Rightarrow>
             if item_ok e then
               do { (r, tree, rel) \<leftarrow> jsw_rberase tree \<lparr>fkey = idx, fhandle = junk e\<rparr>;
                    Some (r, Some tree) }
             else Some (-1, t))
      else Some (-1, t))"

text \<open>\<^verbatim>\<open>deleteHandleTrees\<close>: the three trees are destroyed and their pointers reset.\<close>

definition drop_tree :: "'a jsw_rbtree option \<Rightarrow> 'a jsw_rbtree option option" where
  "drop_tree t = (case t of None \<Rightarrow> Some None | Some tree \<Rightarrow> map_option (\<lambda>_. None) (jsw_rbdelete tree))"

definition deleteHandleTrees ::
    "key_tree \<times> file_tree \<times> file_tree \<Rightarrow> (key_tree \<times> file_tree \<times> file_tree) option" where
  "deleteHandleTrees = (\<lambda>(k, f, o').
     do { k \<leftarrow> drop_tree k; f \<leftarrow> drop_tree f; o' \<leftarrow> drop_tree o'; Some (k, f, o') })"

section \<open>The table the tree stands for\<close>

definition file_table :: "file_tree \<Rightarrow> (int \<rightharpoonup> file_handle) \<Rightarrow> bool" where
  "file_table t m \<longleftrightarrow>
     (case t of
        None \<Rightarrow> m = Map.empty
      | Some tree \<Rightarrow> \<exists>m'. fh.rb_rep tree m' \<and> m = (\<lambda>i. map_option fhandle (m' (- i))))"

lemma file_table_None [simp]: "file_table None m \<longleftrightarrow> m = Map.empty"
  by (simp add: file_table_def)

lemma file_table_some:
  assumes "file_table t m"
  shows "\<exists>m'. fh.rb_rep (case t of None \<Rightarrow> file_tree_new | Some tree \<Rightarrow> tree) m' \<and>
    m = (\<lambda>i. map_option fhandle (m' (- i)))"
  using assms fh.store.rep_new by (cases t) (auto simp: file_table_def file_tree_new_def)

lemma fh_get_table:
  assumes "file_table t m"
  shows "fh_get (all_ok j) t idx dflt miss sel =
    Some (if t = None then dflt else case m idx of None \<Rightarrow> miss | Some f \<Rightarrow> sel f)"
proof (cases t)
  case None
  then show ?thesis by (simp add: fh_get_def)
next
  case (Some tree)
  then obtain m' where m': "fh.rb_rep tree m'" "m = (\<lambda>i. map_option fhandle (m' (- i)))"
    using assms by (auto simp: file_table_def)
  then show ?thesis
    using fh.store.find_rep [OF m'(1), of "\<lparr>fkey = idx, fhandle = j\<rparr>"]
    by (cases "m' (- idx)") (simp_all add: Some fh_get_def)
qed

lemma fh_get_present:
  "file_table t m \<Longrightarrow> t \<noteq> None \<Longrightarrow> m idx = Some f \<Longrightarrow> fh_get (all_ok j) t idx dflt miss sel = Some (sel f)"
  by (cases t) (simp_all add: fh_get_table)

lemma fh_put_table:
  assumes "file_table t m"
  shows "\<exists>t'. fh_put (all_ok j) t idx fresh upd = Some (t', m idx \<noteq> None) \<and> t' \<noteq> None \<and>
    file_table t' (m(idx \<mapsto> (case m idx of None \<Rightarrow> fresh | Some f \<Rightarrow> upd f)))"
proof -
  define tree where "tree = (case t of None \<Rightarrow> file_tree_new | Some tree \<Rightarrow> tree)"
  obtain m' where m': "fh.rb_rep tree m'" "m = (\<lambda>i. map_option fhandle (m' (- i)))"
    using file_table_some [OF assms] by (auto simp: tree_def)
  have f: "jsw_rbfind tree \<lparr>fkey = idx, fhandle = j\<rparr> = Some (m' (- idx))"
    using fh.store.find_rep [OF m'(1), of "\<lparr>fkey = idx, fhandle = j\<rparr>"] by simp
  have ins: "\<exists>t'. jsw_rbinsert True t0 \<lparr>fkey = idx, fhandle = v\<rparr> = Some (1, t') \<and>
      file_table (Some t') ((\<lambda>i. map_option fhandle (m0 (- i)))(idx \<mapsto> v))"
    if r: "fh.rb_rep t0 m0" "m0 (- idx) = None" for t0 m0 v
  proof -
    obtain t' where t': "jsw_rbinsert True t0 \<lparr>fkey = idx, fhandle = v\<rparr> = Some (1, t')"
      "fh.rb_rep t' (m0(- idx := Some \<lparr>fkey = idx, fhandle = v\<rparr>))"
      using fh.store.ins_new [OF r(1), of "\<lparr>fkey = idx, fhandle = v\<rparr>"] r(2) by auto
    have "file_table (Some t') (\<lambda>i. map_option fhandle ((m0(- idx := Some \<lparr>fkey = idx, fhandle = v\<rparr>)) (- i)))"
      using t'(2) unfolding file_table_def by auto
    then show ?thesis
      using t'(1) unfolding map_neg_upd by simp
  qed
  show ?thesis
  proof (cases "m' (- idx)")
    case None
    then show ?thesis
      using ins [OF m'(1) None, of fresh] f by (auto simp: fh_put_def tree_def m'(2))
  next
    case (Some it)
    have k: "fkey it = idx"
      using fh.store.rep_key [OF m'(1) Some] by simp
    obtain t1 where t1: "jsw_rberase tree it = Some (1, t1, [it])" "fh.rb_rep t1 (m'(- idx := None))"
      using fh.store.era_rep [OF m'(1), of it] Some k by auto
    obtain t2 where "jsw_rbinsert True t1 \<lparr>fkey = idx, fhandle = upd (fhandle it)\<rparr> = Some (1, t2)"
      "file_table (Some t2) ((\<lambda>i. map_option fhandle ((m'(- idx := None)) (- i)))(idx \<mapsto> upd (fhandle it)))"
      using ins [OF t1(2)] by auto
    then show ?thesis
      using f t1(1) Some unfolding map_neg_upd by (simp add: fh_put_def tree_def m'(2))
  qed
qed

lemma fh_put_present:
  assumes "file_table t m" and "m idx = Some f"
  shows "\<exists>t'. fh_put (all_ok j) t idx fresh upd = Some (t', True) \<and> t' \<noteq> None \<and> file_table t' (m(idx \<mapsto> upd f))"
  using fh_put_table [OF assms(1), of j idx fresh upd] assms(2) by simp

lemma remove_file_table:
  assumes "file_table t m"
  shows "\<exists>t'. remove_file_handle_data (all_ok j) t idx = Some (if t = None then -1 else 1, t') \<and>
    file_table t' (m(idx := None))"
proof (cases t)
  case None
  then show ?thesis
    using assms by (simp add: remove_file_handle_data_def)
next
  case (Some tree)
  then obtain m' where m': "fh.rb_rep tree m'" "m = (\<lambda>i. map_option fhandle (m' (- i)))"
    using assms by (auto simp: file_table_def)
  obtain tree' where t': "jsw_rberase tree \<lparr>fkey = idx, fhandle = j\<rparr> =
      Some (1, tree', case m' (- idx) of None \<Rightarrow> [] | Some y \<Rightarrow> [y])"
    "fh.rb_rep tree' (m'(- idx := None))"
    using fh.store.era_rep [OF m'(1), of "\<lparr>fkey = idx, fhandle = j\<rparr>"] by auto
  have "file_table (Some tree') (\<lambda>i. map_option fhandle ((m'(- idx := None)) (- i)))"
    using t'(2) unfolding file_table_def by auto
  then show ?thesis
    using t'(1) unfolding map_neg_upd by (simp add: Some remove_file_handle_data_def m'(2))
qed

lemma remove_ossfile_same: "remove_ossfile_handle_data = remove_file_handle_data"
  by (simp add: fun_eq_iff remove_ossfile_handle_data_def remove_file_handle_data_def)

lemma drop_key_tree: "key_table t m \<Longrightarrow> drop_tree t = Some None"
  using kh.store.del_rep by (cases t) (fastforce simp: key_table_def drop_tree_def)+

lemma drop_file_tree: "file_table t m \<Longrightarrow> drop_tree t = Some None"
  using fh.store.del_rep by (cases t) (fastforce simp: file_table_def drop_tree_def)+

lemmas file_getters = get_file_permission_def get_file_backup_path_def get_file_checksum_path_def
  get_file_backup_status_def get_file_cache_status_def get_file_user_id_def
  get_ossfile_permission_def get_ossfile_backup_path_def get_ossfile_file_path_def
  get_ossfile_checksum_path_def

section \<open>Properties\<close>

text \<open>Opening a file under a free number stores its permission and its two paths, cut to the
  length of the path arrays, with no backup made, no cache status and user 0; all other entries of
  the table stay.\<close>

lemma file_handle_stored:
  assumes "file_table t m" and "m idx = None"
  shows "\<exists>t'. set_file_handle_data P (all_ok j) t idx perm backup csum path = Some (0, t') \<and>
    get_file_permission P (all_ok j) t' idx = Some perm \<and>
    get_file_backup_path (all_ok j) t' idx = Some (Some (c_copy (path_len P) backup)) \<and>
    get_file_checksum_path (all_ok j) t' idx = Some (Some (c_copy (path_len P) csum)) \<and>
    get_file_backup_status (all_ok j) t' idx = Some 0 \<and>
    get_file_cache_status (all_ok j) t' idx = Some (-1) \<and>
    get_file_user_id (all_ok j) t' idx = Some 0 \<and>
    (\<exists>f. file_table t' (m(idx \<mapsto> f)))"
proof -
  define f where "f = \<lparr>permission = perm, backupCreated = 0, cacheStatus = -1, userId = 0,
    backupPath = c_copy (path_len P) backup, csumPath = c_copy (path_len P) csum, filePath = path\<rparr>"
  obtain t' where t': "set_file_handle_data P (all_ok j) t idx perm backup csum path = Some (0, t')" "t' \<noteq> None"
    "file_table t' (m(idx \<mapsto> f))"
    using fh_put_table [OF assms(1), of j idx f "\<lambda>f. f\<lparr>permission := perm, filePath := path,
      backupPath := c_copy (path_len P) backup, csumPath := c_copy (path_len P) csum\<rparr>"] assms(2)
    unfolding f_def set_file_handle_data_def by auto
  have "fh_get (all_ok j) t' idx dflt miss sel = Some (sel f)" for dflt miss and sel :: "file_handle \<Rightarrow> 'x"
    by (rule fh_get_present [OF t'(3,2)]) simp
  note get = this
  show ?thesis
    using t' by (intro exI [of _ t'] conjI exI [of _ f]) (simp_all add: file_getters get, simp_all add: f_def)
qed

lemma file_handle_stored_witness:
  "\<exists>t'. set_file_handle_data pco_1 (all_ok undefined) None 5 0 ''b'' ''c'' None = Some (0, t') \<and>
    get_file_backup_path (all_ok undefined) t' 5 = Some (Some ''b'')"
  using file_handle_stored [of None Map.empty 5 pco_1 undefined 0 "''b''" "''c''" None]
  by (auto simp: pco_1_def)

text \<open>
  Changing the backup status or the cache status of an open file changes that field of that
  entry and nothing else, so that \<^verbatim>\<open>get_file_backup_status\<close> and \<^verbatim>\<open>get_file_cache_status\<close> return the
  last status set.
\<close>

lemma file_status_set:
  assumes "file_table t m" and "m idx = Some f"
  shows "\<exists>t1 t2. set_file_backup_status P (all_ok j) t idx s = Some t1 \<and>
      file_table t1 (m(idx \<mapsto> f\<lparr>backupCreated := s\<rparr>)) \<and> get_file_backup_status (all_ok j) t1 idx = Some s \<and>
    set_file_cache_status P (all_ok j) t1 idx c = Some t2 \<and>
      file_table t2 (m(idx \<mapsto> f\<lparr>backupCreated := s, cacheStatus := c\<rparr>)) \<and>
      get_file_cache_status (all_ok j) t2 idx = Some c \<and> get_file_backup_status (all_ok j) t2 idx = Some s"
proof -
  obtain t1 where t1: "set_file_backup_status P (all_ok j) t idx s = Some t1" "t1 \<noteq> None"
    "file_table t1 (m(idx \<mapsto> f\<lparr>backupCreated := s\<rparr>))"
    using fh_put_present [OF assms, of j _ "\<lambda>f. f\<lparr>backupCreated := s\<rparr>"]
    unfolding set_file_backup_status_def all_ok_simps by fastforce
  obtain t2 where t2: "set_file_cache_status P (all_ok j) t1 idx c = Some t2" "t2 \<noteq> None"
    "file_table t2 (m(idx \<mapsto> f\<lparr>backupCreated := s, cacheStatus := c\<rparr>))"
    using fh_put_present [OF t1(3), of idx _ j _ "\<lambda>f. f\<lparr>cacheStatus := c\<rparr>"]
    unfolding set_file_cache_status_def all_ok_simps by fastforce
  have "fh_get (all_ok j) t1 idx (-1) (-1) backupCreated = Some s"
    using fh_get_present [OF t1(3,2), of idx "f\<lparr>backupCreated := s\<rparr>" j "-1" "-1" backupCreated] by simp
  moreover have "fh_get (all_ok j) t2 idx (-1) (-1) backupCreated = Some s"
    "fh_get (all_ok j) t2 idx (-1) (-1) cacheStatus = Some c"
    using fh_get_present [OF t2(3,2), of idx "f\<lparr>backupCreated := s, cacheStatus := c\<rparr>" j "-1" "-1" backupCreated]
      fh_get_present [OF t2(3,2), of idx "f\<lparr>backupCreated := s, cacheStatus := c\<rparr>" j "-1" "-1" cacheStatus]
    by simp_all
  ultimately show ?thesis
    using t1 t2 unfolding file_getters by blast
qed

lemma file_status_set_witness:
  "\<exists>t t1 t2. set_file_handle_data pco_1 (all_ok undefined) None 5 0 ''b'' ''c'' None = Some (0, t) \<and>
    set_file_backup_status pco_1 (all_ok undefined) t 5 1 = Some t1 \<and>
    set_file_cache_status pco_1 (all_ok undefined) t1 5 9 = Some t2 \<and>
    get_file_backup_status (all_ok undefined) t2 5 = Some 1"
proof -
  obtain t f where t: "set_file_handle_data pco_1 (all_ok undefined) None 5 0 ''b'' ''c'' None = Some (0, t)"
    "file_table t (Map.empty(5 \<mapsto> f))"
    using fh_put_table [of None Map.empty undefined 5] unfolding set_file_handle_data_def by fastforce
  then show ?thesis
    using file_status_set [OF t(2), of 5 f pco_1 undefined 1 9] by fastforce
qed

text \<open>
  Setting the user of a file that is open is a memory error, because the entry found in the
  tree is freed a second time after the tree has released it.
\<close>

lemma set_file_user_id_double_free:
  assumes "file_table t m" and "m idx = Some f"
  shows "set_file_user_id (all_ok j) t idx uid = None"
proof -
  obtain t' where "fh_put (all_ok j) t idx
      \<lparr>permission = -1, backupCreated = 0, cacheStatus = -1, userId = uid, backupPath = [], csumPath = [], filePath = None\<rparr>
      (\<lambda>f. f\<lparr>userId := uid\<rparr>) = Some (t', True)"
    using fh_put_present [OF assms] by blast
  then show ?thesis
    by (simp add: set_file_user_id_def)
qed

lemma set_file_user_id_double_free_witness:
  "\<exists>t. set_file_handle_data pco_1 (all_ok undefined) None 5 0 ''b'' ''c'' None = Some (0, t) \<and>
    set_file_user_id (all_ok undefined) t 5 1 = None"
proof -
  obtain t f where "set_file_handle_data pco_1 (all_ok undefined) None 5 0 ''b'' ''c'' None = Some (0, t)"
    "file_table t (Map.empty(5 \<mapsto> f))"
    using fh_put_table [of None Map.empty undefined 5] unfolding set_file_handle_data_def by fastforce
  then show ?thesis
    using set_file_user_id_double_free [of t "Map.empty(5 \<mapsto> f)" 5 f undefined 1] by auto
qed

end
