(* ===== verification/Fd_List.thy ===== *)
theory Fd_List
  imports Pcl_Prelude
begin

text \<open>
  The singly linked lists of open file descriptors (\<^verbatim>\<open>PersList_item_s\<close>, \<^verbatim>\<open>gOpenFdList\<close> and
  \<^verbatim>\<open>gCPOpenFdList\<close> in \<^verbatim>\<open>persistence_client_library_handle.c\<close>), over an explicit heap of cells as in
  \<open>Rb_Tree\<close>: \<open>None\<close> is an access to NULL or to a freed cell, or a walk that does not end.
\<close>

section \<open>The code\<close>

record fd_cell =
  fd :: int
  nxt :: nat

record pers_list =
  head :: nat
  cells :: "nat \<rightharpoonup> fd_cell"
  lbrk :: nat

definition empty_list :: pers_list where
  "empty_list = \<lparr>head = 0, cells = Map.empty, lbrk = 1\<rparr>"

text \<open>\<open>list_last\<close> is the loop that walks to the last cell; \<open>mem\<close> says whether malloc succeeds.\<close>

partial_function (option) list_last :: "(nat \<rightharpoonup> fd_cell) \<Rightarrow> nat \<Rightarrow> nat option" where
  "list_last h tmp =
     do { c \<leftarrow> h tmp;
          if nxt c \<noteq> 0 then list_last h (nxt c) else Some tmp }"

definition list_item_insert :: "bool \<Rightarrow> pers_list \<Rightarrow> int \<Rightarrow> (int \<times> pers_list) option" where
  "list_item_insert mem l f =
     (if head l \<noteq> 0 then
        do { tmp \<leftarrow> list_last (cells l) (head l);
             c \<leftarrow> cells l tmp;
             if mem then
               Some (1, l\<lparr>cells := (cells l)(tmp \<mapsto> c\<lparr>nxt := lbrk l\<rparr>, lbrk l \<mapsto> \<lparr>fd = f, nxt = 0\<rparr>),
                          lbrk := Suc (lbrk l)\<rparr>)
             else Some (-1, l) }
      else if mem then
        Some (1, l\<lparr>head := lbrk l, cells := (cells l)(lbrk l \<mapsto> \<lparr>fd = f, nxt = 0\<rparr>), lbrk := Suc (lbrk l)\<rparr>)
      else None)"

partial_function (option) list_get_loop :: "(nat \<rightharpoonup> fd_cell) \<Rightarrow> int \<Rightarrow> nat \<Rightarrow> int option" where
  "list_get_loop h f tmp =
     (if tmp = 0 then Some 0
      else do { c \<leftarrow> h tmp;
                if fd c = f then Some (fd c) else list_get_loop h f (nxt c) })"

definition list_item_get_data :: "pers_list \<Rightarrow> int \<Rightarrow> int option" where
  "list_item_get_data l f = (if head l \<noteq> 0 then list_get_loop (cells l) f (head l) else Some (-1))"

partial_function (option) list_remove_loop ::
    "pers_list \<Rightarrow> int \<Rightarrow> nat \<Rightarrow> nat \<Rightarrow> (int \<times> pers_list) option" where
  "list_remove_loop l f prev tmp =
     (if tmp = 0 then Some (-1, l)
      else do {
        c \<leftarrow> cells l tmp;
        if fd c = f then
          (if tmp = head l then Some (1, l\<lparr>head := nxt c, cells := (cells l)(tmp := None)\<rparr>)
           else do { p \<leftarrow> cells l prev;
                     Some (1, l\<lparr>cells := (cells l)(prev \<mapsto> p\<lparr>nxt := nxt c\<rparr>, tmp := None)\<rparr>) })
        else list_remove_loop l f tmp (nxt c) })"

definition list_item_remove :: "pers_list \<Rightarrow> int \<Rightarrow> (int \<times> pers_list) option" where
  "list_item_remove l f = list_remove_loop l f 0 (head l)"

text \<open>
  The callback works on a state \<open>'s\<close> in which the list lives; \<open>get\<close> reads the cells from it.  The
  pointer to the next cell is read after the callback has returned.
\<close>

partial_function (option) list_iterate ::
    "('s \<Rightarrow> nat \<rightharpoonup> fd_cell) \<Rightarrow> (int \<Rightarrow> 's \<Rightarrow> 's option) \<Rightarrow> 's \<Rightarrow> nat \<Rightarrow> 's option" where
  "list_iterate get callback s tmp =
     (if tmp = 0 then Some s
      else do { c \<leftarrow> get s tmp;
                s \<leftarrow> callback (fd c) s;
                c \<leftarrow> get s tmp;
                list_iterate get callback s (nxt c) })"

partial_function (option) list_size_loop :: "(nat \<rightharpoonup> fd_cell) \<Rightarrow> int \<Rightarrow> nat \<Rightarrow> int option" where
  "list_size_loop h n tmp =
     (if tmp = 0 then Some n else do { c \<leftarrow> h tmp; list_size_loop h (n + 1) (nxt c) })"

definition list_get_size :: "pers_list \<Rightarrow> int option" where
  "list_get_size l = list_size_loop (cells l) 0 (head l)"

partial_function (option) list_destroy_loop ::
    "(nat \<rightharpoonup> fd_cell) \<Rightarrow> nat \<Rightarrow> (nat \<rightharpoonup> fd_cell) option" where
  "list_destroy_loop h tmp =
     (if tmp = 0 then Some h else do { c \<leftarrow> h tmp; list_destroy_loop (h(tmp := None)) (nxt c) })"

definition list_destroy :: "pers_list \<Rightarrow> pers_list option" where
  "list_destroy l = map_option (\<lambda>h. l\<lparr>head := 0, cells := h\<rparr>) (list_destroy_loop (cells l) (head l))"

section \<open>The list the cells stand for\<close>

fun chain :: "(nat \<rightharpoonup> fd_cell) \<Rightarrow> nat \<Rightarrow> (nat \<times> int) list \<Rightarrow> nat \<Rightarrow> bool" where
  "chain h p [] e = (p = e)"
| "chain h p ((a, f) # xs) e =
     (p = a \<and> a \<noteq> 0 \<and> (\<exists>n. h a = Some \<lparr>fd = f, nxt = n\<rparr> \<and> chain h n xs e))"

definition fd_list_at :: "pers_list \<Rightarrow> (nat \<times> int) list \<Rightarrow> bool" where
  "fd_list_at l ps \<longleftrightarrow>
     chain (cells l) (head l) ps 0 \<and> distinct (map fst ps) \<and> dom (cells l) = set (map fst ps) \<and>
     (\<forall>a \<in> set (map fst ps). a < lbrk l) \<and> 0 < lbrk l"

definition fd_list :: "pers_list \<Rightarrow> int list \<Rightarrow> bool" where
  "fd_list l xs \<longleftrightarrow> (\<exists>ps. fd_list_at l ps \<and> xs = map snd ps)"

lemma chain_upd [simp]: "a \<notin> set (map fst ps) \<Longrightarrow> chain (h(a := v)) p ps e = chain h p ps e"
  by (induction h p ps e rule: chain.induct) auto

lemma chain_append: "chain h p (xs @ ys) e \<longleftrightarrow> (\<exists>m. chain h p xs m \<and> chain h m ys e)"
proof (induction xs arbitrary: p)
  case (Cons x xs)
  then show ?case by (cases x) auto
qed simp

lemma chain_NULL: "chain h p ps 0 \<Longrightarrow> p = 0 \<longleftrightarrow> ps = []"
  by (cases ps) auto

lemma fd_list_empty [simp]: "fd_list empty_list []"
  by (simp add: fd_list_def fd_list_at_def empty_list_def)

lemma list_last_chain:
  "chain h p (xs @ [(a, f)]) 0 \<Longrightarrow> list_last h p = Some a"
proof (induction xs arbitrary: p)
  case Nil
  then show ?case by (subst list_last.simps) auto
next
  case (Cons x xs)
  then show ?case by (subst list_last.simps) (cases x; auto simp: chain_append; cases xs; auto)
qed

lemma list_get_loop_chain:
  "chain h p ps 0 \<Longrightarrow> list_get_loop h f p = Some (if f \<in> snd ` set ps then f else 0)"
proof (induction h p ps "0 :: nat" rule: chain.induct)
  case (1 h p)
  then show ?case by (subst list_get_loop.simps) simp
next
  case (2 h p a g xs)
  then obtain n where "p = a" "a \<noteq> 0" "h a = Some \<lparr>fd = g, nxt = n\<rparr>" "chain h n xs 0"
    by auto
  then show ?case using 2(1) by (subst list_get_loop.simps) simp
qed

lemma list_size_loop_chain: "chain h p ps 0 \<Longrightarrow> list_size_loop h n p = Some (n + int (length ps))"
proof (induction ps arbitrary: p n)
  case Nil
  then show ?case by (subst list_size_loop.simps) simp
next
  case (Cons x ps)
  then show ?case by (subst list_size_loop.simps) (cases x; auto)
qed

lemma list_destroy_loop_chain:
  "chain h p ps 0 \<Longrightarrow> distinct (map fst ps) \<Longrightarrow>
   list_destroy_loop h p = Some (h |` (- set (map fst ps)))"
proof (induction ps arbitrary: p h)
  case Nil
  then show ?case by (subst list_destroy_loop.simps) (simp add: restrict_map_def)
next
  case (Cons x ps)
  obtain a f where x: "x = (a, f)" by (cases x)
  obtain n where n: "p = a" "a \<noteq> 0" "h a = Some \<lparr>fd = f, nxt = n\<rparr>" "chain (h(a := None)) n ps 0"
    using Cons.prems by (auto simp: x)
  define h1 where "h1 = h(a := None)"
  have "h1 |` (- set (map fst ps)) = h |` (- set (map fst (x # ps)))"
    by (auto simp: x fun_eq_iff restrict_map_def h1_def)
  moreover have "list_destroy_loop h1 n = Some (h1 |` (- set (map fst ps)))"
    unfolding h1_def by (rule Cons.IH [OF n(4)]) (use Cons.prems in \<open>simp add: x\<close>)
  moreover have "list_destroy_loop h p = list_destroy_loop h1 n"
    using n(1-3) by (subst list_destroy_loop.simps) (simp add: h1_def)
  ultimately show ?case
    by (simp only:)
qed

text \<open>Where the first cell with a descriptor is.\<close>

lemma list_remove_loop_absent:
  "chain (cells l) p ps 0 \<Longrightarrow> f \<notin> snd ` set ps \<Longrightarrow> list_remove_loop l f q p = Some (-1, l)"
proof (induction ps arbitrary: p q)
  case Nil
  then show ?case by (subst list_remove_loop.simps) simp
next
  case (Cons x ps)
  obtain a g where x: "x = (a, g)" by (cases x)
  then obtain n where "p = a" "a \<noteq> 0" "cells l a = Some \<lparr>fd = g, nxt = n\<rparr>" "chain (cells l) n ps 0"
    using Cons.prems(1) by auto
  then show ?case
    using Cons.IH Cons.prems(2) by (subst list_remove_loop.simps) (simp add: x)
qed

lemma list_remove_loop_present:
  assumes "chain (cells l) p (xs @ (a, f) # ys) 0" and "f \<notin> snd ` set xs"
    and "a \<noteq> head l" and "xs = [] \<longrightarrow> q = b" and "xs \<noteq> [] \<longrightarrow> fst (last xs) = b"
    and "cells l b = Some e"
  shows "\<exists>n. list_remove_loop l f q p = Some (1, l\<lparr>cells := (cells l)(b \<mapsto> e\<lparr>nxt := n\<rparr>, a := None)\<rparr>) \<and>
    chain (cells l) n ys 0"
  using assms
proof (induction xs arbitrary: p q)
  case Nil
  then obtain n where n: "p = a" "a \<noteq> 0" "cells l a = Some \<lparr>fd = f, nxt = n\<rparr>" "chain (cells l) n ys 0"
    by auto
  then have "list_remove_loop l f q p = Some (1, l\<lparr>cells := (cells l)(b \<mapsto> e\<lparr>nxt := n\<rparr>, a := None)\<rparr>)"
    using Nil(3,4,6) by (subst list_remove_loop.simps) simp
  then show ?case
    using n(4) by blast
next
  case (Cons x xs)
  obtain c g where x: "x = (c, g)" by (cases x)
  obtain n where n: "p = c" "c \<noteq> 0" "cells l c = Some \<lparr>fd = g, nxt = n\<rparr>"
    "chain (cells l) n (xs @ (a, f) # ys) 0"
    using Cons.prems(1) by (auto simp: x)
  have "f \<noteq> g" "f \<notin> snd ` set xs" "xs = [] \<longrightarrow> c = b" "xs \<noteq> [] \<longrightarrow> fst (last xs) = b"
    using Cons.prems(2,5) by (auto simp: x)
  moreover from this have "list_remove_loop l f q p = list_remove_loop l f c n"
    using n by (subst list_remove_loop.simps) simp
  ultimately show ?case
    using Cons.IH [OF n(4), of c] Cons.prems(3,6) by simp
qed

section \<open>The operations on the list\<close>

lemma fd_list_get: "fd_list l xs \<Longrightarrow> list_item_get_data l f = Some (if xs = [] then -1 else if f \<in> set xs then f else 0)"
  using list_get_loop_chain chain_NULL
  by (fastforce simp: fd_list_def fd_list_at_def list_item_get_data_def)

lemma fd_list_size: "fd_list l xs \<Longrightarrow> list_get_size l = Some (int (length xs))"
  using list_size_loop_chain [of "cells l" "head l" _ 0]
  by (auto simp: fd_list_def fd_list_at_def list_get_size_def)

lemma fd_list_destroy:
  assumes "fd_list l xs"
  shows "\<exists>l'. list_destroy l = Some l' \<and> fd_list l' []"
proof -
  obtain ps where ps: "fd_list_at l ps"
    using assms by (auto simp: fd_list_def)
  then have "list_destroy_loop (cells l) (head l) = Some (cells l |` (- set (map fst ps)))"
    using list_destroy_loop_chain by (simp add: fd_list_at_def)
  then show ?thesis
    using ps by (auto simp: fd_list_def fd_list_at_def list_destroy_def dom_def restrict_map_def)
qed

lemma fd_list_insert:
  assumes "fd_list l xs"
  shows "\<exists>l'. list_item_insert True l f = Some (1, l') \<and> fd_list l' (xs @ [f])"
proof -
  obtain ps where ps: "fd_list_at l ps" "xs = map snd ps"
    using assms by (auto simp: fd_list_def)
  show ?thesis
  proof (cases ps rule: rev_cases)
    case Nil
    define l' where "l' = l\<lparr>head := lbrk l, cells := (cells l)(lbrk l \<mapsto> \<lparr>fd = f, nxt = 0\<rparr>), lbrk := Suc (lbrk l)\<rparr>"
    have "list_item_insert True l f = Some (1, l')"
      using ps by (simp add: Nil list_item_insert_def fd_list_at_def l'_def)
    moreover have "fd_list_at l' [(lbrk l, f)]"
      using ps by (simp add: Nil fd_list_at_def l'_def)
    ultimately show ?thesis
      using ps by (auto simp: fd_list_def Nil)
  next
    case (snoc qs x)
    obtain a g where x: "x = (a, g)" by (cases x)
    have A: "chain (cells l) (head l) (qs @ [(a, g)]) 0" "distinct (map fst (qs @ [(a, g)]))"
      "\<forall>c \<in> set (map fst (qs @ [(a, g)])). c < lbrk l" "dom (cells l) = set (map fst (qs @ [(a, g)]))"
      using ps(1) by (simp_all add: fd_list_at_def snoc x)
    then obtain m where m: "chain (cells l) (head l) qs m" "chain (cells l) m [(a, g)] 0"
      by (auto simp: chain_append)
    then have a: "m = a" "a \<noteq> 0" "cells l a = Some \<lparr>fd = g, nxt = 0\<rparr>"
      by auto
    have b: "lbrk l \<notin> set (map fst qs)" "lbrk l \<noteq> a" "a \<notin> set (map fst qs)" "0 < lbrk l"
      using A ps(1) by (auto simp: fd_list_at_def)
    define l' where "l' = l\<lparr>cells := (cells l)(a \<mapsto> \<lparr>fd = g, nxt = lbrk l\<rparr>, lbrk l \<mapsto> \<lparr>fd = f, nxt = 0\<rparr>),
                          lbrk := Suc (lbrk l)\<rparr>"
    have "head l \<noteq> 0"
      using chain_NULL [OF A(1)] by simp
    then have "list_item_insert True l f = Some (1, l')"
      using list_last_chain [OF A(1)] a(3) by (simp add: list_item_insert_def l'_def)
    moreover have "chain (cells l') (head l') ((qs @ [(a, g)]) @ [(lbrk l, f)]) 0"
      unfolding chain_append
      using m(1) a b by (intro exI [of _ "lbrk l"] conjI exI [of _ m]) (simp_all add: l'_def)
    then have "fd_list_at l' ((qs @ [(a, g)]) @ [(lbrk l, f)])"
      using A b by (auto simp: fd_list_at_def l'_def less_Suc_eq)
    ultimately show ?thesis
      using ps by (auto simp: fd_list_def snoc x)
  qed
qed

lemma remove1_first: "f \<notin> set us \<Longrightarrow> remove1 f (us @ f # vs) = us @ vs"
  by (simp add: remove1_append)

lemma remove_head:
  assumes "fd_list_at l ((a, f) # rs)"
  shows "\<exists>l'. list_item_remove l f = Some (1, l') \<and> fd_list_at l' rs \<and> cells l' (head l) = None"
proof -
  obtain n where n: "head l = a" "a \<noteq> 0" "cells l a = Some \<lparr>fd = f, nxt = n\<rparr>" "chain (cells l) n rs 0"
    "a \<notin> set (map fst rs)"
    using assms by (auto simp: fd_list_at_def)
  define l' where "l' = l\<lparr>head := n, cells := (cells l)(a := None)\<rparr>"
  have "list_item_remove l f = Some (1, l')"
    using n unfolding list_item_remove_def by (subst list_remove_loop.simps) (simp add: l'_def)
  moreover have "fd_list_at l' rs"
    using assms n by (auto simp: fd_list_at_def l'_def)
  moreover have "cells l' (head l) = None"
    using n by (simp add: l'_def)
  ultimately show ?thesis by blast
qed

lemma remove_inner:
  assumes "fd_list_at l ((qs @ [(b, g)]) @ (a, f) # rs)" and "f \<notin> snd ` set (qs @ [(b, g)])"
  shows "\<exists>l'. list_item_remove l f = Some (1, l') \<and> fd_list_at l' ((qs @ [(b, g)]) @ rs)"
proof -
  have A: "chain (cells l) (head l) ((qs @ [(b, g)]) @ (a, f) # rs) 0"
    "distinct (map fst ((qs @ [(b, g)]) @ (a, f) # rs))"
    "dom (cells l) = set (map fst ((qs @ [(b, g)]) @ (a, f) # rs))"
    "\<forall>c \<in> set (map fst ((qs @ [(b, g)]) @ (a, f) # rs)). c < lbrk l" "0 < lbrk l"
    using assms(1) by (simp_all add: fd_list_at_def)
  obtain e where b: "cells l b = Some e" "b \<noteq> 0" "chain (cells l) (head l) qs b" "fd e = g"
    using A(1) by (auto simp: chain_append)
  have "a \<noteq> head l"
    using A(1,2) by (cases qs) auto
  then obtain n where n: "chain (cells l) n rs 0" "list_remove_loop l f 0 (head l) =
      Some (1, l\<lparr>cells := (cells l)(b \<mapsto> e\<lparr>nxt := n\<rparr>, a := None)\<rparr>)"
    using list_remove_loop_present [OF A(1) assms(2), of 0 b e] b by auto
  define l' where "l' = l\<lparr>cells := (cells l)(b \<mapsto> e\<lparr>nxt := n\<rparr>, a := None)\<rparr>"
  have e: "e\<lparr>nxt := n\<rparr> = \<lparr>fd = g, nxt = n\<rparr>"
    using b by (cases e) simp
  have "chain (cells l') (head l') ((qs @ [(b, g)]) @ rs) 0"
    unfolding chain_append l'_def
    using A(2) b(2,3) n(1) by (intro exI [of _ n] conjI exI [of _ b]) (auto simp: e)
  then have "fd_list_at l' ((qs @ [(b, g)]) @ rs)"
    using A b by (auto simp: fd_list_at_def l'_def)
  then show ?thesis
    using n(2) by (auto simp: list_item_remove_def l'_def)
qed

lemma fd_list_remove:
  assumes "fd_list l xs"
  shows "\<exists>l'. list_item_remove l f = Some (if f \<in> set xs then 1 else -1, l') \<and> fd_list l' (remove1 f xs)"
proof (cases "f \<in> set xs")
  case False
  then show ?thesis
    using assms list_remove_loop_absent [of l "head l" _ f 0]
    by (auto simp: fd_list_def fd_list_at_def list_item_remove_def remove1_idem)
next
  case True
  obtain ps where ps: "fd_list_at l ps" "xs = map snd ps"
    using assms by (auto simp: fd_list_def)
  obtain us vs where "xs = us @ f # vs" "f \<notin> set us"
    using split_list_first [OF True] by blast
  then obtain qs a rs where p: "ps = qs @ (a, f) # rs" "f \<notin> snd ` set qs" "us = map snd qs" "vs = map snd rs"
    using ps(2) by (auto simp: map_eq_append_conv)
  have R: "\<exists>l'. list_item_remove l f = Some (1, l') \<and> fd_list_at l' (qs @ rs)"
  proof (cases qs rule: rev_cases)
    case Nil
    then show ?thesis
      using remove_head [of l a f rs] ps(1) by (auto simp: p)
  next
    case (snoc q x)
    then show ?thesis
      using remove_inner [of l q "fst x" "snd x" a f rs] ps(1) p by simp
  qed
  have m: "remove1 f xs = map snd (qs @ rs)"
    using p ps(2) by (simp add: remove1_append image_iff)
  have "fd_list_at l' (qs @ rs) \<Longrightarrow> fd_list l' (remove1 f xs)" for l'
    unfolding fd_list_def m by blast
  then show ?thesis
    using True R by auto
qed

text \<open>
  The list under \<open>list_iterate\<close>: a callback that keeps the list is called once for each descriptor,
  in order; a callback that removes its descriptor frees the cell whose successor is read next.
\<close>

lemma list_iterate_keep:
  assumes "chain (get s) p ps 0" and "\<And>f s. f \<in> snd ` set ps \<Longrightarrow> \<exists>s'. callback f s = Some s' \<and> get s' = get s"
  shows "list_iterate get callback s p = fold (\<lambda>f r. Option.bind r (callback f)) (map snd ps) (Some s)"
  using assms
proof (induction ps arbitrary: p s)
  case Nil
  then show ?case by (subst list_iterate.simps) simp
next
  case (Cons x ps)
  obtain a f where x: "x = (a, f)" by (cases x)
  obtain n where n: "p = a" "a \<noteq> 0" "get s a = Some \<lparr>fd = f, nxt = n\<rparr>" "chain (get s) n ps 0"
    using Cons.prems(1) by (auto simp: x)
  obtain s' where s': "callback f s = Some s'" "get s' = get s"
    using Cons.prems(2) [of f s] by (auto simp: x)
  have "list_iterate get callback s p = list_iterate get callback s' n"
    using n s' by (subst list_iterate.simps) simp
  also have "\<dots> = fold (\<lambda>f r. Option.bind r (callback f)) (map snd ps) (Some s')"
    using Cons.IH [of s' n] n(4) s'(2) Cons.prems(2) by (simp add: x)
  finally show ?case
    using s' by (simp add: x)
qed

lemma list_iterate_removing:
  assumes "fd_list l (f # xs)"
  shows "list_iterate cells (\<lambda>f l. map_option snd (list_item_remove l f)) l (head l) = None"
proof -
  obtain a rs where ps: "fd_list_at l ((a, f) # rs)"
    using assms by (auto simp: fd_list_def map_eq_Cons_conv)
  obtain n where n: "head l = a" "a \<noteq> 0" "cells l a = Some \<lparr>fd = f, nxt = n\<rparr>"
    using ps by (auto simp: fd_list_at_def)
  obtain l' where "list_item_remove l f = Some (1, l')" "cells l' a = None"
    using remove_head [OF ps] n(1) by auto
  then show ?thesis
    using n by (subst list_iterate.simps) simp
qed

lemma list_iterate_freed:
  assumes "p \<noteq> 0" "get s p = Some c" "\<And>s'. callback (fd c) s = Some s' \<Longrightarrow> get s' p = None"
  shows "list_iterate get callback s p = None"
  using assms by (subst list_iterate.simps) (auto simp: bind_eq_None_conv)

end
