(* ===== verification/Posix_Files.thy ===== *)
theory Posix_Files
  imports Pcl_Prelude
begin

text \<open>
  The part of the POSIX file interface that the library calls, on regular files: names, contents,
  descriptors with a position and an access mode, directories, and the contents that are on stable
  storage.  What the system decides is the record \<open>os\<close>: which descriptor number it hands out, which
  names may be opened and created, and how many bytes a write takes.  A name is the list of the
  components of its path.  Opening a directory as a file, links and other processes are left out.
\<close>

section \<open>Files and descriptors\<close>

type_synonym path = "string list"

record desc =
  d_ino :: nat
  d_pos :: nat
  d_rd :: bool
  d_wr :: bool

record disk =
  names :: "path \<rightharpoonup> nat"
  inodes :: "nat \<Rightarrow> 8 word list"
  descs :: "int \<rightharpoonup> desc"
  dirs :: "path set"
  dir_fds :: "int set"
  next_ino :: nat
  stable :: "nat \<Rightarrow> 8 word list"

record os =
  os_fd :: "disk \<Rightarrow> int"
  os_may_open :: "path \<Rightarrow> bool"
  os_may_create :: "path \<Rightarrow> bool"
  os_written :: "nat \<Rightarrow> int"

text \<open>The cast of a size to \<^verbatim>\<open>int\<close>.\<close>

definition c_int :: "int \<Rightarrow> int" where
  "c_int x = sint (word_of_int x :: 32 word)"

lemma c_int_small [simp]: "- (2 ^ 31) \<le> x \<Longrightarrow> x < 2 ^ 31 \<Longrightarrow> c_int x = x"
  by (simp add: c_int_def signed_take_bit_int_eq_self sint_sbintrunc')

section \<open>Paths\<close>

fun split_path :: "char set \<Rightarrow> string \<Rightarrow> string list" where
  "split_path D [] = [[]]"
| "split_path D (c # s) =
     (if c \<in> D then [] # split_path D s
      else case split_path D s of a # l \<Rightarrow> (c # a) # l | [] \<Rightarrow> [])"

text \<open>The non-empty pieces: the components of a path, and the tokens that \<^verbatim>\<open>strtok\<close> gives.\<close>

definition tokens :: "char set \<Rightarrow> string \<Rightarrow> string list" where
  "tokens D p = filter (\<lambda>t. t \<noteq> []) (split_path D p)"

definition comps :: "string \<Rightarrow> path" where
  "comps p = tokens {CHR ''/''} p"

lemma split_path_not_Nil [simp]: "split_path D s \<noteq> []"
  by (induction s) (auto split: list.splits)

lemma split_path_word [simp]: "set a \<inter> D = {} \<Longrightarrow> split_path D a = [a]"
  by (induction a) auto

lemma split_path_append [simp]:
  "set a \<inter> D = {} \<Longrightarrow> c \<in> D \<Longrightarrow> split_path D (a @ c # s) = a # split_path D s"
  by (induction a) auto

lemma tokens_simps [simp]:
  "tokens D [] = []"
  "c \<in> D \<Longrightarrow> tokens D (c # s) = tokens D s"
  "set a \<inter> D = {} \<Longrightarrow> tokens D a = (if a = [] then [] else [a])"
  "set a \<inter> D = {} \<Longrightarrow> c \<in> D \<Longrightarrow> tokens D (a @ c # s) = (if a = [] then [] else [a]) @ tokens D s"
  by (simp_all add: tokens_def)

section \<open>The calls\<close>

datatype open_result = Opened int | NoSuchFile | OpenError

fun fd_of :: "open_result \<Rightarrow> int" where
  "fd_of (Opened h) = h"
| "fd_of _ = -1"

definition sys_access :: "string \<Rightarrow> disk \<Rightarrow> bool" where
  "sys_access p d \<longleftrightarrow> names d (comps p) \<noteq> None \<or> comps p \<in> dirs d"

definition add_fd :: "int \<Rightarrow> desc \<Rightarrow> disk \<Rightarrow> disk" where
  "add_fd h e d = d\<lparr>descs := (descs d)(h \<mapsto> e)\<rparr>"

text \<open>Opening an existing file, with \<^verbatim>\<open>O_TRUNC\<close> when \<open>trunc\<close>.\<close>

definition sys_open :: "os \<Rightarrow> bool \<Rightarrow> bool \<Rightarrow> bool \<Rightarrow> string \<Rightarrow> disk \<Rightarrow> open_result \<times> disk" where
  "sys_open K rd wr trunc p d =
     (case names d (comps p) of
        None \<Rightarrow> (if comps p \<in> dirs d then OpenError else NoSuchFile, d)
      | Some i \<Rightarrow>
          if os_may_open K (comps p) then
            let h = os_fd K d in
            (Opened h, add_fd h \<lparr>d_ino = i, d_pos = 0, d_rd = rd, d_wr = wr\<rparr>
               (if trunc then d\<lparr>inodes := (inodes d)(i := [])\<rparr> else d))
          else (OpenError, d))"

text \<open>Opening with \<^verbatim>\<open>O_CREAT\<close> and \<^verbatim>\<open>O_TRUNC\<close>.\<close>

definition sys_create :: "os \<Rightarrow> bool \<Rightarrow> bool \<Rightarrow> string \<Rightarrow> disk \<Rightarrow> open_result \<times> disk" where
  "sys_create K rd wr p d =
     (if names d (comps p) = None \<and> comps p \<notin> dirs d then
        if comps p = [] \<or> butlast (comps p) \<notin> dirs d then (NoSuchFile, d)
        else if os_may_create K (comps p) then
          let h = os_fd K d; i = next_ino d in
          (Opened h, add_fd h \<lparr>d_ino = i, d_pos = 0, d_rd = rd, d_wr = wr\<rparr>
             (d\<lparr>names := (names d)(comps p \<mapsto> i), inodes := (inodes d)(i := []), next_ino := i + 1\<rparr>))
        else (OpenError, d)
      else sys_open K rd wr True p d)"

definition sys_open_dir :: "os \<Rightarrow> string \<Rightarrow> disk \<Rightarrow> int \<times> disk" where
  "sys_open_dir K p d =
     (if comps p \<in> dirs d then let h = os_fd K d in (h, d\<lparr>dir_fds := insert h (dir_fds d)\<rparr>) else (-1, d))"

definition sys_close :: "int \<Rightarrow> disk \<Rightarrow> int \<times> disk" where
  "sys_close h d =
     (if descs d h \<noteq> None then (0, d\<lparr>descs := (descs d)(h := None)\<rparr>)
      else if h \<in> dir_fds d then (0, d\<lparr>dir_fds := dir_fds d - {h}\<rparr>)
      else (-1, d))"

definition sys_remove :: "string \<Rightarrow> disk \<Rightarrow> int \<times> disk" where
  "sys_remove p d =
     (if names d (comps p) = None then (-1, d) else (0, d\<lparr>names := (names d)(comps p := None)\<rparr>))"

definition sys_mkdir :: "os \<Rightarrow> string \<Rightarrow> disk \<Rightarrow> disk" where
  "sys_mkdir K p d =
     (if names d (comps p) = None \<and> comps p \<noteq> [] \<and> butlast (comps p) \<in> dirs d \<and> os_may_create K (comps p)
      then d\<lparr>dirs := insert (comps p) (dirs d)\<rparr> else d)"

definition sys_fstat :: "int \<Rightarrow> disk \<Rightarrow> int" where
  "sys_fstat h d = (case descs d h of None \<Rightarrow> -1 | Some e \<Rightarrow> int (length (inodes d (d_ino e))))"

text \<open>\<open>whence\<close> is 0 for \<^verbatim>\<open>SEEK_SET\<close>, 1 for \<^verbatim>\<open>SEEK_CUR\<close> and 2 for \<^verbatim>\<open>SEEK_END\<close>.\<close>

definition sys_lseek :: "int \<Rightarrow> int \<Rightarrow> int \<Rightarrow> disk \<Rightarrow> int \<times> disk" where
  "sys_lseek h off whence d =
     (case descs d h of
        None \<Rightarrow> (-1, d)
      | Some e \<Rightarrow>
          let base = (if whence = 0 then 0 else if whence = 1 then int (d_pos e)
                      else if whence = 2 then int (length (inodes d (d_ino e))) else -1) in
          if base < 0 \<or> base + off < 0 then (-1, d)
          else (base + off, add_fd h (e\<lparr>d_pos := nat (base + off)\<rparr>) d))"

text \<open>The result, the bytes read and the new state; a negative count is a huge one for the system.\<close>

definition sys_read :: "int \<Rightarrow> int \<Rightarrow> disk \<Rightarrow> int \<times> 8 word list \<times> disk" where
  "sys_read h n d =
     (case descs d h of
        None \<Rightarrow> (-1, [], d)
      | Some e \<Rightarrow>
          if d_rd e \<and> 0 \<le> n then
            let bs = take (nat n) (drop (d_pos e) (inodes d (d_ino e))) in
            (int (length bs), bs, add_fd h (e\<lparr>d_pos := d_pos e + length bs\<rparr>) d)
          else (-1, [], d))"

text \<open>Bytes stored at a position, with zeros in a gap behind the end.\<close>

definition put_at :: "nat \<Rightarrow> 8 word list \<Rightarrow> 8 word list \<Rightarrow> 8 word list" where
  "put_at pos bs xs = take pos xs @ replicate (pos - length xs) 0 @ bs @ drop (pos + length bs) xs"

definition sys_write :: "os \<Rightarrow> int \<Rightarrow> 8 word list \<Rightarrow> disk \<Rightarrow> int \<times> disk" where
  "sys_write K h bs d =
     (case descs d h of
        None \<Rightarrow> (-1, d)
      | Some e \<Rightarrow>
          let n = min (os_written K (length bs)) (int (length bs)) in
          if d_wr e \<and> 0 \<le> n then
            (n, add_fd h (e\<lparr>d_pos := d_pos e + nat n\<rparr>)
                  (d\<lparr>inodes := (inodes d)(d_ino e := put_at (d_pos e) (take (nat n) bs) (inodes d (d_ino e)))\<rparr>))
          else (-1, d))"

definition sys_sendfile :: "os \<Rightarrow> int \<Rightarrow> int \<Rightarrow> int \<Rightarrow> disk \<Rightarrow> int \<times> disk" where
  "sys_sendfile K out inp n d =
     (case descs d inp of
        None \<Rightarrow> (-1, d)
      | Some e \<Rightarrow>
          if d_rd e \<and> 0 \<le> n then
            let (w, d1) = sys_write K out (take (nat n) (drop (d_pos e) (inodes d (d_ino e)))) d in
            if w < 0 then (-1, d) else (w, add_fd inp (e\<lparr>d_pos := d_pos e + nat w\<rparr>) d1)
          else (-1, d))"

definition sys_fsync :: "int \<Rightarrow> disk \<Rightarrow> disk" where
  "sys_fsync h d =
     (case descs d h of
        None \<Rightarrow> d
      | Some e \<Rightarrow> d\<lparr>stable := (stable d)(d_ino e := inodes d (d_ino e))\<rparr>)"

definition sys_syncfs :: "int \<Rightarrow> disk \<Rightarrow> disk" where
  "sys_syncfs h d = (if h \<in> dir_fds d \<or> descs d h \<noteq> None then d\<lparr>stable := inodes d\<rparr> else d)"

section \<open>A well-formed state\<close>

text \<open>Files of different names differ, new inodes and new descriptors are fresh.\<close>

definition disk_ok :: "disk \<Rightarrow> bool" where
  "disk_ok d \<longleftrightarrow>
     inj_on (names d) (dom (names d)) \<and> (\<forall>i \<in> ran (names d). i < next_ino d) \<and>
     (\<forall>e \<in> ran (descs d). d_ino e < next_ino d) \<and> dirs d \<inter> dom (names d) = {} \<and> descs d (-1) = None"

definition fds_fin :: "disk \<Rightarrow> bool" where
  "fds_fin d \<longleftrightarrow> finite (dom (descs d)) \<and> finite (dir_fds d)"

definition os_ok :: "os \<Rightarrow> bool" where
  "os_ok K \<longleftrightarrow>
     (\<forall>d. fds_fin d \<longrightarrow> 0 < os_fd K d \<and> descs d (os_fd K d) = None \<and> os_fd K d \<notin> dir_fds d)"

text \<open>A system that refuses nothing on the names of \<open>A\<close> and writes everything.\<close>

definition os_permits :: "os \<Rightarrow> path set \<Rightarrow> bool" where
  "os_permits K A \<longleftrightarrow> os_ok K \<and> (\<forall>p \<in> A. os_may_open K p \<and> os_may_create K p) \<and> (\<forall>n. os_written K n = int n)"

lemma put_at_end [simp]: "put_at (length xs) bs xs = xs @ bs"
  by (simp add: put_at_def)

lemma put_at_Nil [simp]: "put_at 0 bs [] = bs"
  by (simp add: put_at_def)

lemma length_put_at: "length (put_at pos bs xs) = max (length xs) (pos + length bs)"
  by (simp add: put_at_def)

lemma add_fd_simps [simp]:
  "names (add_fd h e d) = names d" "inodes (add_fd h e d) = inodes d" "dirs (add_fd h e d) = dirs d"
  "dir_fds (add_fd h e d) = dir_fds d" "next_ino (add_fd h e d) = next_ino d" "stable (add_fd h e d) = stable d"
  "descs (add_fd h e d) = (descs d)(h \<mapsto> e)" "add_fd h e' (add_fd h e d) = add_fd h e' d"
  by (simp_all add: add_fd_def)

lemma add_fd_same [simp]: "descs d h = Some e \<Longrightarrow> add_fd h e d = d"
  by (simp add: add_fd_def fun_upd_idem)

text \<open>What the file of a name holds.\<close>

definition content :: "disk \<Rightarrow> string \<Rightarrow> 8 word list option" where
  "content d p = map_option (inodes d) (names d (comps p))"

lemma content_frame [simp]:
  "content (add_fd h e d) p = content d p" "content (d\<lparr>descs := X\<rparr>) p = content d p"
  by (simp_all add: content_def)

lemma sys_open_file:
  "names d (comps p) = Some i \<Longrightarrow> os_may_open K (comps p) \<Longrightarrow>
     sys_open K rd wr False p d = (Opened (os_fd K d), add_fd (os_fd K d) \<lparr>d_ino = i, d_pos = 0, d_rd = rd, d_wr = wr\<rparr> d)"
  by (simp add: sys_open_def Let_def)

lemma sys_close_fresh [simp]: "descs d h = None \<Longrightarrow> sys_close h (add_fd h e d) = (0, d)"
  by (simp add: sys_close_def add_fd_def fun_upd_idem)

lemma sys_close_under [simp]:
  "h \<noteq> h' \<Longrightarrow> descs d h = None \<Longrightarrow> sys_close h (add_fd h' e' (add_fd h e d)) = (0, add_fd h' e' d)"
  by (simp add: sys_close_def add_fd_def fun_upd_twist fun_upd_idem)

lemma add_fd_twist: "h \<noteq> h' \<Longrightarrow> add_fd h e (add_fd h' e' d) = add_fd h' e' (add_fd h e d)"
  by (simp add: add_fd_def fun_upd_twist)

lemma fds_fin_add [simp]: "fds_fin (add_fd h e d) \<longleftrightarrow> fds_fin d"
  by (simp add: fds_fin_def add_fd_def)

lemma fds_fin_frame [simp]:
  "fds_fin (d\<lparr>inodes := X\<rparr>) \<longleftrightarrow> fds_fin d" "fds_fin (d\<lparr>names := N\<rparr>) \<longleftrightarrow> fds_fin d"
  "fds_fin (d\<lparr>next_ino := n\<rparr>) \<longleftrightarrow> fds_fin d" "fds_fin (d\<lparr>dirs := D\<rparr>) \<longleftrightarrow> fds_fin d"
  "fds_fin (d\<lparr>stable := S\<rparr>) \<longleftrightarrow> fds_fin d"
  by (simp_all add: fds_fin_def)

lemma os_fresh:
  assumes "os_ok K" "fds_fin d"
  shows "0 < os_fd K d" "descs d (os_fd K d) = None" "os_fd K d \<notin> dir_fds d"
  using assms by (auto simp: os_ok_def)

lemma os_fresh2:
  assumes "os_ok K" "fds_fin d"
  shows "os_fd K (add_fd h e d) \<noteq> h" "descs d (os_fd K (add_fd h e d)) = None"
  using os_fresh(2) [OF assms(1), of "add_fd h e d"] assms(2) by (simp_all split: if_splits)

text \<open>Such systems exist.\<close>

definition next_fd :: "disk \<Rightarrow> int" where
  "next_fd d = Max (insert 2 (dom (descs d) \<union> dir_fds d)) + 1"

definition free_os :: os where
  "free_os = \<lparr>os_fd = next_fd, os_may_open = \<lambda>p. True, os_may_create = \<lambda>p. True, os_written = int\<rparr>"

lemma free_os_permits [simp]: "os_permits free_os A"
proof -
  have "next_fd d \<notin> dom (descs d) \<union> dir_fds d \<and> 0 < next_fd d" if "fds_fin d" for d
  proof -
    define S where "S = insert 2 (dom (descs d) \<union> dir_fds d)"
    have "finite S"
      using that by (simp add: S_def fds_fin_def)
    then have less: "x < Max S + 1" if "x \<in> S" for x
      using that Max_ge [of S x] by linarith
    have "next_fd d = Max S + 1" "2 \<in> S" "dom (descs d) \<union> dir_fds d \<subseteq> S"
      by (auto simp: next_fd_def S_def)
    then show ?thesis
      using less [of "next_fd d"] less [of 2] by auto
  qed
  then show ?thesis
    by (auto simp: os_permits_def os_ok_def free_os_def domIff)
qed

lemma disk_ok_inj: "disk_ok d \<Longrightarrow> names d p = Some i \<Longrightarrow> names d q = Some i \<Longrightarrow> p = q"
  unfolding disk_ok_def by (metis domI inj_onD)

end
