(* ===== verification/Backup_Filelist.thy ===== *)
theory Backup_Filelist
  imports Posix_Files Notify
begin

text \<open>
  Backups of files, \<^verbatim>\<open>persistence_client_library_backup_filelist.c\<close>: the list of files that need no
  backup, the creation of files, the checksum of an open file, the creation of a backup and the check
  of a file against its backup when it is opened.
\<close>

section \<open>The list of files without backup\<close>

text \<open>
  The token array keeps its pointers between calls, but the file they point into is unmapped: only
  their number is kept, and using an old one is a fault.
\<close>

record blacklist =
  gpTokenCount :: nat
  gRb_tree_bl :: "key_value jsw_rbtree option"

definition blacklist_init :: blacklist where
  "blacklist_init = \<lparr>gpTokenCount = 0, gRb_tree_bl = None\<rparr>"

definition deleteBackupTree :: "blacklist \<Rightarrow> blacklist option" where
  "deleteBackupTree s =
     (case gRb_tree_bl s of
        None \<Rightarrow> Some s
      | Some t \<Rightarrow> do { (h, rel) \<leftarrow> jsw_rbdelete t; Some (s\<lparr>gRb_tree_bl := None\<rparr>) })"

definition fillFileBackupCharTokenArray :: "string \<Rightarrow> string list option" where
  "fillFileBackupCharTokenArray file = split_tokens 1 [] file"

text \<open>A token is stored when another one follows it; \<open>mem\<close> is the malloc of an item and of its node.\<close>

fun store_names :: "bool \<Rightarrow> string list \<Rightarrow> key_value jsw_rbtree \<Rightarrow> key_value jsw_rbtree option" where
  "store_names mem [] t = Some t"
| "store_names mem (p # ps) t =
     (if mem then
        do { h \<leftarrow> key_hash (c_copy 128 p);
             (r, t) \<leftarrow> jsw_rbinsert mem t \<lparr>vkey = h, vvalue = []\<rparr>;
             store_names mem ps t }
      else store_names mem ps t)"

definition createAndStoreFileNames :: "bool \<Rightarrow> string list \<Rightarrow> blacklist \<Rightarrow> blacklist option" where
  "createAndStoreFileNames mem ts s =
     (if gpTokenCount s > length ts then None
      else do { t \<leftarrow> store_names mem (butlast ts) key_val_tree_new;
                Some (s\<lparr>gRb_tree_bl := Some t\<rparr>) })"

definition readBlacklistConfigFile :: "bool \<Rightarrow> conf_file \<Rightarrow> blacklist \<Rightarrow> (int \<times> blacklist) option" where
  "readBlacklistConfigFile mem file s =
     (case file of
        Contents text \<Rightarrow>
          do { ts \<leftarrow> fillFileBackupCharTokenArray text;
               s \<leftarrow> createAndStoreFileNames mem ts s;
               Some (0, s\<lparr>gpTokenCount := length ts\<rparr>) }
      | _ \<Rightarrow> Some (EPERS_COMMON, s))"

abbreviation (input) DONT_CREATE_BACKUP :: int where "DONT_CREATE_BACKUP \<equiv> 0"
abbreviation (input) CREATE_BACKUP :: int where "CREATE_BACKUP \<equiv> 1"

definition need_backup_key :: "bool \<Rightarrow> 32 word \<Rightarrow> blacklist \<Rightarrow> int option" where
  "need_backup_key mem key s =
     (case gRb_tree_bl s of
        Some t \<Rightarrow>
          if mem then
            do { found \<leftarrow> jsw_rbfind t \<lparr>vkey = key, vvalue = []\<rparr>;
                 Some (if found \<noteq> None then DONT_CREATE_BACKUP else CREATE_BACKUP) }
          else Some CREATE_BACKUP
      | None \<Rightarrow> Some CREATE_BACKUP)"

definition pclBackupNeeded :: "bool \<Rightarrow> string \<Rightarrow> blacklist \<Rightarrow> int option" where
  "pclBackupNeeded mem path s = do { h \<leftarrow> key_hash path; need_backup_key mem h s }"

section \<open>Creating and copying files\<close>

datatype posix_flags = O_RDWR | O_RDONLY | O_WRONLY

fun may_read :: "posix_flags \<Rightarrow> bool" where
  "may_read O_WRONLY = False"
| "may_read _ = True"

fun writable :: "posix_flags \<Rightarrow> bool" where
  "writable O_RDONLY = False"
| "writable _ = True"

definition pclGetPosixPermission :: "pco \<Rightarrow> int \<Rightarrow> posix_flags" where
  "pclGetPosixPermission P perm =
     (if perm = perm_rw P then O_RDWR
      else if perm = perm_ro P then O_RDONLY
      else if perm = perm_wo P then O_WRONLY
      else O_RDONLY)"

definition pclBackupDoFileCopy :: "os \<Rightarrow> int \<Rightarrow> int \<Rightarrow> disk \<Rightarrow> int \<times> disk" where
  "pclBackupDoFileCopy K srcFd dstFd d =
     (let size = sys_fstat srcFd d in
      if size \<noteq> -1 then
        let (rval, d) = sys_sendfile K dstFd srcFd size d
        in (c_int rval, snd (sys_lseek dstFd 0 0 d))
      else (-1, d))"

definition join_path :: "path \<Rightarrow> string" where
  "join_path ts = concat (map (\<lambda>t. CHR ''/'' # t) ts)"

text \<open>
  The folders on the way to a file are made one after the other, except the first one.  A path of
  fewer than two components is a NULL pointer, and one that does not fit in the buffer with its NUL
  overflows it.
\<close>

definition pclCreateFile :: "pco \<Rightarrow> os \<Rightarrow> string \<Rightarrow> disk \<Rightarrow> (int \<times> disk) option" where
  "pclCreateFile P K path d =
     (let toks = tokens {CHR ''/'', CHR 0x0A} (c_copy (path_len P) path) in
      if length toks < 2 then None
      else if length toks \<ge> 24 then Some (-1, d)
      else if length (join_path toks) \<ge> path_len P then None
      else
        let d = fold (\<lambda>k. sys_mkdir K (join_path (take k toks))) [2..<length toks] d;
            (r, d) = sys_create K True True (join_path toks) d
        in Some (fd_of r, d))"

section \<open>The checksum of an open file\<close>

abbreviation (input) ChecksumBufSize :: nat where "ChecksumBufSize \<equiv> 64"

text \<open>The loop reads until nothing is left; the checksum is taken over the whole buffer each time.\<close>

partial_function (option) crc_file_loop ::
  "int \<Rightarrow> nat \<Rightarrow> 8 word list \<Rightarrow> string \<Rightarrow> disk \<Rightarrow> (int \<times> string \<times> disk) option" where
  "crc_file_loop fd n buf crc32sum d =
     (case sys_read fd (int n) d of
        (r, bs, d) \<Rightarrow>
          if r > 0 then
            do { let buf = bs @ drop (length bs) buf;
                 crc \<leftarrow> pclCrc32 0 (Some buf) n;
                 crc_file_loop fd n buf (c_copy (ChecksumBufSize - 1) (fmt_x crc)) d }
          else Some (r, crc32sum, d))"

definition pclCalcCrc32Csum :: "bool \<Rightarrow> int \<Rightarrow> string \<Rightarrow> disk \<Rightarrow> (int \<times> string \<times> disk) option" where
  "pclCalcCrc32Csum mem fd crc32sum d =
     (let size = sys_fstat fd d in
      if size \<noteq> -1 \<and> mem then
        do { let (curPos, d) = sys_lseek fd 0 1 d;
             let d = (if curPos \<noteq> 0 then snd (sys_lseek fd 0 0 d) else d);
             (rval, crc32sum, d) \<leftarrow> crc_file_loop fd (nat size) (replicate (nat size) 0) crc32sum d;
             Some (rval, crc32sum, snd (sys_lseek fd curPos 0 d)) }
      else Some (-1, crc32sum, d))"

section \<open>Making a backup\<close>

text \<open>Text as the bytes of a file, and back.\<close>

definition bytes_of :: "string \<Rightarrow> 8 word list" where
  "bytes_of s = map of_char s"

definition chars_of :: "8 word list \<Rightarrow> string" where
  "chars_of bs = map (\<lambda>b. char_of (unat b)) bs"

definition pclCreateBackup ::
  "pco \<Rightarrow> os \<Rightarrow> string option \<Rightarrow> int \<Rightarrow> string option \<Rightarrow> string \<Rightarrow> disk \<Rightarrow> (int \<times> disk) option" where
  "pclCreateBackup P K dst srcfd csum csumBuf d =
     (case (dst, csum) of
        (Some dstPath, Some cs) \<Rightarrow>
          do { d \<leftarrow> (if \<not> sys_access dstPath d then
                       do { (handle, d) \<leftarrow> pclCreateFile P K (c_copy (path_len P) dstPath) d;
                            Some (if handle \<noteq> -1 then snd (sys_close handle d) else d) }
                     else Some d);
               let (csfd, d) = sys_create K False True cs d;
               let d = (case csfd of
                          Opened h \<Rightarrow> snd (sys_close h (snd (sys_write K h (bytes_of csumBuf) d)))
                        | _ \<Rightarrow> d);
               let (dstFd, d) = sys_create K False True dstPath d;
               Some (case dstFd of
                       Opened h \<Rightarrow>
                         let (curPos, d) = sys_lseek srcfd 0 1 d;
                             d = (if curPos \<noteq> 0 then snd (sys_lseek srcfd 0 0 d) else d);
                             (readSize, d) = pclBackupDoFileCopy K srcfd h d;
                             d = snd (sys_close h d)
                         in (readSize, snd (sys_lseek srcfd curPos 0 d))
                     | _ \<Rightarrow> (-1, d)) }
      | _ \<Rightarrow> Some (-1, d))"

section \<open>Checking a file against its backup\<close>

definition pclRecoverFromBackup :: "os \<Rightarrow> int \<Rightarrow> string \<Rightarrow> disk \<Rightarrow> int \<times> disk" where
  "pclRecoverFromBackup K backupFd original d =
     (case sys_open K True True True original d of
        (Opened h, d) \<Rightarrow> (h, snd (pclBackupDoFileCopy K backupFd h d))
      | (_, d) \<Rightarrow> (-1, d))"

text \<open>The checksum in a checksum file: what is read, up to a NUL.\<close>

definition read_csum :: "int \<Rightarrow> disk \<Rightarrow> int \<times> string \<times> disk" where
  "read_csum fd d = (case sys_read fd (int ChecksumBufSize) d of (n, bs, d) \<Rightarrow> (n, cstr (chars_of bs), d))"

text \<open>The original, opened and kept when its checksum is one of \<open>good\<close>.\<close>

definition check_original ::
  "os \<Rightarrow> bool \<Rightarrow> string \<Rightarrow> posix_flags \<Rightarrow> string list \<Rightarrow> bool \<Rightarrow> disk \<Rightarrow> (int \<times> disk) option" where
  "check_original K mem orig flags good closes d =
     (case sys_open K (may_read flags) (writable flags) False orig d of
        (Opened h, d) \<Rightarrow>
          do { (r, origCsumBuf, d) \<leftarrow> pclCalcCrc32Csum mem h [] d;
               Some (if origCsumBuf \<in> set good then (h, d)
                     else (-1, if closes then snd (sys_close h d) else snd (sys_close (-1) d))) }
      | (_, d) \<Rightarrow> Some (-1, d))"

definition verify_both ::
  "os \<Rightarrow> bool \<Rightarrow> string \<Rightarrow> string \<Rightarrow> string \<Rightarrow> posix_flags \<Rightarrow> disk \<Rightarrow> (int \<times> disk) option" where
  "verify_both K mem orig backup csum flags d =
     (case sys_open K True False False backup d of
        (Opened fdBackup, d) \<Rightarrow>
          do { (r, backCsumBuf, d) \<leftarrow> pclCalcCrc32Csum mem fdBackup [] d;
               (handle, d) \<leftarrow>
                 (case sys_open K True False False csum d of
                    (Opened fdCsum, d) \<Rightarrow>
                      do { let (readSize, csumBuf, d) = read_csum fdCsum d;
                           (handle, d) \<leftarrow>
                             (if readSize > 0 then
                                if csumBuf = backCsumBuf then Some (pclRecoverFromBackup K fdBackup orig d)
                                else check_original K mem orig flags [csumBuf, backCsumBuf] True d
                              else Some (0, d));
                           Some (handle, snd (sys_close fdCsum d)) }
                  | (_, d) \<Rightarrow> Some (-1, d));
               Some (handle, snd (sys_close fdBackup d)) }
      | (_, d) \<Rightarrow> Some (-1, d))"

definition verify_csum ::
  "os \<Rightarrow> bool \<Rightarrow> string \<Rightarrow> string \<Rightarrow> posix_flags \<Rightarrow> disk \<Rightarrow> (int \<times> disk) option" where
  "verify_csum K mem orig csum flags d =
     (case sys_open K True False False csum d of
        (Opened fdCsum, d) \<Rightarrow>
          do { let (readSize, csumBuf, d) = read_csum fdCsum d;
               (handle, d) \<leftarrow> check_original K mem orig flags [csumBuf] False d;
               Some (handle, snd (sys_close fdCsum d)) }
      | (_, d) \<Rightarrow> Some (-1, d))"

definition verify_backup ::
  "os \<Rightarrow> bool \<Rightarrow> string \<Rightarrow> string \<Rightarrow> posix_flags \<Rightarrow> disk \<Rightarrow> (int \<times> disk) option" where
  "verify_backup K mem orig backup flags d =
     (case sys_open K True False False backup d of
        (Opened fdBackup, d) \<Rightarrow>
          do { (r, backCsumBuf, d) \<leftarrow> pclCalcCrc32Csum mem fdBackup [] d;
               (handle, d) \<leftarrow> check_original K mem orig flags [backCsumBuf] False d;
               Some (handle, snd (sys_close fdBackup d)) }
      | (_, d) \<Rightarrow> Some (-1, d))"

definition pclVerifyConsistency ::
  "os \<Rightarrow> bool \<Rightarrow> string \<Rightarrow> string \<Rightarrow> string \<Rightarrow> posix_flags \<Rightarrow> disk \<Rightarrow> (int \<times> disk) option" where
  "pclVerifyConsistency K mem orig backup csum flags d =
     (let backupAvail = sys_access backup d; csumAvail = sys_access csum d in
      do { (handle, d) \<leftarrow>
             (if backupAvail \<and> csumAvail then verify_both K mem orig backup csum flags d
              else if csumAvail then verify_csum K mem orig csum flags d
              else if backupAvail then verify_backup K mem orig backup flags d
              else Some (0, d));
           Some (handle,
             if handle = -1
             then snd (sys_remove csum (snd (sys_remove backup (snd (sys_remove orig d)))))
             else d) })"

section \<open>What a checksum and a state say\<close>

lemma chars_of_bytes [simp]: "chars_of (bytes_of s) = s"
proof -
  have "char_of (unat (of_char c :: 8 word)) = c" for c
  proof -
    have "unat (of_char c :: 8 word) = (of_char c :: nat)"
      by (cases c) (auto simp: of_char_def horner_sum_simps unat_word_ariths)
    then show ?thesis
      by simp
  qed
  then show ?thesis
    by (simp add: chars_of_def bytes_of_def o_def)
qed

text \<open>The text that is written for the contents of a file.\<close>

definition csum_text :: "8 word list \<Rightarrow> string" where
  "csum_text bs = (if bs = [] then [] else fmt_x (fold (\<lambda>b c. crc32_step c b) bs (NOT 0) XOR NOT 0))"

lemma csum_text_length: "length (csum_text bs) \<le> 8"
  by (simp add: csum_text_def fmt_x_length)

lemma csum_text_no_NUL [simp]: "CHR 0x00 \<notin> set (csum_text bs)"
  by (simp add: csum_text_def)

lemma csum_text_Nil [simp]: "csum_text bs = [] \<longleftrightarrow> bs = []"
  by (simp add: csum_text_def fmt_x_def)

lemma csum_text_empty [simp]: "csum_text [] = []"
  by simp

lemma crc_file_loop_end:
  "descs d h = Some e \<Longrightarrow> d_rd e \<Longrightarrow> length (inodes d (d_ino e)) \<le> d_pos e \<Longrightarrow>
     crc_file_loop h n buf cs d = Some (0, cs, d)"
  by (subst crc_file_loop.simps) (simp add: sys_read_def)

lemma crc_file_loop_whole:
  assumes "descs d h = Some e" "d_rd e" "d_pos e = 0" "length (inodes d (d_ino e)) = n"
  shows "\<exists>d'. crc_file_loop h n buf [] d = Some (0, csum_text (inodes d (d_ino e)), d') \<and>
    d' = add_fd h (e\<lparr>d_pos := n\<rparr>) d"
proof (cases "n = 0")
  case True
  then show ?thesis
    using crc_file_loop_end [OF assms(1,2), of n buf "[]"] assms by simp
next
  case False
  define bs where "bs = inodes d (d_ino e)"
  define d1 where "d1 = add_fd h (e\<lparr>d_pos := n\<rparr>) d"
  define c where "c = fmt_x (fold (\<lambda>b c. crc32_step c b) bs (NOT 0) XOR NOT 0)"
  have bs: "bs \<noteq> []" "length bs = n"
    using False assms(4) by (auto simp: bs_def)
  have r: "sys_read h (int n) d = (int n, bs, d1)"
    using assms by (simp add: sys_read_def bs_def d1_def)
  have p: "pclCrc32 0 (Some (bs @ drop (length bs) buf)) n = Some (fold (\<lambda>b c. crc32_step c b) bs (NOT 0) XOR NOT 0)" for buf
  proof -
    have "crc32_loop x (bs @ ys) (length bs) = crc32_loop x bs (length bs)" for x ys
      by (induction bs arbitrary: x) auto
    then show ?thesis
      using pclCrc32_fold [of 0 bs] bs(2) by (simp add: pclCrc32_def)
  qed
  have "c_copy 63 c = c"
    using fmt_x_length by (simp add: c_def le_less_trans [OF fmt_x_length])
  moreover have "csum_text (inodes d (d_ino e)) = c"
    using bs(1) by (simp add: csum_text_def c_def bs_def)
  moreover have "crc_file_loop h n buf' c d1 = Some (0, c, d1)" for buf'
    using assms by (intro crc_file_loop_end [where e = "e\<lparr>d_pos := n\<rparr>"]) (simp_all add: d1_def)
  ultimately show ?thesis
    using False by (subst crc_file_loop.simps) (simp add: r p c_def d1_def)
qed

text \<open>Taking the checksum of an open file changes nothing, its position included.\<close>

lemma calc_crc:
  assumes "descs d h = Some e" "d_rd e"
  shows "pclCalcCrc32Csum True h [] d = Some (0, csum_text (inodes d (d_ino e)), d)"
proof -
  define d1 where "d1 = add_fd h (e\<lparr>d_pos := 0\<rparr>) d"
  define n where "n = length (inodes d (d_ino e))"
  have l: "crc_file_loop h n buf [] d1 = Some (0, csum_text (inodes d (d_ino e)), add_fd h (e\<lparr>d_pos := n\<rparr>) d)" for buf
    using crc_file_loop_whole [of d1 h "e\<lparr>d_pos := 0\<rparr>" n buf] assms(2) by (simp add: d1_def n_def)
  have s: "sys_fstat h d = int n" "sys_lseek h 0 1 d = (int (d_pos e), d)"
    "(if int (d_pos e) \<noteq> 0 then snd (sys_lseek h 0 0 d) else d) = d1"
    "sys_lseek h (int (d_pos e)) 0 (add_fd h (e\<lparr>d_pos := n\<rparr>) d) = (int (d_pos e), d)"
    using assms(1) by (simp_all add: sys_fstat_def sys_lseek_def n_def d1_def)
  show ?thesis
    unfolding pclCalcCrc32Csum_def Let_def s prod.case s(3) by (simp add: l s)
qed

section \<open>Copying\<close>

lemma file_copy:
  assumes "descs d src = Some es" "d_rd es" "d_pos es = 0" "descs d dst = Some ed" "d_wr ed" "d_pos ed = 0"
    and "src \<noteq> dst" "d_ino es \<noteq> d_ino ed" "inodes d (d_ino ed) = []" "\<And>n. os_written K n = int n"
    and "length (inodes d (d_ino es)) < 2 ^ 31"
  shows "pclBackupDoFileCopy K src dst d = (int (length (inodes d (d_ino es))),
    d\<lparr>inodes := (inodes d)(d_ino ed := inodes d (d_ino es)),
      descs := (descs d)(src \<mapsto> es\<lparr>d_pos := length (inodes d (d_ino es))\<rparr>, dst \<mapsto> ed)\<rparr>)"
proof -
  define bs where "bs = inodes d (d_ino es)"
  define d1 where "d1 = add_fd dst (ed\<lparr>d_pos := length bs\<rparr>) (d\<lparr>inodes := (inodes d)(d_ino ed := bs)\<rparr>)"
  have "sys_write K dst bs d = (int (length bs), d1)"
    using assms(4-6,9,10) by (simp add: sys_write_def d1_def)
  then have "sys_sendfile K dst src (int (length bs)) d = (int (length bs), add_fd src (es\<lparr>d_pos := length bs\<rparr>) d1)"
    using assms(1-3) by (simp add: sys_sendfile_def bs_def)
  moreover have "sys_fstat src d = int (length bs)"
    using assms(1) by (simp add: sys_fstat_def bs_def)
  moreover have "c_int (int (length bs)) = int (length bs)"
    using assms(11) by (simp add: bs_def)
  moreover have "ed\<lparr>d_pos := 0\<rparr> = ed"
    using assms(6) by simp
  then have "snd (sys_lseek dst 0 0 (add_fd src (es\<lparr>d_pos := length bs\<rparr>) d1)) =
      d\<lparr>inodes := (inodes d)(d_ino ed := bs), descs := (descs d)(src \<mapsto> es\<lparr>d_pos := length bs\<rparr>, dst \<mapsto> ed)\<rparr>"
    using assms(7) by (simp add: sys_lseek_def d1_def add_fd_def fun_upd_twist [OF assms(7)])
  ultimately show ?thesis
    by (simp add: pclBackupDoFileCopy_def bs_def)
qed

section \<open>The check, branch by branch\<close>

text \<open>The text that a checksum file holds.\<close>

definition csum_of :: "8 word list \<Rightarrow> string" where
  "csum_of bs = cstr (chars_of (take ChecksumBufSize bs))"

lemma csum_of_text [simp]: "csum_of (bytes_of (csum_text bs)) = csum_text bs"
proof -
  have "take 64 (bytes_of (csum_text bs)) = bytes_of (csum_text bs)"
    using csum_text_length [of bs] by (simp add: bytes_of_def)
  then show ?thesis
    by (simp add: csum_of_def)
qed

lemma read_csum_file:
  "descs d h = Some e \<Longrightarrow> d_rd e \<Longrightarrow> d_pos e = 0 \<Longrightarrow>
     read_csum h d = (int (min 64 (length (inodes d (d_ino e)))), csum_of (inodes d (d_ino e)),
       add_fd h (e\<lparr>d_pos := min 64 (length (inodes d (d_ino e)))\<rparr>) d)"
  by (simp add: read_csum_def sys_read_def csum_of_def min.commute)

definition opened :: "posix_flags \<Rightarrow> nat \<Rightarrow> desc" where
  "opened flags i = \<lparr>d_ino = i, d_pos = 0, d_rd = may_read flags, d_wr = writable flags\<rparr>"

lemma check_original_file:
  assumes "names d (comps orig) = Some i" "os_may_open K (comps orig)" "may_read flags" "os_ok K"
    "fds_fin d" "descs d (-1) = None" "-1 \<notin> dir_fds d"
  shows "check_original K True orig flags good closes d = Some
    (if csum_text (inodes d i) \<in> set good then (os_fd K d, add_fd (os_fd K d) (opened flags i) d)
     else (-1, if closes then d else add_fd (os_fd K d) (opened flags i) d))"
proof -
  define d1 where "d1 = add_fd (os_fd K d) (opened flags i) d"
  have o: "sys_open K (may_read flags) (writable flags) False orig d = (Opened (os_fd K d), d1)"
    using sys_open_file [OF assms(1,2)] by (simp add: d1_def opened_def)
  have "pclCalcCrc32Csum True (os_fd K d) [] d1 = Some (0, csum_text (inodes d i), d1)"
    using calc_crc [of d1 "os_fd K d" "opened flags i"] assms(3) by (simp add: d1_def opened_def)
  moreover have "sys_close (os_fd K d) d1 = (0, d)" "sys_close (-1) d1 = (-1, d1)"
    using os_fresh(1,2) [OF assms(4,5)] assms(6,7) by (simp_all add: d1_def) (simp add: sys_close_def)
  ultimately show ?thesis
    by (auto simp: check_original_def o d1_def)
qed

lemma check_original_missing:
  "names d (comps orig) = None \<Longrightarrow> check_original K mem orig flags good closes d = Some (-1, d)"
  by (simp add: check_original_def sys_open_def)

lemma verify_csum_file:
  assumes "names d (comps csum) = Some ic" "os_may_open K (comps csum)" "os_may_open K (comps orig)"
    "may_read flags" "os_ok K" "fds_fin d" "descs d (-1) = None" "-1 \<notin> dir_fds d"
  shows "\<exists>h. 0 < h \<and> descs d h = None \<and> verify_csum K True orig csum flags d = Some
    (case names d (comps orig) of
       None \<Rightarrow> (-1, d)
     | Some i \<Rightarrow> if csum_text (inodes d i) = csum_of (inodes d ic) then (h, add_fd h (opened flags i) d)
                 else (-1, add_fd h (opened flags i) d))"
proof -
  define h where "h = os_fd K d"
  define d1 where "d1 = add_fd h \<lparr>d_ino = ic, d_pos = 0, d_rd = True, d_wr = False\<rparr> d"
  define n where "n = min 64 (length (inodes d ic))"
  define d2 where "d2 = add_fd h \<lparr>d_ino = ic, d_pos = n, d_rd = True, d_wr = False\<rparr> d"
  define h2 where "h2 = os_fd K d2"
  have o: "sys_open K True False False csum d = (Opened h, d1)"
    using sys_open_file [OF assms(1,2)] by (simp add: d1_def h_def)
  have r: "read_csum h d1 = (int n, csum_of (inodes d ic), d2)"
    using read_csum_file [of d1 h "\<lparr>d_ino = ic, d_pos = 0, d_rd = True, d_wr = False\<rparr>"]
    by (simp add: d1_def d2_def n_def)
  have h: "0 < h" "descs d h = None" "h2 \<noteq> h" "0 < h2" "descs d h2 = None"
    using os_fresh(1,2) [OF assms(5)] os_fresh2 [OF assms(5,6)] assms(6) by (simp_all add: h_def h2_def d2_def)
  have d2: "names d2 = names d" "inodes d2 = inodes d" "descs d2 (-1) = None" "dir_fds d2 = dir_fds d" "fds_fin d2"
    using h(1) assms(6,7) by (simp_all add: d2_def)
  have c: "sys_close h d2 = (0, d)" "sys_close h (add_fd h2 e d2) = (0, add_fd h2 e d)" for e
    using h by (simp_all add: d2_def)
  show ?thesis
  proof (cases "names d (comps orig)")
    case None
    then show ?thesis
      using h(1,2) c o r d2 check_original_missing [of d2 orig] by (auto simp: verify_csum_def Let_def)
  next
    case (Some i)
    then show ?thesis
      using h c o r d2 check_original_file [of d2 orig i K flags "[csum_of (inodes d ic)]" False] assms(3-6,8)
      by (intro exI [of _ h2] conjI) (auto simp: verify_csum_def Let_def h2_def)
  qed
qed

lemma verify_backup_file:
  assumes "names d (comps backup) = Some ib" "os_may_open K (comps backup)" "os_may_open K (comps orig)"
    "may_read flags" "os_ok K" "fds_fin d" "descs d (-1) = None" "-1 \<notin> dir_fds d"
  shows "\<exists>h. 0 < h \<and> descs d h = None \<and> verify_backup K True orig backup flags d = Some
    (case names d (comps orig) of
       None \<Rightarrow> (-1, d)
     | Some i \<Rightarrow> if csum_text (inodes d i) = csum_text (inodes d ib) then (h, add_fd h (opened flags i) d)
                 else (-1, add_fd h (opened flags i) d))"
proof -
  define h where "h = os_fd K d"
  define d2 where "d2 = add_fd h \<lparr>d_ino = ib, d_pos = 0, d_rd = True, d_wr = False\<rparr> d"
  define h2 where "h2 = os_fd K d2"
  have o: "sys_open K True False False backup d = (Opened h, d2)"
    using sys_open_file [OF assms(1,2)] by (simp add: d2_def h_def)
  have r: "pclCalcCrc32Csum True h [] d2 = Some (0, csum_text (inodes d ib), d2)"
    using calc_crc [of d2 h "\<lparr>d_ino = ib, d_pos = 0, d_rd = True, d_wr = False\<rparr>"] by (simp add: d2_def)
  have h: "0 < h" "descs d h = None" "h2 \<noteq> h" "0 < h2" "descs d h2 = None"
    using os_fresh(1,2) [OF assms(5)] os_fresh2 [OF assms(5,6)] assms(6) by (simp_all add: h_def h2_def d2_def)
  have d2: "names d2 = names d" "inodes d2 = inodes d" "descs d2 (-1) = None" "dir_fds d2 = dir_fds d" "fds_fin d2"
    using h(1) assms(6,7) by (simp_all add: d2_def)
  have c: "sys_close h d2 = (0, d)" "sys_close h (add_fd h2 e d2) = (0, add_fd h2 e d)" for e
    using h by (simp_all add: d2_def)
  show ?thesis
  proof (cases "names d (comps orig)")
    case None
    then show ?thesis
      using h(1,2) c o r d2 check_original_missing [of d2 orig] by (auto simp: verify_backup_def Let_def)
  next
    case (Some i)
    then show ?thesis
      using h c o r d2 check_original_file [of d2 orig i K flags "[csum_text (inodes d ib)]" False] assms(3-6,8)
      by (intro exI [of _ h2] conjI) (auto simp: verify_backup_def Let_def h2_def)
  qed
qed

text \<open>With a backup and a checksum: nothing to do, restore, keep, or give up.\<close>

lemma verify_both_file:
  assumes "names d (comps backup) = Some ib" "names d (comps csum) = Some ic"
    and "os_may_open K (comps backup)" "os_may_open K (comps csum)" "os_may_open K (comps orig)"
    and "may_read flags" "os_ok K" "fds_fin d" "descs d (-1) = None" "-1 \<notin> dir_fds d"
    and "\<And>n. os_written K n = int n" "length (inodes d ib) < 2 ^ 31"
    and "\<And>i. names d (comps orig) = Some i \<Longrightarrow> i \<noteq> ib"
  shows "\<exists>h. 0 < h \<and> descs d h = None \<and> verify_both K True orig backup csum flags d = Some
    (if inodes d ic = [] then (0, d)
     else case names d (comps orig) of
       None \<Rightarrow> (-1, d)
     | Some i \<Rightarrow>
         if csum_of (inodes d ic) = csum_text (inodes d ib)
         then (h, add_fd h (opened O_RDWR i) (d\<lparr>inodes := (inodes d)(i := inodes d ib)\<rparr>))
         else if csum_text (inodes d i) \<in> {csum_of (inodes d ic), csum_text (inodes d ib)}
         then (h, add_fd h (opened flags i) d)
         else (-1, d))"
proof -
  define h1 where "h1 = os_fd K d"
  define d1 where "d1 = add_fd h1 \<lparr>d_ino = ib, d_pos = 0, d_rd = True, d_wr = False\<rparr> d"
  define h2 where "h2 = os_fd K d1"
  define n where "n = min 64 (length (inodes d ic))"
  define d2 where "d2 = add_fd h2 \<lparr>d_ino = ic, d_pos = 0, d_rd = True, d_wr = False\<rparr> d1"
  define d3 where "d3 = add_fd h2 \<lparr>d_ino = ic, d_pos = n, d_rd = True, d_wr = False\<rparr> d1"
  define h3 where "h3 = os_fd K d3"
  have fin: "fds_fin d" "fds_fin d1" "fds_fin d3"
    using assms(8) by (simp_all add: d1_def d3_def)
  have "descs d h1 = None" "descs d1 h2 = None" "descs d3 h3 = None"
    unfolding h1_def h2_def h3_def using fin by (auto intro: os_fresh(2) [OF assms(7)])
  then have h: "h2 \<noteq> h1" "h3 \<noteq> h2" "h3 \<noteq> h1" "descs d h1 = None" "descs d h2 = None" "descs d h3 = None"
    by (simp_all add: d3_def d1_def split: if_splits)
  have pos: "0 < h1" "0 < h2" "0 < h3"
    unfolding h1_def h2_def h3_def using fin by (auto intro: os_fresh(1) [OF assms(7)])
  have o1: "sys_open K True False False backup d = (Opened h1, d1)"
    using sys_open_file [OF assms(1,3)] by (simp add: d1_def h1_def)
  have r1: "pclCalcCrc32Csum True h1 [] d1 = Some (0, csum_text (inodes d ib), d1)"
    using calc_crc [of d1 h1 "\<lparr>d_ino = ib, d_pos = 0, d_rd = True, d_wr = False\<rparr>"] by (simp add: d1_def)
  have o2: "sys_open K True False False csum d1 = (Opened h2, d2)"
    using sys_open_file [of d1 csum ic K True False] assms(2,4) by (simp add: d2_def h2_def d1_def)
  have r2: "read_csum h2 d2 = (int n, csum_of (inodes d ic), d3)"
    using read_csum_file [of d2 h2 "\<lparr>d_ino = ic, d_pos = 0, d_rd = True, d_wr = False\<rparr>"]
    by (simp add: d1_def d2_def d3_def n_def)
  have d3: "names d3 = names d" "inodes d3 = inodes d" "descs d3 (-1) = None" "dir_fds d3 = dir_fds d" "fds_fin d3"
    using pos assms(8,9) by (simp_all add: d3_def d1_def)
  have c1: "snd (sys_close h1 (snd (sys_close h2 d3))) = d"
    using h by (simp add: d3_def d1_def)
  have c2: "snd (sys_close h1 (snd (sys_close h2 (add_fd h3 e d3)))) = add_fd h3 e d" for e
    using h by (simp add: d3_def d1_def)
  have V: "verify_both K True orig backup csum flags d =
    Option.bind (if inodes d ic = [] then Some (0, d3)
      else if csum_of (inodes d ic) = csum_text (inodes d ib) then Some (pclRecoverFromBackup K h1 orig d3)
      else check_original K True orig flags [csum_of (inodes d ic), csum_text (inodes d ib)] True d3)
     (\<lambda>(r, d). Some (r, snd (sys_close h1 (snd (sys_close h2 d)))))"
    by (auto simp: verify_both_def o1 r1 o2 r2 n_def Let_def case_prod_beta split: Option.bind_splits)
  show ?thesis
  proof (cases "inodes d ic = []")
    case True
    then show ?thesis
      using pos(3) h(6) V c1 by auto
  next
    case False
    note ne = this
    show ?thesis
    proof (cases "names d (comps orig)")
      case None
      then have "sys_open K True True True orig d3 = (if comps orig \<in> dirs d3 then OpenError else NoSuchFile, d3)"
        by (simp add: sys_open_def d3)
      then have "pclRecoverFromBackup K h1 orig d3 = (-1, d3)"
        by (simp add: pclRecoverFromBackup_def)
      then show ?thesis
        using pos(3) h(6) V c1 ne None check_original_missing [of d3 orig] d3(1) by auto
    next
      case (Some i)
      define X where "X = d3\<lparr>inodes := (inodes d)(i := inodes d ib)\<rparr>"
      have i: "i \<noteq> ib"
        using assms(13) Some by blast
      have rec: "\<exists>e. pclRecoverFromBackup K h1 orig d3 = (h3, add_fd h3 (opened O_RDWR i) (add_fd h1 e X))"
      proof -
        define d4 where "d4 = add_fd h3 (opened O_RDWR i) (d3\<lparr>inodes := (inodes d)(i := [])\<rparr>)"
        have op: "sys_open K True True True orig d3 = (Opened h3, d4)"
          using Some assms(5) d3(1,2) by (simp add: sys_open_def d4_def h3_def opened_def Let_def)
        have "pclBackupDoFileCopy K h1 h3 d4 = (int (length (inodes d ib)),
            d4\<lparr>inodes := (inodes d4)(i := inodes d ib), descs := (descs d4)(h1 \<mapsto>
              \<lparr>d_ino = ib, d_pos = length (inodes d ib), d_rd = True, d_wr = False\<rparr>, h3 \<mapsto> opened O_RDWR i)\<rparr>)"
          using file_copy [of d4 h1 "\<lparr>d_ino = ib, d_pos = 0, d_rd = True, d_wr = False\<rparr>" h3 "opened O_RDWR i" K]
            h i assms(11,12) by (simp add: d4_def d3_def d1_def opened_def)
        then show ?thesis
          using h by (intro exI [of _ "\<lparr>d_ino = ib, d_pos = length (inodes d ib), d_rd = True, d_wr = False\<rparr>"])
            (simp add: pclRecoverFromBackup_def op d4_def X_def add_fd_def fun_upd_twist)
      qed
      have cX: "snd (sys_close h1 (snd (sys_close h2 (add_fd h3 (opened O_RDWR i) (add_fd h1 e X))))) =
          add_fd h3 (opened O_RDWR i) (d\<lparr>inodes := (inodes d)(i := inodes d ib)\<rparr>)" for e
        using h by (simp add: X_def d3_def d1_def sys_close_def add_fd_def fun_upd_twist fun_upd_idem)
      have chk: "check_original K True orig flags good True d3 = Some
          (if csum_text (inodes d i) \<in> set good then (h3, add_fd h3 (opened flags i) d3) else (-1, d3))" for good
        using check_original_file [of d3 orig i K flags good True] Some assms(5-8,10) d3 by (simp add: h3_def)
      show ?thesis
        using pos(3) h(6) V c1 c2 ne Some rec cX chk by (intro exI [of _ h3]) auto
    qed
  qed
qed

section \<open>The decision of the check\<close>

datatype verdict = Unchecked | Keep | Restore | Corrupt

text \<open>What the three files hold decides.\<close>

definition verdict_of ::
  "8 word list option \<Rightarrow> 8 word list option \<Rightarrow> 8 word list option \<Rightarrow> verdict" where
  "verdict_of orig backup csum =
     (case (backup, csum) of
        (None, None) \<Rightarrow> Unchecked
      | (Some b, Some c) \<Rightarrow>
          if c = [] then Unchecked
          else (case orig of
                  None \<Rightarrow> Corrupt
                | Some x \<Rightarrow> if csum_of c = csum_text b then Restore
                            else if csum_text x \<in> {csum_of c, csum_text b} then Keep else Corrupt)
      | (None, Some c) \<Rightarrow>
          (case orig of None \<Rightarrow> Corrupt | Some x \<Rightarrow> if csum_text x = csum_of c then Keep else Corrupt)
      | (Some b, None) \<Rightarrow>
          (case orig of None \<Rightarrow> Corrupt | Some x \<Rightarrow> if csum_text x = csum_text b then Keep else Corrupt))"

definition forget :: "string \<Rightarrow> string \<Rightarrow> string \<Rightarrow> disk \<Rightarrow> disk" where
  "forget orig backup csum d =
     d\<lparr>names := (names d)(comps orig := None, comps backup := None, comps csum := None)\<rparr>"

text \<open>Three files and a system that lets the library at them.\<close>

definition checkable :: "os \<Rightarrow> string \<Rightarrow> string \<Rightarrow> string \<Rightarrow> disk \<Rightarrow> bool" where
  "checkable K orig backup csum d \<longleftrightarrow>
     disk_ok d \<and> fds_fin d \<and> os_permits K {comps orig, comps backup, comps csum} \<and> -1 \<notin> dir_fds d \<and>
     distinct [comps orig, comps backup, comps csum] \<and>
     {comps orig, comps backup, comps csum} \<inter> dirs d = {} \<and>
     (\<forall>b. content d backup = Some b \<longrightarrow> length b < 2 ^ 31)"

lemma sys_remove_names: "snd (sys_remove p d) = d\<lparr>names := (names d)(comps p := None)\<rparr>"
  by (auto simp: sys_remove_def fun_upd_idem)

text \<open>The result of the check; \<open>i\<close> is the original's inode.\<close>

lemma verify_exact:
  assumes "checkable K orig backup csum d" "may_read flags"
  defines "v \<equiv> verdict_of (content d orig) (content d backup) (content d csum)"
    and "i \<equiv> the (names d (comps orig))" and "ib \<equiv> the (names d (comps backup))"
  shows "\<exists>h. 0 < h \<and> descs d h = None \<and> pclVerifyConsistency K True orig backup csum flags d = Some
    (case v of
       Unchecked \<Rightarrow> (0, d)
     | Keep \<Rightarrow> (h, add_fd h (opened flags i) d)
     | Restore \<Rightarrow> (h, add_fd h (opened O_RDWR i) (d\<lparr>inodes := (inodes d)(i := inodes d ib)\<rparr>))
     | Corrupt \<Rightarrow> (-1, forget orig backup csum
         (if content d orig \<noteq> None \<and> (content d backup = None \<or> content d csum = None)
          then add_fd h (opened flags i) d else d)))"
proof -
  have A: "os_may_open K (comps orig)" "os_may_open K (comps backup)" "os_may_open K (comps csum)" "os_ok K" "fds_fin d"
    "descs d (-1) = None" "-1 \<notin> dir_fds d" "\<And>n. os_written K n = int n"
    using assms(1) by (auto simp: checkable_def os_permits_def disk_ok_def)
  have acc: "sys_access backup d \<longleftrightarrow> content d backup \<noteq> None" "sys_access csum d \<longleftrightarrow> content d csum \<noteq> None"
    using assms(1) by (auto simp: sys_access_def checkable_def content_def)
  have F: "snd (sys_remove csum (snd (sys_remove backup (snd (sys_remove orig D))))) = forget orig backup csum D" for D
    by (simp add: sys_remove_names forget_def)
  show ?thesis
  proof (cases "content d backup"; cases "content d csum")
    assume "content d backup = None" "content d csum = None"
    then show ?thesis
      using os_fresh(1,2) [OF A(4,5)] acc by (auto simp: pclVerifyConsistency_def v_def verdict_of_def Let_def)
  next
    fix c assume c: "content d backup = None" "content d csum = Some c"
    then obtain ic where ic: "names d (comps csum) = Some ic" "inodes d ic = c"
      by (auto simp: content_def)
    note V = verify_csum_file [where orig = orig, OF ic(1) A(3,1) assms(2) A(4-7)]
    show ?thesis
      using c ic(2) acc F
      by (intro ex_forward [OF V], cases "names d (comps orig)")
        (auto simp: pclVerifyConsistency_def v_def i_def verdict_of_def Let_def content_def split: if_splits)
  next
    fix b assume b: "content d backup = Some b" "content d csum = None"
    then obtain ib' where ib: "names d (comps backup) = Some ib'" "inodes d ib' = b"
      by (auto simp: content_def)
    note V = verify_backup_file [where orig = orig, OF ib(1) A(2,1) assms(2) A(4-7)]
    show ?thesis
      using b ib(2) acc F
      by (intro ex_forward [OF V], cases "names d (comps orig)")
        (auto simp: pclVerifyConsistency_def v_def i_def verdict_of_def Let_def content_def split: if_splits)
  next
    fix b c assume bc: "content d backup = Some b" "content d csum = Some c"
    then obtain ib' ic where n: "names d (comps backup) = Some ib'" "inodes d ib' = b"
      "names d (comps csum) = Some ic" "inodes d ic = c"
      by (auto simp: content_def)
    have len: "length (inodes d ib') < 2 ^ 31"
      using assms(1) bc(1) n(2) by (auto simp: checkable_def)
    have ne: "j \<noteq> ib'" if "names d (comps orig) = Some j" for j
      using assms(1) disk_ok_inj [of d "comps orig" j "comps backup"] that n(1) by (auto simp: checkable_def)
    note V = verify_both_file [where orig = orig, OF n(1,3) A(2,3,1) assms(2) A(4-8) len ne]
    show ?thesis
    proof (cases "names d (comps orig)")
      case None
      then show ?thesis
        using bc n acc F
        by (intro ex_forward [OF V])
          (auto simp: pclVerifyConsistency_def v_def i_def ib_def verdict_of_def Let_def content_def)
    next
      case (Some j)
      then show ?thesis
        using bc n acc F
        by (intro ex_forward [OF V])
          (auto simp: pclVerifyConsistency_def v_def i_def ib_def verdict_of_def Let_def content_def split: if_splits)
    qed
  qed
qed

end
