(* ===== verification/C_Stdlib.thy ===== *)
theory C_Stdlib
  imports Data_Organization
begin

text \<open>
  What the command line tools use of the C library: the string in a buffer, the decimal conversion of
  \<^verbatim>\<open>printf\<close>, the numbers that \<^verbatim>\<open>strtol\<close> and \<^verbatim>\<open>atoi\<close> read, and the options that \<^verbatim>\<open>getopt\<close> finds on a command
  line.  A long has 64 bits.
\<close>

section \<open>Text\<close>

abbreviation NUL :: char where "NUL \<equiv> CHR 0x00"

definition nl :: string where
  "nl = [CHR 0x0A]"

text \<open>Reading a string behind the end of its buffer is undefined.\<close>

definition c_str :: "string \<Rightarrow> string option" where
  "c_str buf = (if NUL \<in> set buf then Some (cstr buf) else None)"

lemma c_str_NUL [simp]: "NUL \<notin> set s \<Longrightarrow> c_str (s @ NUL # t) = Some s"
  by (auto simp: c_str_def cstr_def takeWhile_append)

text \<open>The conversion \<^verbatim>\<open>%d\<close>.\<close>

definition fmt_d :: "int \<Rightarrow> string" where
  "fmt_d i = (if i < 0 then ''-'' @ show_base 10 (nat (- i)) else show_base 10 (nat i))"

section \<open>Numbers\<close>

definition digit_val :: "char \<Rightarrow> nat option" where
  "digit_val c =
     (let n = of_char c :: nat in
      if 48 \<le> n \<and> n \<le> 57 then Some (n - 48)
      else if 65 \<le> n \<and> n \<le> 90 then Some (n - 55)
      else if 97 \<le> n \<and> n \<le> 122 then Some (n - 87)
      else None)"

fun digits :: "nat \<Rightarrow> nat \<Rightarrow> string \<Rightarrow> nat" where
  "digits b acc [] = acc"
| "digits b acc (c # s) =
     (case digit_val c of
        Some d \<Rightarrow> if d < b then digits b (acc * b + d) s else acc
      | None \<Rightarrow> acc)"

definition is_space :: "char \<Rightarrow> bool" where
  "is_space c \<longleftrightarrow> (let n = of_char c :: nat in n = 32 \<or> 9 \<le> n \<and> n \<le> 13)"

definition is_hex :: "char \<Rightarrow> bool" where
  "is_hex c \<longleftrightarrow> (case digit_val c of Some d \<Rightarrow> d < 16 | None \<Rightarrow> False)"

text \<open>With base 16 a number may begin with \<^verbatim>\<open>0x\<close>.\<close>

definition hex_prefix :: "nat \<Rightarrow> string \<Rightarrow> string" where
  "hex_prefix b s =
     (case s of
        a # x # c # t \<Rightarrow> if b = 16 \<and> a = CHR ''0'' \<and> x \<in> {CHR ''x'', CHR ''X''} \<and> is_hex c then c # t else s
      | _ \<Rightarrow> s)"

definition saturate :: "int \<Rightarrow> int" where
  "saturate i = max (- (2 ^ 63)) (min (2 ^ 63 - 1) i)"

definition strtol :: "nat \<Rightarrow> string \<Rightarrow> int" where
  "strtol b s =
     (let s = dropWhile is_space s;
          neg = (s \<noteq> [] \<and> hd s = CHR ''-'');
          s = (if s \<noteq> [] \<and> hd s \<in> {CHR ''-'', CHR ''+''} then tl s else s);
          v = int (digits b 0 (hex_prefix b s))
      in saturate (if neg then - v else v))"

text \<open>The cast to an unsigned int; \<^verbatim>\<open>atoi\<close> is undefined for a number that is not an int.\<close>

definition unsigned_of :: "int \<Rightarrow> 32 word" where
  "unsigned_of i = word_of_int i"

definition atoi :: "string \<Rightarrow> int option" where
  "atoi s = (let v = strtol 10 s in if - (2 ^ 31) \<le> v \<and> v < 2 ^ 31 then Some v else None)"

section \<open>Options\<close>

text \<open>
  What the list of options says of a character: whether it takes an argument, or nothing when it is
  not an option.
\<close>

definition opt_kind :: "string \<Rightarrow> char \<Rightarrow> bool option" where
  "opt_kind spec c =
     (if c = CHR '':'' then None
      else case dropWhile (\<lambda>x. x \<noteq> c) spec of
             [] \<Rightarrow> None
           | x # t \<Rightarrow> Some (t \<noteq> [] \<and> hd t = CHR '':''))"

type_synonym opt = "char \<times> string"

text \<open>The options in one word of the command line; the words that follow are the rest.\<close>

fun getopt_word :: "string \<Rightarrow> string \<Rightarrow> string list \<Rightarrow> opt list \<times> string list" where
  "getopt_word spec [] args = ([], args)"
| "getopt_word spec (c # cs) args =
     (case opt_kind spec c of
        None \<Rightarrow> (let (os, args) = getopt_word spec cs args in ((CHR ''?'', []) # os, args))
      | Some False \<Rightarrow> (let (os, args) = getopt_word spec cs args in ((c, []) # os, args))
      | Some True \<Rightarrow>
          if cs \<noteq> [] then ([(c, cs)], args)
          else case args of
                 [] \<Rightarrow> ([(CHR ''?'', [])], [])
               | a # args \<Rightarrow> ([(c, a)], args))"

lemma getopt_word_shorter: "getopt_word spec cs args = (os, rest) \<Longrightarrow> length rest \<le> length args"
  by (induction spec cs args arbitrary: os rule: getopt_word.induct)
     (auto split: option.splits bool.splits if_splits list.splits prod.splits)

text \<open>All options; words that are none are passed over, and \<^verbatim>\<open>--\<close> ends the options.\<close>

function getopt :: "string \<Rightarrow> string list \<Rightarrow> opt list" where
  "getopt spec [] = []"
| "getopt spec (a # args) =
     (if a = ''--'' then []
      else if length a > 1 \<and> hd a = CHR ''-'' then
        (let (os, rest) = getopt_word spec (tl a) args in os @ getopt spec rest)
      else getopt spec args)"
  by pat_completeness auto
termination
  by (relation "measure (\<lambda>(spec, args). length args)")
     (auto dest!: getopt_word_shorter [OF sym])

section \<open>Numbers are read back\<close>

lemma digit_val_char: "d < 16 \<Longrightarrow> digit_val (digit_char d) = Some d"
  using of_digit_char [of d] by (auto simp: digit_val_def Let_def split: if_splits)

lemma digits_append:
  "(\<forall>c \<in> set s. \<exists>d < b. digit_val c = Some d) \<Longrightarrow> digits b acc (s @ t) = digits b (digits b acc s) t"
  by (induction s arbitrary: acc) auto

lemma show_base_vals: "2 \<le> b \<Longrightarrow> b \<le> 16 \<Longrightarrow> \<forall>c \<in> set (show_base b n). \<exists>d < b. digit_val c = Some d"
  using show_base_digits [of b n] by (fastforce simp: digit_val_char)

lemma digits_show: "2 \<le> b \<Longrightarrow> b \<le> 16 \<Longrightarrow> digits b 0 (show_base b n) = n"
proof (induction n rule: less_induct)
  case (less n)
  show ?case
  proof (cases "n < b")
    case True
    then show ?thesis
      using less.prems by (simp add: show_base_small digit_val_char)
  next
    case False
    have m: "n mod b < b"
      using less.prems by simp
    then have "digit_val (digit_char (n mod b)) = Some (n mod b)"
      using less.prems(2) by (intro digit_val_char) linarith
    with m show ?thesis
      using False less.prems less.IH [of "n div b"] digits_append [OF show_base_vals [OF less.prems, of "n div b"]]
      by (simp add: show_base_big)
  qed
qed

text \<open>A printed number has no sign, no space and no prefix.\<close>

lemma show_base_plain:
  assumes "2 \<le> b" "b \<le> 16"
  shows "dropWhile is_space (show_base b n) = show_base b n" "hd (show_base b n) \<notin> {CHR ''-'', CHR ''+''}"
    "hex_prefix b (show_base b n) = show_base b n"
proof -
  have d: "\<not> is_space c \<and> c \<notin> {CHR ''-'', CHR ''+'', CHR ''x'', CHR ''X''}" if "c \<in> set (show_base b n)" for c
  proof -
    obtain d where "d < b" "c = digit_char d"
      using show_base_digits [OF assms(1), of n] \<open>c \<in> _\<close> by blast
    then have "(of_char c :: nat) = (if d < 10 then 48 + d else 87 + d)" "d < 16"
      using assms of_digit_char by auto
    then show ?thesis
      by (auto simp: is_space_def Let_def split: if_splits)
  qed
  have m: "hd (show_base b n) \<in> set (show_base b n)"
    by simp
  show "dropWhile is_space (show_base b n) = show_base b n"
    using d [OF m] by (cases "show_base b n") auto
  show "hd (show_base b n) \<notin> {CHR ''-'', CHR ''+''}"
    using d [OF m] by auto
  show "hex_prefix b (show_base b n) = show_base b n"
    using d by (auto simp: hex_prefix_def split: list.splits)
qed

lemma strtol_show:
  assumes "2 \<le> b" "b \<le> 16" "n < 2 ^ 63"
  shows "strtol b (show_base b n) = int n"
  using show_base_plain [OF assms(1,2), of n] digits_show [OF assms(1,2), of n] assms(3)
  by (simp add: strtol_def Let_def saturate_def)

lemma unat_63: "unat (w :: 32 word) < 2 ^ 63"
  using unsigned_less [of w] by (rule order_less_le_trans) simp

lemma strtol_fmt_x [simp]: "unsigned_of (strtol 16 (fmt_x w)) = w"
  using unat_63 [of w] by (simp add: fmt_x_def strtol_show unsigned_of_def)

lemma unsigned_of_uint [simp]: "unsigned_of (uint w) = w" "unsigned_of (sint w) = w"
  by (simp_all add: unsigned_of_def)

lemma atoi_fmt_u:
  assumes "w < 0x80000000"
  shows "atoi (fmt_u w) = Some (uint w)"
proof -
  have "uint w < 2 ^ 31"
    using assms by (simp add: word_less_alt)
  moreover have "strtol 10 (fmt_u w) = int (unat w)"
    using unat_63 [of w] by (simp only: fmt_u_def) (rule strtol_show, simp_all)
  ultimately show ?thesis
    by (simp add: atoi_def order_trans [OF _ uint_ge_0])
qed

lemma strtol_neg: "n \<le> 2 ^ 63 \<Longrightarrow> strtol 10 (CHR ''-'' # show_base 10 n) = - int n"
  using show_base_plain(3) [of 10 n] digits_show [of 10 n]
  by (simp add: strtol_def is_space_def Let_def saturate_def)

lemma atoi_fmt_d: "- (2 ^ 31) \<le> i \<Longrightarrow> i < 2 ^ 31 \<Longrightarrow> atoi (fmt_d i) = Some i"
  by (simp add: atoi_def fmt_d_def strtol_show strtol_neg)

lemma atoi_sint [simp]: "atoi (fmt_d (sint (w :: 32 word))) = Some (sint w)"
  using sint_ge [of w] sint_less [of w] by (intro atoi_fmt_d) simp_all

end
