(* ===== verification/File_Api.thy ===== *)
theory File_Api
  imports Key_Api File_Handles Fd_List Backup_Filelist C_Stdlib
begin

text \<open>
  The file interface of the library (\<^verbatim>\<open>persistence_client_library_file.c\<close>): opening, closing, reading,
  writing, seeking, sizing, mapping and removing files, and the handles of paths that an application
  opens itself.  The build is the one without a file cache and without the application check.
\<close>

section \<open>State and environment\<close>

record 'w file_state = "'w key_state" +
  gFileHandleTree :: file_tree
  gOssFileHandleTree :: file_tree
  gOpenFdList :: pers_list
  gCPOpenFdList :: pers_list
  gBlacklist :: blacklist
  gDisk :: disk

text \<open>
  The system, the two folder names of the common object, and the answers to a call: the mutexes and
  mallocs, what the configuration structure on the stack holds before it is filled, and the string that
  lies in memory behind the buffer of the database key.
\<close>

record file_env =
  v_os :: os
  v_config_folder :: string
  v_default_folder :: string
  v_user_folder :: string
  v_seat_folder :: string
  v_mmap :: "int \<Rightarrow> int \<Rightarrow> int \<Rightarrow> int \<Rightarrow> disk \<Rightarrow> int"
  v_munmap :: "int \<Rightarrow> int \<Rightarrow> int"

record file_call =
  f_lock :: bool
  f_tree :: fcall
  f_mem :: bool
  f_list_ok :: bool
  f_idx_lock :: bool
  f_config :: config_key
  f_beyond :: string

text \<open>The user number that stands for the default data, as an \<^verbatim>\<open>int\<close>.\<close>

abbreviation (input) DEFAULTDATA_USER :: int where "DEFAULTDATA_USER \<equiv> -1"
abbreviation (input) EPERS_DESER_ALLOCMEM :: int where "EPERS_DESER_ALLOCMEM \<equiv> -12"
abbreviation (input) EPERS_MAP_LOCKFS :: int where "EPERS_MAP_LOCKFS \<equiv> -2"

definition file_context ::
  "'w env \<Rightarrow> file_call \<Rightarrow> 32 word \<Rightarrow> string \<Rightarrow> 32 word \<Rightarrow> 32 word \<Rightarrow> ('w, 'x) pcl_state_scheme \<Rightarrow> 'w
    \<Rightarrow> (db_ctx_result \<times> ('w, 'x) pcl_state_scheme \<times> 'w) option" where
  "file_context E C ldb rid user seat s w =
     map_option (\<lambda>(x, p, w). (x, s\<lparr>prct := p\<rparr>, w))
       (get_db_context (e_pco E) (names_of s) (e_app E) (rct_of s)
          \<lparr>dbctx = \<lparr>ctx_ldbid = ldb, ctx_user = user, ctx_seat = seat\<rparr>, configKey = f_config C\<rparr> rid True (prct s) w)"

definition on_disk :: "(disk \<Rightarrow> 'r \<times> disk) \<Rightarrow> ('w, 'x) file_state_scheme \<Rightarrow> 'r \<times> ('w, 'x) file_state_scheme" where
  "on_disk f s = (case f (gDisk s) of (r, d) \<Rightarrow> (r, s\<lparr>gDisk := d\<rparr>))"

section \<open>Names\<close>

text \<open>
  The rest of a key from its fifth slash on.  With fewer slashes in the first \<open>n\<close> characters the result
  is what follows the buffer.
\<close>

fun raw_loop :: "nat \<Rightarrow> nat \<Rightarrow> string \<Rightarrow> string option" where
  "raw_loop (Suc n) cnt (c # s) =
     (if c = CHR ''/'' then if cnt = 4 then Some (c # s) else raw_loop n (cnt + 1) s else raw_loop n cnt s)"
| "raw_loop _ cnt _ = None"

definition get_raw_string :: "pco \<Rightarrow> string \<Rightarrow> string \<Rightarrow> string" where
  "get_raw_string P beyond dbKey =
     (case raw_loop (key_name_len P) 0 dbKey of Some s \<Rightarrow> s | None \<Rightarrow> beyond)"

fun has_sub :: "string \<Rightarrow> string \<Rightarrow> bool" where
  "has_sub t [] = (t = [])"
| "has_sub t (c # s) = (take (length t) (c # s) = t \<or> has_sub t s)"

definition gBackupPrefix :: "names \<Rightarrow> string" where
  "gBackupPrefix N = org_root N @ ''/mnt-backup/''"

definition backup_names :: "pco \<Rightarrow> names \<Rightarrow> int \<Rightarrow> string \<Rightarrow> string \<times> string" where
  "backup_names P N policy dbPath =
     (let n = (if policy = policy_wc P then length (CACHEPREFIX N) else length (WTPREFIX N));
          fileSubPath = c_copy (path_len P) (drop n dbPath)
      in (c_copy (path_len P - 1) (gBackupPrefix N @ fileSubPath @ ''~''),
          c_copy (path_len P - 1) (gBackupPrefix N @ fileSubPath @ ''~.crc'')))"

definition default_path :: "'w env \<Rightarrow> names \<Rightarrow> int \<Rightarrow> string \<Rightarrow> string \<Rightarrow> string" where
  "default_path E N policy folder res =
     (let P = e_pco E;
          prefix = (if policy = policy_wc P then c_copy (path_len P) (getLocalCachePath N (e_app E))
                    else if policy = policy_wt P then c_copy (path_len P) (getLocalWtPath N (e_app E)) else [])
      in c_copy (path_len P) (prefix @ folder @ ''/'' @ res))"

definition getLocalCacheFilePath ::
  "'w env \<Rightarrow> file_env \<Rightarrow> names \<Rightarrow> 32 word \<Rightarrow> 32 word \<Rightarrow> string \<Rightarrow> string" where
  "getLocalCacheFilePath E V N user seat res =
     c_copy (path_len (e_pco E))
       (CACHEPREFIX N @ e_app E @ v_user_folder V @ fmt_d (sint user) @ v_seat_folder V @ fmt_d (sint seat) @ ''/'' @ res)"

section \<open>Opening\<close>

definition pclFileGetDefaultData ::
  "'w env \<Rightarrow> file_env \<Rightarrow> names \<Rightarrow> int \<Rightarrow> string \<Rightarrow> int \<Rightarrow> disk \<Rightarrow> int \<times> disk" where
  "pclFileGetDefaultData E V N handle res policy d =
     (let p = default_path E N policy (v_config_folder V) res;
          p = (if sys_access p d then p else default_path E N policy (v_default_folder V) res)
      in case sys_open (v_os V) True False False p d of
           (Opened h, d) \<Rightarrow>
             let (rval, d) =
                   (if sys_fstat h d \<noteq> -1 then
                      let (r, d) = sys_sendfile (v_os V) handle h (sys_fstat h d) d in
                      if c_int r \<noteq> -1 then (case sys_lseek handle 0 0 d of (r, d) \<Rightarrow> (c_int r, d)) else (c_int r, d)
                    else (0, d))
             in (rval, snd (sys_close h d))
         | (_, d) \<Rightarrow> (-1, d))"

text \<open>A new entry of the tree and the list for the open file \<open>handle\<close>, or the file is closed again.\<close>

definition register_file ::
  "'w env \<Rightarrow> file_call \<Rightarrow> int \<Rightarrow> int \<Rightarrow> string \<Rightarrow> string \<Rightarrow> int \<Rightarrow> bool
    \<Rightarrow> ('w, 'x) file_state_scheme \<Rightarrow> (int \<times> ('w, 'x) file_state_scheme) option" where
  "register_file E C handle perm backup csum wantBackup change s =
     do { (r, t) \<leftarrow> set_file_handle_data (e_pco E) (f_tree C) (gFileHandleTree s) handle perm backup csum None;
          let s = s\<lparr>gFileHandleTree := t\<rparr>;
          if r \<noteq> -1 then
            if change then
              do { t \<leftarrow> set_file_backup_status (e_pco E) (f_tree C) t handle wantBackup;
                   (r, l) \<leftarrow> list_item_insert (f_list_ok C) (gOpenFdList s) handle;
                   Some (handle, s\<lparr>gFileHandleTree := t, gOpenFdList := l\<rparr>) }
            else Some (handle, s)
          else Some (EPERS_MAXHANDLE, snd (on_disk (sys_close handle) s)) }"

text \<open>The check of a writable file: whether it failed, its descriptor, and the backup flag to store.\<close>

definition open_checked ::
  "'w env \<Rightarrow> file_env \<Rightarrow> file_call \<Rightarrow> config_key \<Rightarrow> string \<Rightarrow> string \<Rightarrow> string \<Rightarrow> string
    \<Rightarrow> ('w, 'x) file_state_scheme \<Rightarrow> (bool \<times> int \<times> int \<times> ('w, 'x) file_state_scheme) option" where
  "open_checked E V C cfg raw dbPath backup csum s =
     (if cpermission cfg \<noteq> perm_ro (e_pco E) then
        do { need \<leftarrow> pclBackupNeeded (f_mem C) raw (gBlacklist s);
             if need = CREATE_BACKUP then
               do { (h, d) \<leftarrow> pclVerifyConsistency (v_os V) (f_mem C) dbPath backup csum
                                (pclGetPosixPermission (e_pco E) (cpermission cfg)) (gDisk s);
                    Some (h = -1, h, 0, s\<lparr>gDisk := d\<rparr>) }
             else Some (False, -1, 1, s) }
      else Some (False, -1, 1, s))"

text \<open>The descriptor, whether the file is missing, and the cache flag.\<close>

definition open_existing ::
  "'w env \<Rightarrow> file_env \<Rightarrow> names \<Rightarrow> config_key \<Rightarrow> string \<Rightarrow> disk \<Rightarrow> (int \<times> bool \<times> int) \<times> disk" where
  "open_existing E V N cfg dbPath d =
     (let flags = pclGetPosixPermission (e_pco E) (cpermission cfg);
          (r, d) = sys_open (v_os V) (may_read flags) (writable flags) False dbPath d
      in ((fd_of r, r = NoSuchFile, if has_sub (WTPREFIX N) dbPath then 0 else 1), d))"

definition open_created ::
  "'w env \<Rightarrow> file_env \<Rightarrow> file_call \<Rightarrow> string \<Rightarrow> int \<Rightarrow> string \<Rightarrow> int
    \<Rightarrow> ('w, 'x) file_state_scheme \<Rightarrow> (int \<times> ('w, 'x) file_state_scheme) option" where
  "open_created E V C res policy dbPath cacheFlag s =
     do { (h, d) \<leftarrow> pclCreateFile (e_pco E) (v_os V) dbPath (gDisk s);
          if h = -1 then Some (-1, s\<lparr>gDisk := d\<rparr>)
          else if h \<ge> MaxPersHandle then Some (EPERS_MAXHANDLE, s\<lparr>gDisk := snd (sys_close h d)\<rparr>)
          else do { let (r, d) = pclFileGetDefaultData E V (names_of s) h res policy d;
                    t \<leftarrow> set_file_cache_status (e_pco E) (f_tree C) (gFileHandleTree s) h cacheFlag;
                    Some (h, s\<lparr>gDisk := d, gFileHandleTree := t\<rparr>) } }"

text \<open>A resource that the configuration table describes.\<close>

definition open_known ::
  "'w env \<Rightarrow> file_env \<Rightarrow> file_call \<Rightarrow> string \<Rightarrow> config_key \<Rightarrow> string \<Rightarrow> string \<Rightarrow> string \<Rightarrow> string
    \<Rightarrow> ('w, 'x) file_state_scheme \<Rightarrow> (int \<times> ('w, 'x) file_state_scheme) option" where
  "open_known E V C res cfg dbKey dbPath backup csum s =
     do { (failed, handle, wantBackup, s) \<leftarrow>
            open_checked E V C cfg (get_raw_string (e_pco E) (f_beyond C) dbKey) dbPath backup csum s;
          if failed then Some (-1, snd (on_disk (sys_close (-1)) s))
          else do {
            let ((handle, missing, cacheFlag), s) =
                  (if handle \<le> 0 then on_disk (open_existing E V (names_of s) cfg dbPath) s
                   else ((handle, False, -1), s));
            if handle < MaxPersHandle then
              do { (handle, s) \<leftarrow> (if handle = -1 \<and> missing
                                   then open_created E V C res (cpolicy cfg) dbPath cacheFlag s
                                   else Some (handle, s));
                   register_file E C handle (cpermission cfg) backup csum wantBackup
                     (cpermission cfg \<noteq> perm_ro (e_pco E)) s }
            else Some (EPERS_MAXHANDLE, snd (on_disk (sys_close handle) s)) } }"

text \<open>A resource that it does not describe is made as a local cached file.\<close>

definition open_unknown ::
  "'w env \<Rightarrow> file_env \<Rightarrow> file_call \<Rightarrow> string \<Rightarrow> 32 word \<Rightarrow> 32 word \<Rightarrow> string \<Rightarrow> string
    \<Rightarrow> ('w, 'x) file_state_scheme \<Rightarrow> (int \<times> ('w, 'x) file_state_scheme) option" where
  "open_unknown E V C res user seat backup csum s =
     do { (handle, d) \<leftarrow> pclCreateFile (e_pco E) (v_os V) (getLocalCacheFilePath E V (names_of s) user seat res) (gDisk s);
          let s = s\<lparr>gDisk := d\<rparr>;
          if handle < MaxPersHandle then
            do { t \<leftarrow> set_file_cache_status (e_pco E) (f_tree C) (gFileHandleTree s) handle 1;
                 let s = s\<lparr>gFileHandleTree := t\<rparr>;
                 if handle \<noteq> -1 then register_file E C handle (perm_rw (e_pco E)) backup csum 1 True s
                 else Some (handle, s) }
          else Some (EPERS_MAXHANDLE, snd (on_disk (sys_close handle) s)) }"

definition pclFileOpenRegular ::
  "'w env \<Rightarrow> file_env \<Rightarrow> file_call \<Rightarrow> config_key \<Rightarrow> string \<Rightarrow> string \<Rightarrow> string \<Rightarrow> int \<Rightarrow> 32 word \<Rightarrow> 32 word
    \<Rightarrow> ('w, 'x) file_state_scheme \<Rightarrow> (int \<times> ('w, 'x) file_state_scheme) option" where
  "pclFileOpenRegular E V C cfg res dbKey dbPath shared_DB user seat s =
     (let (backup, csum) = backup_names (e_pco E) (names_of s) (cpolicy cfg) dbPath in
      if shared_DB \<ge> 0 then open_known E V C res cfg dbKey dbPath backup csum s
      else open_unknown E V C res user seat backup csum s)"

definition pclFileOpenDefaultData ::
  "'w env \<Rightarrow> file_env \<Rightarrow> names \<Rightarrow> config_key \<Rightarrow> string \<Rightarrow> disk \<Rightarrow> int \<times> disk" where
  "pclFileOpenDefaultData E V N cfg res d =
     (let flags = pclGetPosixPermission (e_pco E) (cpermission cfg);
          (r, d) = sys_open (v_os V) (may_read flags) (writable flags) False
                     (default_path E N (cpolicy cfg) (v_config_folder V) res) d
      in (fd_of r, d))"

definition open_default ::
  "'w env \<Rightarrow> file_env \<Rightarrow> file_call \<Rightarrow> config_key \<Rightarrow> string
    \<Rightarrow> ('w, 'x) file_state_scheme \<Rightarrow> (int \<times> ('w, 'x) file_state_scheme) option" where
  "open_default E V C cfg res s =
     (let (handle, s) = on_disk (pclFileOpenDefaultData E V (names_of s) cfg res) s in
      if handle \<ge> MaxPersHandle then Some (EPERS_MAXHANDLE, snd (on_disk (sys_close handle) s))
      else do { t \<leftarrow> set_file_user_id (f_tree C) (gFileHandleTree s) handle DEFAULTDATA_USER;
                (r, t) \<leftarrow> set_file_handle_data (e_pco E) (f_tree C) t handle (perm_rw (e_pco E)) [] [] None;
                Some (handle, s\<lparr>gFileHandleTree := t\<rparr>) })"

definition pclFileOpen ::
  "'w env \<Rightarrow> file_env \<Rightarrow> file_call \<Rightarrow> 32 word \<Rightarrow> string \<Rightarrow> 32 word \<Rightarrow> 32 word
    \<Rightarrow> ('w, 'x) file_state_scheme \<Rightarrow> 'w \<Rightarrow> (int \<times> ('w, 'x) file_state_scheme \<times> 'w) option" where
  "pclFileOpen E V C ldb res user seat s w =
     (if gPclInitCounter s > 0 \<and> f_lock C then
        do { (x, s, w) \<leftarrow> file_context E C ldb res user seat s w;
             if ctype (res_config x) = type_file (e_pco E) then
               map_option (\<lambda>(h, s). (h, s, w))
                 (if user = PCL_USER_DEFAULTDATA then open_default E V C (res_config x) res s
                  else pclFileOpenRegular E V C (res_config x) res (res_key x) (res_path x) (res_rval x) user seat s)
             else Some (EPERS_RESOURCE_NO_FILE, s, w) }
      else Some (EPERS_NOT_INITIALIZED, s, w))"

section \<open>Closing\<close>

definition remove_path :: "string option \<Rightarrow> disk \<Rightarrow> disk" where
  "remove_path p d = (case p of Some p \<Rightarrow> snd (sys_remove p d) | None \<Rightarrow> d)"

definition pclFileClose ::
  "'w env \<Rightarrow> file_call \<Rightarrow> int \<Rightarrow> ('w, 'x) file_state_scheme \<Rightarrow> (int \<times> ('w, 'x) file_state_scheme) option" where
  "pclFileClose E C f s =
     (if gPclInitCounter s > 0 \<and> f_lock C then
        do { permission \<leftarrow> get_file_permission (e_pco E) (f_tree C) (gFileHandleTree s) f;
             if permission \<noteq> -1 then
               do { d \<leftarrow> (if permission \<noteq> perm_ro (e_pco E) \<and> permission \<noteq> perm_last (e_pco E) then
                            do { b \<leftarrow> get_file_backup_path (f_tree C) (gFileHandleTree s) f;
                                 c \<leftarrow> get_file_checksum_path (f_tree C) (gFileHandleTree s) f;
                                 Some (remove_path c (remove_path b (gDisk s))) }
                          else Some (gDisk s));
                    (r, t) \<leftarrow> remove_file_handle_data (f_tree C) (gFileHandleTree s) f;
                    let (rval, d) = sys_close f (sys_fsync f d);
                    (r, l) \<leftarrow> list_item_remove (gOpenFdList s) f;
                    Some (rval, s\<lparr>gFileHandleTree := t, gOpenFdList := l, gDisk := d\<rparr>) }
             else Some (EPERS_MAXHANDLE, s) }
      else Some (EPERS_NOT_INITIALIZED, s))"

section \<open>Reading, seeking, sizing, mapping\<close>

definition pclFileGetSize ::
  "file_call \<Rightarrow> int \<Rightarrow> ('w, 'x) file_state_scheme \<Rightarrow> int" where
  "pclFileGetSize C f s =
     (if gPclInitCounter s > 0 \<and> f_lock C then
        if sys_fstat f (gDisk s) \<noteq> -1 then c_int (sys_fstat f (gDisk s)) else -1
      else EPERS_NOT_INITIALIZED)"

definition pclFileMapData ::
  "file_env \<Rightarrow> file_call \<Rightarrow> int \<Rightarrow> int \<Rightarrow> int \<Rightarrow> int \<Rightarrow> ('w, 'x) file_state_scheme \<Rightarrow> int" where
  "pclFileMapData V C addr len offset f s =
     (if gPclInitCounter s > 0 \<and> f_lock C then
        if isAccessLocked s \<noteq> 1 then v_mmap V addr len offset f (gDisk s) else EPERS_MAP_LOCKFS
      else 0)"

definition pclFileUnmapData ::
  "file_env \<Rightarrow> file_call \<Rightarrow> int \<Rightarrow> int \<Rightarrow> ('w, 'x) file_state_scheme \<Rightarrow> int" where
  "pclFileUnmapData V C address len s =
     (if gPclInitCounter s > 0 \<and> f_lock C then
        if isAccessLocked s \<noteq> 1 then v_munmap V address len else EPERS_LOCKFS
      else EPERS_NOT_INITIALIZED)"

text \<open>The bytes that are read go to the start of the buffer; more than it holds is a fault.\<close>

definition pclFileReadData ::
  "file_call \<Rightarrow> int \<Rightarrow> byte_buf \<Rightarrow> int \<Rightarrow> ('w, 'x) file_state_scheme
    \<Rightarrow> (int \<times> byte_buf \<times> ('w, 'x) file_state_scheme) option" where
  "pclFileReadData C f buf n s =
     (if gPclInitCounter s > 0 \<and> f_lock C then
        case sys_read f n (gDisk s) of (r, bs, d) \<Rightarrow>
          if length bs > length buf then None
          else Some (c_int r, bs @ drop (length bs) buf, s\<lparr>gDisk := d\<rparr>)
      else Some (EPERS_NOT_INITIALIZED, buf, s))"

definition pclFileSeek ::
  "file_call \<Rightarrow> int \<Rightarrow> int \<Rightarrow> int \<Rightarrow> ('w, 'x) file_state_scheme \<Rightarrow> int \<times> ('w, 'x) file_state_scheme" where
  "pclFileSeek C f offset whence s =
     (if gPclInitCounter s > 0 \<and> f_lock C then
        if isAccessLocked s \<noteq> 1 then case on_disk (sys_lseek f offset whence) s of (r, s) \<Rightarrow> (c_int r, s)
        else (EPERS_LOCKFS, s)
      else (EPERS_NOT_INITIALIZED, s))"

definition pclFileRemove ::
  "'w env \<Rightarrow> file_call \<Rightarrow> 32 word \<Rightarrow> string \<Rightarrow> 32 word \<Rightarrow> 32 word
    \<Rightarrow> ('w, 'x) file_state_scheme \<Rightarrow> 'w \<Rightarrow> (int \<times> ('w, 'x) file_state_scheme \<times> 'w) option" where
  "pclFileRemove E C ldb res user seat s w =
     (if gPclInitCounter s > 0 \<and> f_lock C then
        if isAccessLocked s \<noteq> 1 then
          do { (x, s, w) \<leftarrow> file_context E C ldb res user seat s w;
               if res_rval x \<ge> 0 \<and> ctype (res_config x) = type_file (e_pco E)
               then case on_disk (sys_remove (res_path x)) s of (r, s) \<Rightarrow> Some (r, s, w)
               else Some (res_rval x, s, w) }
        else Some (EPERS_LOCKFS, s, w)
      else Some (EPERS_NOT_INITIALIZED, s, w))"

section \<open>Writing\<close>

text \<open>The backup before the first write: the checksum of the file, its backup, and the flag.\<close>

definition backup_before_write ::
  "'w env \<Rightarrow> file_env \<Rightarrow> file_call \<Rightarrow> int \<Rightarrow> ('w, 'x) file_state_scheme \<Rightarrow> ('w, 'x) file_state_scheme option" where
  "backup_before_write E V C f s =
     do { status \<leftarrow> get_file_backup_status (f_tree C) (gFileHandleTree s) f;
          user \<leftarrow> get_file_user_id (f_tree C) (gFileHandleTree s) f;
          if status = 0 \<and> user \<noteq> DEFAULTDATA_USER then
            do { (r, csumBuf, d) \<leftarrow> pclCalcCrc32Csum (f_mem C) f [] (gDisk s);
                 b \<leftarrow> get_file_backup_path (f_tree C) (gFileHandleTree s) f;
                 c \<leftarrow> get_file_checksum_path (f_tree C) (gFileHandleTree s) f;
                 (r, d) \<leftarrow> pclCreateBackup (e_pco E) (v_os V) b f c csumBuf d;
                 t \<leftarrow> set_file_backup_status (e_pco E) (f_tree C) (gFileHandleTree s) f 1;
                 Some (s\<lparr>gDisk := d, gFileHandleTree := t\<rparr>) }
          else Some s }"

text \<open>Fewer bytes in the buffer than are to be written is a fault.\<close>

definition pclFileWriteData ::
  "'w env \<Rightarrow> file_env \<Rightarrow> file_call \<Rightarrow> int \<Rightarrow> byte_buf \<Rightarrow> int
    \<Rightarrow> ('w, 'x) file_state_scheme \<Rightarrow> (int \<times> ('w, 'x) file_state_scheme) option" where
  "pclFileWriteData E V C f buf n s =
     (if gPclInitCounter s > 0 \<and> f_lock C then
        if isAccessLocked s \<noteq> 1 then
          do { permission \<leftarrow> get_file_permission (e_pco E) (f_tree C) (gFileHandleTree s) f;
               if permission \<noteq> -1 then
                 if permission \<noteq> perm_ro (e_pco E) then
                   do { s \<leftarrow> backup_before_write E V C f s;
                        if n > int (length buf) then None
                        else do {
                          let (r, d) = (if n < 0 then (-1, gDisk s) else sys_write (v_os V) f (take (nat n) buf) (gDisk s));
                          cache \<leftarrow> get_file_cache_status (f_tree C) (gFileHandleTree s) f;
                          Some (c_int r, s\<lparr>gDisk := if cache = 1 then sys_fsync f d else d\<rparr>) } }
                 else Some (EPERS_RESOURCE_READ_ONLY, s)
               else Some (EPERS_MAXHANDLE, s) }
        else Some (EPERS_LOCKFS, s)
      else Some (EPERS_NOT_INITIALIZED, s))"

section \<open>Paths\<close>

text \<open>
  Before a path is handed out: whether the check failed, the names of the backup files, which are empty
  when the file needs none, and the new state.  The file is closed again.
\<close>

definition path_checked ::
  "'w env \<Rightarrow> file_env \<Rightarrow> file_call \<Rightarrow> config_key \<Rightarrow> string
    \<Rightarrow> ('w, 'x) file_state_scheme \<Rightarrow> (bool \<times> string \<times> string \<times> ('w, 'x) file_state_scheme) option" where
  "path_checked E V C cfg dbPath s =
     (let P = e_pco E in
      if cpermission cfg \<noteq> perm_ro P then
        do { need \<leftarrow> pclBackupNeeded (f_mem C) (get_raw_string P (drop (key_name_len P) dbPath) dbPath) (gBlacklist s);
             if need = CREATE_BACKUP then
               do { let backup = c_copy (path_len P - 1) (dbPath @ ''~'');
                    let csum = c_copy (path_len P - 1) (dbPath @ ''~.crc'');
                    (h, d) \<leftarrow> pclVerifyConsistency (v_os V) (f_mem C) dbPath backup csum
                                (pclGetPosixPermission P (cpermission cfg)) (gDisk s);
                    let d = (if h > 0 then snd (sys_close h d) else d);
                    Some (h = -1, backup, csum, s\<lparr>gDisk := d\<rparr>) }
             else Some (False, [], [], s) }
      else Some (False, [], [], s))"

text \<open>A missing file is made, filled with the default data and closed.\<close>

definition path_created ::
  "'w env \<Rightarrow> file_env \<Rightarrow> file_call \<Rightarrow> string \<Rightarrow> int \<Rightarrow> string
    \<Rightarrow> ('w, 'x) file_state_scheme \<Rightarrow> ('w, 'x) file_state_scheme option" where
  "path_created E V C res policy dbPath s =
     (if sys_access dbPath (gDisk s) then Some s
      else do {
        (h, d) \<leftarrow> pclCreateFile (e_pco E) (v_os V) dbPath (gDisk s);
        t \<leftarrow> set_file_cache_status (e_pco E) (f_tree C) (gFileHandleTree s) h
               (if has_sub (WTPREFIX (names_of s)) dbPath then 0 else 1);
        let s = s\<lparr>gFileHandleTree := t\<rparr>;
        Some (if h = -1 then s\<lparr>gDisk := d\<rparr>
              else s\<lparr>gDisk := snd (sys_close h (snd (pclFileGetDefaultData E V (names_of s) h res policy d)))\<rparr>) })"

definition path_known ::
  "'w env \<Rightarrow> file_env \<Rightarrow> file_call \<Rightarrow> string \<Rightarrow> config_key \<Rightarrow> string
    \<Rightarrow> ('w, 'x) file_state_scheme \<Rightarrow> (int \<times> string option \<times> ('w, 'x) file_state_scheme) option" where
  "path_known E V C res cfg dbPath s =
     do { (failed, backup, csum, s) \<leftarrow> path_checked E V C cfg dbPath s;
          if failed then Some (-1, None, s)
          else do {
            let (handle, hs) = get_persistence_handle_idx (f_idx_lock C) (handle_nums s);
            let s = s\<lparr>handle_nums := hs\<rparr>;
            if handle = -1 then Some (handle, None, s)
            else if handle < MaxPersHandle then
              if f_mem C then
                do { s \<leftarrow> path_created E V C res (cpolicy cfg) dbPath s;
                     (r, t) \<leftarrow> set_ossfile_handle_data (e_pco E) (f_tree C) (gOssFileHandleTree s) handle
                                (cpermission cfg) 0 backup csum (Some dbPath);
                     (r, l) \<leftarrow> list_item_insert (f_list_ok C) (gCPOpenFdList s) handle;
                     Some (handle, Some dbPath, s\<lparr>gOssFileHandleTree := t, gCPOpenFdList := l\<rparr>) }
              else Some (EPERS_DESER_ALLOCMEM, None, s)
            else Some (EPERS_MAXHANDLE, None,
                   s\<lparr>handle_nums := set_persistence_handle_close_idx (f_idx_lock C) handle (handle_nums s)\<rparr>) } }"

definition path_unknown ::
  "'w env \<Rightarrow> file_env \<Rightarrow> file_call \<Rightarrow> string \<Rightarrow> 32 word \<Rightarrow> 32 word
    \<Rightarrow> ('w, 'x) file_state_scheme \<Rightarrow> (int \<times> string option \<times> ('w, 'x) file_state_scheme) option" where
  "path_unknown E V C res user seat s =
     (let P = e_pco E;
          dbPath = getLocalCacheFilePath E V (names_of s) user seat res;
          (handle, hs) = get_persistence_handle_idx (f_idx_lock C) (handle_nums s);
          s = s\<lparr>handle_nums := hs\<rparr>
      in if handle = -1 then Some (handle, None, s)
         else if handle < MaxPersHandle then
           do { (r, l) \<leftarrow> list_item_insert (f_list_ok C) (gCPOpenFdList s) handle;
                (r, t) \<leftarrow> set_ossfile_handle_data P (f_tree C) (gOssFileHandleTree s) handle (perm_rw P) 0
                           (c_copy (path_len P) (dbPath @ ''~'')) (c_copy (path_len P) (dbPath @ ''~.crc'')) None;
                Some (handle, None, s\<lparr>gOssFileHandleTree := t, gCPOpenFdList := l\<rparr>) }
         else Some (EPERS_MAXHANDLE, None,
                s\<lparr>handle_nums := set_persistence_handle_close_idx (f_idx_lock C) handle (handle_nums s)\<rparr>))"

definition pclFileCreatePath ::
  "'w env \<Rightarrow> file_env \<Rightarrow> file_call \<Rightarrow> 32 word \<Rightarrow> string \<Rightarrow> 32 word \<Rightarrow> 32 word
    \<Rightarrow> ('w, 'x) file_state_scheme \<Rightarrow> 'w \<Rightarrow> (int \<times> string option \<times> ('w, 'x) file_state_scheme \<times> 'w) option" where
  "pclFileCreatePath E V C ldb res user seat s w =
     (if gPclInitCounter s > 0 \<and> f_lock C then
        do { (x, s, w) \<leftarrow> file_context E C ldb res user seat s w;
             if ctype (res_config x) = type_file (e_pco E) then
               map_option (\<lambda>(h, p, s). (h, p, s, w))
                 (if res_rval x \<ge> 0 then path_known E V C res (res_config x) (res_path x) s
                  else path_unknown E V C res user seat s)
             else Some (EPERS_RESOURCE_NO_FILE, None, s, w) }
      else Some (EPERS_NOT_INITIALIZED, None, s, w))"

definition pclFileReleasePath ::
  "'w env \<Rightarrow> file_call \<Rightarrow> int \<Rightarrow> ('w, 'x) file_state_scheme \<Rightarrow> (int \<times> ('w, 'x) file_state_scheme) option" where
  "pclFileReleasePath E C h s =
     (if gPclInitCounter s > 0 \<and> f_lock C then
        do { permission \<leftarrow> get_ossfile_permission (e_pco E) (f_tree C) (gOssFileHandleTree s) h;
             if permission \<noteq> -1 then
               do { d \<leftarrow> (if permission \<noteq> perm_ro (e_pco E) then
                            do { b \<leftarrow> get_ossfile_backup_path (f_tree C) (gOssFileHandleTree s) h;
                                 c \<leftarrow> get_ossfile_checksum_path (f_tree C) (gOssFileHandleTree s) h;
                                 Some (remove_path c (remove_path b (gDisk s))) }
                          else Some (gDisk s));
                    let hs = set_persistence_handle_close_idx (f_idx_lock C) h (handle_nums s);
                    t \<leftarrow> set_ossfile_file_path (f_tree C) (gOssFileHandleTree s) h None;
                    (r, l) \<leftarrow> list_item_remove (gCPOpenFdList s) h;
                    (r, t) \<leftarrow> remove_ossfile_handle_data (f_tree C) t h;
                    Some (1, s\<lparr>gDisk := d, handle_nums := hs, gOssFileHandleTree := t, gCPOpenFdList := l\<rparr>) }
             else Some (EPERS_MAXHANDLE, s) }
      else Some (EPERS_NOT_INITIALIZED, s))"

end
