(* ===== verification/Dbus_Cmd.thy ===== *)
theory Dbus_Cmd
  imports Db_Access C_Stdlib
begin

text \<open>
  The messages the main loop sends on the bus (\<^verbatim>\<open>persistence_client_library_dbus_cmd.c\<close>) and the
  handler of the signals it receives (\<^verbatim>\<open>handleObjectPathMessageFallback\<close> in
  \<^verbatim>\<open>persistence_client_library_dbus_service.c\<close>).  The bus itself is not part of the sources: what is
  sent and the match rules that are set are lists in the state \<open>bus_state\<close>, and the parameters say
  whether libdbus could build a message and send it.
\<close>

section \<open>State\<close>

record bus_signal =
  sig_member :: string
  sig_args :: "string list"

datatype bus_arg = BusString string | BusUint "32 word" | BusInt "32 word"

record bus_call =
  call_dest :: string
  call_path :: string
  call_iface :: string
  call_method :: string
  call_args :: "bus_arg list"

record bus_state =
  sent_signals :: "bus_signal list"
  sent_calls :: "bus_call list"
  match_rules :: "string list"

text \<open>What the connection answers: it is there, it has a unique name, messages can be built and sent.\<close>

record bus_env =
  b_conn :: bool
  b_name :: "string option"
  b_message :: bool
  b_append :: bool
  b_send :: bool

abbreviation (input) gTimeoutMs :: "32 word" where "gTimeoutMs \<equiv> 5000"
abbreviation (input) DbusMatchRuleSize :: nat where "DbusMatchRuleSize \<equiv> 300"
abbreviation (input) DbusSubMatchSize :: nat where "DbusSubMatchSize \<equiv> 12"

definition gChangeSignal :: string where "gChangeSignal = ''PersistenceResChange''"
definition gDeleteSignal :: string where "gDeleteSignal = ''PersistenceResDelete''"
definition gCreateSignal :: string where "gCreateSignal = ''PersistenceResCreate''"

definition gDbusPersAdminConsInterface :: string where
  "gDbusPersAdminConsInterface = ''org.genivi.persistence.adminconsumer''"

section \<open>Match rules\<close>

definition rule_text :: "string \<Rightarrow> string list \<Rightarrow> string" where
  "rule_text member args =
     ''type='' @ [CHR 0x27] @ ''signal'' @ [CHR 0x27] @ '',interface='' @ [CHR 0x27] @
     ''org.genivi.persistence.adminconsumer'' @ [CHR 0x27] @ '',member='' @ [CHR 0x27] @ member @ [CHR 0x27] @
     '',path='' @ [CHR 0x27] @ ''/org/genivi/persistence/adminconsumer'' @ [CHR 0x27] @
     concat (map (\<lambda>(n, a). '',arg'' @ n @ ''='' @ [CHR 0x27] @ a @ [CHR 0x27])
       (zip [''0'', ''1'', ''2'', ''3''] args))"

definition notify_args :: "string \<Rightarrow> 32 word \<Rightarrow> 32 word \<Rightarrow> 32 word \<Rightarrow> string list" where
  "notify_args key ldb user seat = [key, fmt_u ldb, fmt_u user, fmt_u seat]"

definition match_rule :: "string \<Rightarrow> string \<Rightarrow> 32 word \<Rightarrow> 32 word \<Rightarrow> 32 word \<Rightarrow> string" where
  "match_rule member key ldb user seat =
     c_copy DbusMatchRuleSize (rule_text member (notify_args key ldb user seat))"

definition process_reg_notification_signal ::
  "32 word \<Rightarrow> 32 word \<Rightarrow> 32 word \<Rightarrow> 32 word \<Rightarrow> string \<Rightarrow> 'a bus_state_scheme \<Rightarrow> 'a bus_state_scheme" where
  "process_reg_notification_signal ldb user seat policy key s =
     (let rules = map (\<lambda>m. match_rule m key ldb user seat) [gChangeSignal, gDeleteSignal, gCreateSignal] in
      if policy = 0 then s\<lparr>match_rules := match_rules s @ rules\<rparr>
      else if policy = 1 then s\<lparr>match_rules := fold remove1 rules (match_rules s)\<rparr>
      else s)"

section \<open>Signals and calls\<close>

definition reason_string :: "32 word \<Rightarrow> string option" where
  "reason_string r =
     (if r = status_num pclNotifyStatus_deleted then Some gDeleteSignal
      else if r = status_num pclNotifyStatus_created then Some gCreateSignal
      else if r = status_num pclNotifyStatus_changed then Some gChangeSignal
      else None)"

definition process_send_notification_signal ::
  "bus_env \<Rightarrow> 32 word \<Rightarrow> 32 word \<Rightarrow> 32 word \<Rightarrow> 32 word \<Rightarrow> string \<Rightarrow> 'a bus_state_scheme \<Rightarrow> 'a bus_state_scheme" where
  "process_send_notification_signal B ldb user seat reason key s =
     (case reason_string reason of
        None \<Rightarrow> s
      | Some member \<Rightarrow>
          if b_append B \<and> b_conn B \<and> b_send B then
            s\<lparr>sent_signals := sent_signals s @
              [\<lparr>sig_member = member,
                sig_args = [key, c_copy DbusSubMatchSize (fmt_u ldb), c_copy DbusSubMatchSize (fmt_u user),
                            c_copy DbusSubMatchSize (fmt_u seat)]\<rparr>]\<rparr>
          else s)"

definition send_call :: "bus_env \<Rightarrow> bus_call \<Rightarrow> 'a bus_state_scheme \<Rightarrow> 'a bus_state_scheme" where
  "send_call B c s =
     (if b_conn B \<and> b_message B \<and> b_send B then s\<lparr>sent_calls := sent_calls s @ [c]\<rparr> else s)"

definition process_send_pas_request :: "bus_env \<Rightarrow> 32 word \<Rightarrow> 32 word \<Rightarrow> 'a bus_state_scheme \<Rightarrow> 'a bus_state_scheme" where
  "process_send_pas_request B requestID status s =
     send_call B \<lparr>call_dest = ''org.genivi.persistence.admin'', call_path = ''/org/genivi/persistence/admin'',
       call_iface = ''org.genivi.persistence.admin'', call_method = ''PersistenceAdminRequestCompleted'',
       call_args = [BusUint requestID, BusInt status]\<rparr> s"

text \<open>A registration type other than 0 and 1 leaves the method name NULL, which libdbus refuses.\<close>

definition process_send_pas_register :: "bus_env \<Rightarrow> 32 word \<Rightarrow> 32 word \<Rightarrow> 'a bus_state_scheme \<Rightarrow> 'a bus_state_scheme" where
  "process_send_pas_register B regType flag s =
     (case b_name B of
        None \<Rightarrow> s
      | Some busName \<Rightarrow>
          if regType = 0 \<or> regType = 1 then
            send_call B \<lparr>call_dest = ''org.genivi.persistence.admin'', call_path = ''/org/genivi/persistence/admin'',
              call_iface = ''org.genivi.persistence.admin'',
              call_method = (if regType = 0 then ''UnRegisterPersAdminNotification'' else ''RegisterPersAdminNotification''),
              call_args = [BusString busName, BusString ''/org/genivi/persistence/adminconsumer'', BusInt flag,
                           BusUint gTimeoutMs]\<rparr> s
          else s)"

definition process_send_lifecycle_register :: "bus_env \<Rightarrow> 32 word \<Rightarrow> 32 word \<Rightarrow> 'a bus_state_scheme \<Rightarrow> 'a bus_state_scheme" where
  "process_send_lifecycle_register B regType mode s =
     (case b_name B of
        None \<Rightarrow> s
      | Some busName \<Rightarrow>
          if regType = 0 \<or> regType = 1 then
            send_call B \<lparr>call_dest = ''org.genivi.NodeStateManager'',
              call_path = ''/org/genivi/NodeStateManager/Consumer'', call_iface = ''org.genivi.NodeStateManager.Consumer'',
              call_method = (if regType = 1 then ''RegisterShutdownClient'' else ''UnRegisterShutdownClient''),
              call_args = [BusString busName, BusString ''/org/genivi/NodeStateManager/LifeCycleConsumer'', BusUint mode] @
                (if regType = 1 then [BusUint gTimeoutMs] else [])\<rparr> s
          else s)"

definition process_send_lifecycle_request :: "bus_env \<Rightarrow> 32 word \<Rightarrow> 32 word \<Rightarrow> 'a bus_state_scheme \<Rightarrow> 'a bus_state_scheme" where
  "process_send_lifecycle_request B requestId status s =
     send_call B \<lparr>call_dest = ''org.genivi.NodeStateManager'', call_path = ''/org/genivi/NodeStateManager/Consumer'',
       call_iface = ''org.genivi.NodeStateManager.Consumer'', call_method = ''LifecycleRequestComplete'',
       call_args = [BusUint requestId, BusInt status]\<rparr> s"

section \<open>Signals received\<close>

record notification =
  n_resource :: string
  n_ldbid :: "32 word"
  n_user :: "32 word"
  n_seat :: "32 word"
  n_status :: notify_status

text \<open>
  A message on the bus: its interface, whether it is a signal, its member and its string arguments,
  \<open>None\<close> when they are not four strings.  The result is whether the message was handled and the
  notification handed to the callback, if there is one; the outer \<open>None\<close> is undefined behaviour.
\<close>

record bus_message =
  m_iface :: string
  m_signal :: bool
  m_member :: string
  m_args :: "(string \<times> string \<times> string \<times> string) option"

definition member_status :: "string \<Rightarrow> notify_status option" where
  "member_status m =
     (if m = ''PersistenceResChange'' then Some pclNotifyStatus_changed
      else if m = ''PersistenceResDelete'' then Some pclNotifyStatus_deleted
      else if m = ''PersistenceRes'' then Some pclNotifyStatus_created
      else None)"

definition handleObjectPathMessageFallback :: "bool \<Rightarrow> bus_message \<Rightarrow> (bool \<times> notification option) option" where
  "handleObjectPathMessageFallback callback m =
     (if m_iface m = gDbusPersAdminConsInterface \<and> m_signal m then
        case member_status (m_member m) of
          None \<Rightarrow> Some (False, None)
        | Some st \<Rightarrow>
            (case m_args m of
               None \<Rightarrow> Some (False, None)
             | Some (res, ldb, user, seat) \<Rightarrow>
                 do { l \<leftarrow> atoi ldb; u \<leftarrow> atoi user; a \<leftarrow> atoi seat;
                      Some (True, if callback
                                  then Some \<lparr>n_resource = res, n_ldbid = unsigned_of l, n_user = unsigned_of u,
                                              n_seat = unsigned_of a, n_status = st\<rparr>
                                  else None) })
      else Some (False, None))"

section \<open>Numbers in the messages\<close>

lemma c_copy_fmt_u [simp]: "c_copy DbusSubMatchSize (fmt_u v) = fmt_u v"
  using fmt_u_length [of v] by simp

section \<open>Notifications arrive\<close>

definition bus_msg :: "bus_signal \<Rightarrow> bus_message" where
  "bus_msg g = \<lparr>m_iface = gDbusPersAdminConsInterface, m_signal = True, m_member = sig_member g,
     m_args = (case sig_args g of [a, b, c, d] \<Rightarrow> Some (a, b, c, d) | _ \<Rightarrow> None)\<rparr>"

definition bus_ok :: bus_env where
  "bus_ok = \<lparr>b_conn = True, b_name = Some '':1.7'', b_message = True, b_append = True, b_send = True\<rparr>"

text \<open>
  C34: the signal sent for a change or a deletion carries the resource and its context without loss:
  the handler of the receiving application hands its callback the same resource, identifiers and
  kind of change, for identifiers below 2^31.
\<close>

theorem notification_delivered:
  assumes "st \<in> {pclNotifyStatus_changed, pclNotifyStatus_deleted}"
    and "ldb < 0x80000000" "user < 0x80000000" "seat < 0x80000000"
  shows "\<exists>g. sent_signals (process_send_notification_signal bus_ok ldb user seat (status_num st) key s) =
      sent_signals s @ [g] \<and>
    handleObjectPathMessageFallback True (bus_msg g) =
      Some (True, Some \<lparr>n_resource = key, n_ldbid = ldb, n_user = user, n_seat = seat, n_status = st\<rparr>)"
  using assms
  by (auto simp: process_send_notification_signal_def reason_string_def bus_ok_def bus_msg_def
      handleObjectPathMessageFallback_def member_status_def gChangeSignal_def gDeleteSignal_def atoi_fmt_u)

definition bus_0 :: bus_state where
  "bus_0 = \<lparr>sent_signals = [], sent_calls = [], match_rules = []\<rparr>"

theorem notification_delivered_witness:
  "\<exists>g. sent_signals (process_send_notification_signal bus_ok 0x20 1 2 2 ''pos'' bus_0) = [g] \<and>
     handleObjectPathMessageFallback True (bus_msg g) =
       Some (True, Some \<lparr>n_resource = ''pos'', n_ldbid = 0x20, n_user = 1, n_seat = 2, n_status = pclNotifyStatus_changed\<rparr>)"
  using notification_delivered [of pclNotifyStatus_changed "0x20" 1 2 "''pos''" bus_0] by (simp add: bus_0_def)

text \<open>
  The signal for a created resource is sent under the name \<^verbatim>\<open>PersistenceResCreate\<close>, which the
  handler does not know: it is registered for, sent, and never handed to a callback.
\<close>

lemma notification_created_lost:
  "\<exists>g. sent_signals (process_send_notification_signal bus_ok ldb user seat (status_num pclNotifyStatus_created) key s) =
      sent_signals s @ [g] \<and> handleObjectPathMessageFallback callback (bus_msg g) = Some (False, None)"
  by (simp add: process_send_notification_signal_def reason_string_def bus_ok_def bus_msg_def
      handleObjectPathMessageFallback_def member_status_def gCreateSignal_def)

lemma rule_length:
  assumes "length m = 20" "length key \<le> 100"
  shows "length (rule_text m (notify_args key ldb user seat)) < DbusMatchRuleSize"
  using assms fmt_u_length [of ldb] fmt_u_length [of user] fmt_u_length [of seat]
  by (simp add: rule_text_def notify_args_def)

text \<open>
  Registering sets a match rule for every signal that a change or a deletion of the same resource
  sends, complete up to its closing quote, when the resource name has at most 100 characters, and
  unregistering takes the rules away again.
\<close>

lemma notification_rules_match:
  assumes "length key \<le> 100" "st \<in> {pclNotifyStatus_changed, pclNotifyStatus_deleted}"
    and "sent_signals (process_send_notification_signal B ldb user seat (status_num st) key b) = sent_signals b @ [g]"
  shows "rule_text (sig_member g) (sig_args g) \<in> set (match_rules (process_reg_notification_signal ldb user seat 0 key s)) \<and>
    match_rules (process_reg_notification_signal ldb user seat 1 key
      (process_reg_notification_signal ldb user seat 0 key (s\<lparr>match_rules := []\<rparr>))) = []"
proof -
  have "sig_args g = notify_args key ldb user seat" "sig_member g \<in> {gChangeSignal, gDeleteSignal}"
    using assms(2,3)
    by (auto simp: process_send_notification_signal_def reason_string_def notify_args_def split: if_splits option.splits)
  moreover have "length gChangeSignal = 20" "length gDeleteSignal = 20"
    by (simp_all add: gChangeSignal_def gDeleteSignal_def)
  ultimately show ?thesis
    using rule_length [OF _ assms(1)]
    by (auto simp: process_reg_notification_signal_def match_rule_def)
qed

lemma notification_rules_match_witness:
  "rule_text gChangeSignal (notify_args ''pos'' 0x20 1 2)
     \<in> set (match_rules (process_reg_notification_signal 0x20 1 2 0 ''pos'' bus_0))"
proof -
  have "sent_signals (process_send_notification_signal bus_ok 0x20 1 2 (status_num pclNotifyStatus_changed) ''pos'' bus_0) =
      sent_signals bus_0 @ [\<lparr>sig_member = gChangeSignal, sig_args = notify_args ''pos'' 0x20 1 2\<rparr>]"
    by (simp add: process_send_notification_signal_def reason_string_def bus_ok_def notify_args_def)
  from notification_rules_match [OF _ _ this, of bus_0] show ?thesis
    by simp
qed

end
