(* ===== verification/Lifecycle.thy ===== *)
theory Lifecycle
  imports File_Api Dbus_Cmd
begin

text \<open>
  The main loop's commands and the life of the library: preparing a shutdown and writing back
  (\<^verbatim>\<open>persistence_client_library_dbus_cmd.c\<close>), the dispatch of the loop's messages
  (\<^verbatim>\<open>persistence_client_library_dbus_service.c\<close>), and initialisation, deinitialisation and the lifecycle
  calls (\<^verbatim>\<open>persistence_client_library.c\<close>).  \<open>gSems\<close> are the named semaphores of the system.
\<close>

section \<open>State\<close>

record 'w lib_state = "'w file_state" +
  bus :: bus_state
  gShutdownMode :: int
  gCancelCounter :: int
  gDbusMainloopRunning :: int
  gIsNodeStateManager :: int
  gSyncFd :: int
  gAppId :: string
  gSems :: "string set"
  gMainLoopCondValue :: int

abbreviation (input) PCL_SHUTDOWN_TYPE_NONE :: int where "PCL_SHUTDOWN_TYPE_NONE \<equiv> 0"
abbreviation (input) PCL_SHUTDOWN :: int where "PCL_SHUTDOWN \<equiv> 1"
abbreviation (input) PCL_SHUTDOWN_CANCEL :: int where "PCL_SHUTDOWN_CANCEL \<equiv> 0"

type_synonym ('w, 'x) run = "('w, 'x) lib_state_scheme \<times> 'w"

section \<open>Preparing a shutdown\<close>

definition open_cells :: "('w, 'x) run \<Rightarrow> nat \<rightharpoonup> fd_cell" where
  "open_cells = (\<lambda>(s, w). cells (gOpenFdList s))"

definition close_one ::
  "'w env \<Rightarrow> file_call \<Rightarrow> int \<Rightarrow> ('w, 'x) run \<Rightarrow> ('w, 'x) run option" where
  "close_one E C f = (\<lambda>(s, w). map_option (\<lambda>(r, s). (s, w)) (pclFileClose E C f s))"

definition sync_one :: "int \<Rightarrow> ('w, 'x) run \<Rightarrow> ('w, 'x) run option" where
  "sync_one f = (\<lambda>(s, w). Some (s\<lparr>gDisk := sys_fsync f (gDisk s)\<rparr>, w))"

definition flush_files ::
  "'w env \<Rightarrow> file_call \<Rightarrow> 32 word \<Rightarrow> ('w, 'x) run \<Rightarrow> ('w, 'x) run option" where
  "flush_files E C complete = (\<lambda>(s, w).
     if complete = 1 then list_iterate open_cells (close_one E C) (s, w) (head (gOpenFdList s))
     else if complete = 0 then list_iterate open_cells sync_one (s, w) (head (gOpenFdList s))
     else Some (s, w))"

definition close_all_persistence_handle :: "bool \<Rightarrow> ('w, 'x) lib_state_scheme \<Rightarrow> ('w, 'x) lib_state_scheme option" where
  "close_all_persistence_handle lock s =
     (if lock then
        do { c \<leftarrow> list_destroy (gCPOpenFdList s);
             l \<leftarrow> list_destroy (gOpenFdList s);
             Some (s\<lparr>handle_nums := close_all_handle_idx (handle_nums s), gCPOpenFdList := c, gOpenFdList := l\<rparr>) }
      else Some s)"

fun deinit_plugins :: "int list \<Rightarrow> 'w loader \<Rightarrow> 'w \<Rightarrow> 'w loader \<times> 'w" where
  "deinit_plugins [] l w = (l, w)"
| "deinit_plugins (i # is) l w =
     (case cf_deinit (gPersCustomFuncs l i) of
        Some d \<Rightarrow> deinit_plugins is (invalidate_custom_plugin i l) (d w)
      | None \<Rightarrow> deinit_plugins is l w)"

definition process_prepare_shutdown ::
  "'w env \<Rightarrow> file_call \<Rightarrow> bool \<Rightarrow> 32 word \<Rightarrow> ('w, 'x) run \<Rightarrow> ('w, 'x) run option" where
  "process_prepare_shutdown E C hlock complete = (\<lambda>(s, w).
     do { let s = pers_lock_access s;
          (s, w) \<leftarrow> flush_files E C complete (s, w);
          let (s, w) = pers_rct_close_all s w;
          let (s, w) = database_close_all E s w;
          (s, w) \<leftarrow> (if complete > 0 then
                       do { s \<leftarrow> close_all_persistence_handle hlock s;
                            let (l, w) = deinit_plugins [0..8] (loader s) w;
                            Some (s\<lparr>loader := l\<rparr>, w) }
                     else Some (s, w));
          Some (if gIsNodeStateManager s = 0 then s\<lparr>gDisk := sys_syncfs (gSyncFd s) (gDisk s)\<rparr> else s, w) })"

definition process_block_and_write_data_back :: "('w, 'x) lib_state_scheme \<Rightarrow> ('w, 'x) lib_state_scheme" where
  "process_block_and_write_data_back s = pers_lock_access s"

section \<open>The main loop\<close>

record 'w loop_env =
  l_env :: "'w env"
  l_call :: file_call
  l_hlock :: bool
  l_bus :: bus_env

definition on_bus :: "(bus_state \<Rightarrow> bus_state) \<Rightarrow> ('w, 'x) run \<Rightarrow> ('w, 'x) run" where
  "on_bus f = (\<lambda>(s, w). (s\<lparr>bus := f (bus s)\<rparr>, w))"

text \<open>The result is whether the loop goes on, and the new state.\<close>

definition dispatchInternalCommand ::
  "'w loop_env \<Rightarrow> main_msg \<Rightarrow> ('w, 'x) run \<Rightarrow> (bool \<times> ('w, 'x) run) option" where
  "dispatchInternalCommand L m r =
     (let B = l_bus L; shut = process_prepare_shutdown (l_env L) (l_call L) (l_hlock L) in
      case cmd m of
        CMD_PAS_BLOCK_AND_WRITE_BACK \<Rightarrow>
          Some (True, on_bus (process_send_pas_request B (param1 m) (param0 m))
            (process_block_and_write_data_back (fst r), snd r))
      | CMD_LC_PREPARE_SHUTDOWN \<Rightarrow>
          if param1 m = 0 then map_option (Pair True) (shut (param0 m) r)
          else map_option (\<lambda>r. (True, on_bus (process_send_lifecycle_request B (param1 m) (param0 m)) r)) (shut 1 r)
      | CMD_SEND_NOTIFY_SIGNAL \<Rightarrow>
          Some (True, on_bus (process_send_notification_signal B (param0 m) (param1 m) (param2 m) (param3 m) (mstring m)) r)
      | CMD_REG_NOTIFY_SIGNAL \<Rightarrow>
          Some (True, on_bus (process_reg_notification_signal (param0 m) (param1 m) (param2 m) (param3 m) (mstring m)) r)
      | CMD_SEND_PAS_REGISTER \<Rightarrow> Some (True, on_bus (process_send_pas_register B (param0 m) (param1 m)) r)
      | CMD_SEND_LC_REGISTER \<Rightarrow> Some (True, on_bus (process_send_lifecycle_register B (param0 m) (param1 m)) r)
      | CMD_QUIT \<Rightarrow> Some (False, r)
      | CMD_NONE \<Rightarrow> Some (True, r))"

text \<open>
  A message is read from the pipe, which blocks while there is none, and dispatched; then a thread that
  waits for the loop is woken up.
\<close>

definition read_command :: "'w loop_env \<Rightarrow> ('w, 'x) run \<Rightarrow> (bool \<times> ('w, 'x) run) option" where
  "read_command L = (\<lambda>(s, w).
     case pipe s of
       [] \<Rightarrow> None
     | m # ms \<Rightarrow> map_option (\<lambda>(go, s, w). (go, s\<lparr>gMainLoopCondValue := 1\<rparr>, w))
                  (dispatchInternalCommand L m (s\<lparr>pipe := ms\<rparr>, w)))"

text \<open>The loop's thread works off the messages in their order, until it is told to quit or there are none.\<close>

fun loop_messages :: "'w loop_env \<Rightarrow> nat \<Rightarrow> ('w, 'x) run \<Rightarrow> (bool \<times> ('w, 'x) run) option" where
  "loop_messages L 0 r = Some (True, r)"
| "loop_messages L (Suc n) r =
     (if pipe (fst r) = [] then Some (True, r)
      else case read_command L r of
             None \<Rightarrow> None
           | Some (go, r) \<Rightarrow> if go then loop_messages L n r else Some (False, r))"

definition main_loop :: "'w loop_env \<Rightarrow> ('w, 'x) run \<Rightarrow> (bool \<times> ('w, 'x) run) option" where
  "main_loop L r = loop_messages L (length (pipe (fst r))) r"

section \<open>The life of the library\<close>

definition pclLifecycleSet :: "pipe_os \<Rightarrow> int \<Rightarrow> ('w, 'x) lib_state_scheme \<Rightarrow> int \<times> ('w, 'x) lib_state_scheme" where
  "pclLifecycleSet wr shutdown s =
     (if gShutdownMode s = PCL_SHUTDOWN_TYPE_NONE then
        if shutdown = PCL_SHUTDOWN then
          (0, (snd (deliverToMainloop_NM wr (msg2 CMD_LC_PREPARE_SHUTDOWN 0 0) s))
              \<lparr>gCancelCounter := gCancelCounter s + 1\<rparr>)
        else if shutdown = PCL_SHUTDOWN_CANCEL then
          if gCancelCounter s < Shutdown_MaxCount then (0, pers_unlock_access s)
          else (EPERS_SHUTDOWN_MAX_CANCEL, s)
        else (EPERS_COMMON, s)
      else (EPERS_SHUTDOWN_NO_PERMIT, s))"

text \<open>Semaphores that an application left behind when it crashed are removed.\<close>

definition alnum :: "char \<Rightarrow> bool" where
  "alnum c \<longleftrightarrow> (let n = (of_char c :: nat) in 48 \<le> n \<and> n \<le> 57 \<or> 65 \<le> n \<and> n \<le> 90 \<or> 97 \<le> n \<and> n \<le> 122)"

definition makeShmName :: "string \<Rightarrow> string" where
  "makeShmName p = map (\<lambda>c. if alnum c then c else CHR ''_'') p"

definition gArtefactTemplate :: "string \<Rightarrow> string list" where
  "gArtefactTemplate nm =
     [''_Data_mnt_wt_'' @ nm @ ''_wt_itz-sem'', ''_Data_mnt_wt_'' @ nm @ ''_resource_table_cfg_itz-sem'',
      ''_Data_mnt_c_'' @ nm @ ''_cached_itz-sem'', ''_Data_mnt_c_'' @ nm @ ''_configurable_default_data_itz-sem'',
      ''_Data_mnt_c_'' @ nm @ ''_default_data_itz-sem'']"

definition checkLocalArtefacts :: "bool \<Rightarrow> string \<Rightarrow> ('w, 'x) lib_state_scheme \<Rightarrow> ('w, 'x) lib_state_scheme" where
  "checkLocalArtefacts mem appName s =
     (if mem then s\<lparr>gSems := gSems s - set (map (c_copy 256) (gArtefactTemplate (makeShmName appName)))\<rparr> else s)"

text \<open>What \<^verbatim>\<open>stat\<close>, \<^verbatim>\<open>open\<close> and \<^verbatim>\<open>mmap\<close> find of a file; the last one fails for a folder or when \<open>map_ok\<close> is false.\<close>

definition mapped_file :: "os \<Rightarrow> bool \<Rightarrow> string \<Rightarrow> disk \<Rightarrow> conf_file" where
  "mapped_file K map_ok p d =
     (case content d p of
        None \<Rightarrow> if comps p \<in> dirs d then MapFails else NoStat
      | Some bs \<Rightarrow>
          if bs = [] then EmptyFile
          else if \<not> os_may_open K (comps p) then OpenFails
          else if map_ok then Contents (chars_of bs) else MapFails)"

text \<open>What initialisation meets: the main loop's set-up, the plugin configuration file, the mutexes and mallocs.\<close>

record init_env =
  i_lock :: bool
  i_loop :: int
  i_conf :: conf_file
  i_namelen :: nat
  i_tree :: "key_handle hcall"
  i_mem :: bool
  i_map :: bool

definition gBackupFilename :: string where
  "gBackupFilename = ''BackupFileList.info''"

definition open_sync_folder ::
  "'w env \<Rightarrow> file_env \<Rightarrow> string \<Rightarrow> ('w, 'x) lib_state_scheme \<Rightarrow> ('w, 'x) lib_state_scheme" where
  "open_sync_folder E V appName s =
     (if appName \<noteq> ''NodeStateManager'' then
        let (f, d) = sys_open_dir (v_os V) (c_copy (path_len (e_pco E)) (''/Data/mnt-c/'' @ appName @ ''/'')) (gDisk s)
        in s\<lparr>gSyncFd := f, gDisk := d\<rparr>
      else s\<lparr>gIsNodeStateManager := 1\<rparr>)"

definition read_blacklist ::
  "'w env \<Rightarrow> file_env \<Rightarrow> init_env \<Rightarrow> string \<Rightarrow> ('w, 'x) lib_state_scheme \<Rightarrow> ('w, 'x) lib_state_scheme option" where
  "read_blacklist E V I appName s =
     (let p = c_copy (path_len (e_pco E)) (CACHEPREFIX (names_of s) @ appName @ ''/'' @ gBackupFilename) in
      map_option (\<lambda>(r, b). s\<lparr>gBlacklist := b\<rparr>)
        (readBlacklistConfigFile (i_mem I) (mapped_file (v_os V) (i_map I) p (gDisk s)) (gBlacklist s)))"

definition private_pclInitLibrary ::
  "'w env \<Rightarrow> file_env \<Rightarrow> init_env \<Rightarrow> string \<Rightarrow> int \<Rightarrow> ('w, 'x) run \<Rightarrow> (int \<times> ('w, 'x) run) option" where
  "private_pclInitLibrary E V I appName mode = (\<lambda>(s, w).
     let s = s\<lparr>gShutdownMode := mode\<rparr> in
     if gDbusMainloopRunning s = 0 \<and> i_loop I = -1 then Some (EPERS_DBUS_MAINLOOP, (s, w))
     else
       let s = s\<lparr>gDbusMainloopRunning := 1, gAppId := c_copy (resp_len (e_pco E)) appName\<rparr> in
       do { s \<leftarrow> read_blacklist E V I appName (open_sync_folder E V appName s);
            let s = (if mode \<noteq> PCL_SHUTDOWN_TYPE_NONE
                     then snd (register_lifecycle (e_wr E) (word_of_int mode) s) else s);
            (rval, l, w) \<leftarrow> load_custom_plugins (i_namelen I) (i_conf I) (e_dl E) (loader s) w;
            let s = s\<lparr>loader := l\<rparr>;
            if rval < 0 then Some (rval, (s, w))
            else do { t \<leftarrow> init_key_handle_array (i_tree I) (gKeyHandleTree s);
                      Some (rval, (pers_unlock_access (s\<lparr>gKeyHandleTree := t\<rparr>), w)) } })"

definition pclInitLibrary ::
  "'w env \<Rightarrow> file_env \<Rightarrow> init_env \<Rightarrow> string option \<Rightarrow> int \<Rightarrow> ('w, 'x) run \<Rightarrow> (int \<times> ('w, 'x) run) option" where
  "pclInitLibrary E V I appName mode = (\<lambda>(s, w).
     if i_lock I then
       case appName of
         Some name \<Rightarrow>
           if 0 < length name \<and> length name < 256 then
             if gPclInitCounter s = 0 then
               do { (rval, s, w) \<leftarrow> private_pclInitLibrary E V I name mode (checkLocalArtefacts (i_mem I) name s, w);
                    Some (rval, (if rval \<ge> 0 then s\<lparr>gPclInitCounter := gPclInitCounter s + 1\<rparr> else s, w)) }
             else Some (1, (s\<lparr>gPclInitCounter := gPclInitCounter s + 1\<rparr>, w))
           else Some (EPERS_COMMON, (s, w))
       | None \<Rightarrow> Some (EPERS_COMMON, (s, w))
     else Some (1, (s, w)))"

text \<open>
  The loop's thread works off the messages that are in the pipe; when none of them tells it to quit,
  joining the thread does not return, which is \<open>None\<close> as well.
\<close>

definition private_pclDeinitLibrary :: "'w loop_env \<Rightarrow> ('w, 'x) run \<Rightarrow> (int \<times> ('w, 'x) run) option" where
  "private_pclDeinitLibrary L = (\<lambda>(s, w).
     let wr = e_wr (l_env L);
         (rval, s) = (if gShutdownMode s \<noteq> PCL_SHUTDOWN_TYPE_NONE
                      then unregister_lifecycle wr (word_of_int (gShutdownMode s)) s else (1, s));
         s = snd (deliverToMainloop_NM wr (msg2 CMD_LC_PREPARE_SHUTDOWN 1 0) s);
         s = snd (deliverToMainloop_NM wr (msg2 CMD_QUIT 0 0) s)
     in do { (go, s, w) \<leftarrow> main_loop L (s, w);
             if go then None
             else do { (k, f, g) \<leftarrow> deleteHandleTrees (gKeyHandleTree s, gFileHandleTree s, gOssFileHandleTree s);
                       b \<leftarrow> deleteBackupTree (gBlacklist s);
                       s \<leftarrow> deleteNotifyTree
                             (s\<lparr>gKeyHandleTree := k, gFileHandleTree := f, gOssFileHandleTree := g, gBlacklist := b\<rparr>);
                       Some (rval, (if gIsNodeStateManager s = 0 then s\<lparr>gDisk := snd (sys_close (gSyncFd s) (gDisk s))\<rparr> else s, w)) } })"

definition pclDeinitLibrary :: "'w loop_env \<Rightarrow> bool \<Rightarrow> ('w, 'x) run \<Rightarrow> (int \<times> ('w, 'x) run) option" where
  "pclDeinitLibrary L lock = (\<lambda>(s, w).
     if lock then
       if gPclInitCounter s = 1 then
         do { (rval, s, w) \<leftarrow> private_pclDeinitLibrary L (s, w);
              Some (rval, (s\<lparr>gDbusMainloopRunning := 0, gPclInitCounter := gPclInitCounter s - 1\<rparr>, w)) }
       else if gPclInitCounter s > 1 then Some (1, (s\<lparr>gPclInitCounter := gPclInitCounter s - 1\<rparr>, w))
       else Some (EPERS_NOT_INITIALIZED, (s, w))
     else Some (1, (s, w)))"

end
