(* ===== verification/Backup_Laws.thy ===== *)
theory Backup_Laws
  imports Backup_Filelist
begin

text \<open>
  What the backups of \<^verbatim>\<open>persistence_client_library_backup_filelist.c\<close> guarantee: the list of files without
  backup, a backup that brings the old contents back, and the states in which the check of a file loses
  it.
\<close>

section \<open>The list of files without backup\<close>

text \<open>\<open>H\<close> is the set of the checksums in the tree.\<close>

definition bl_rep :: "key_value jsw_rbtree \<Rightarrow> 32 word set \<Rightarrow> bool" where
  "bl_rep t H \<longleftrightarrow> (\<exists>m. kv.rb_rep t m \<and> (\<forall>h. h \<in> H \<longleftrightarrow> m (- uint h) \<noteq> None))"

lemma bl_rep_new: "bl_rep key_val_tree_new {}"
  using kv.store.rep_new by (auto simp: bl_rep_def key_val_tree_new_def)

lemma bl_rep_insert:
  assumes "bl_rep t H"
  shows "\<exists>t'. jsw_rbinsert True t \<lparr>vkey = h, vvalue = []\<rparr> = Some (1, t') \<and> bl_rep t' (insert h H)"
proof -
  obtain m where m: "kv.rb_rep t m" "\<And>h. h \<in> H \<longleftrightarrow> m (- uint h) \<noteq> None"
    using assms by (auto simp: bl_rep_def)
  show ?thesis
    using kv.store.ins_rep [OF m(1), of "\<lparr>vkey = h, vvalue = []\<rparr>"] m(2)
    unfolding bl_rep_def by (fastforce simp: word_uint_eq_iff split: if_splits)
qed

lemma bl_rep_find:
  "bl_rep t H \<Longrightarrow> \<exists>f. jsw_rbfind t \<lparr>vkey = h, vvalue = []\<rparr> = Some f \<and> (f \<noteq> None \<longleftrightarrow> h \<in> H)"
  by (auto simp: bl_rep_def kv.store.find_rep)

lemma store_names_rep:
  "bl_rep t H \<Longrightarrow> \<exists>t'. store_names True ps t = Some t' \<and>
     bl_rep t' (H \<union> {h. \<exists>p \<in> set ps. key_hash (c_copy 128 p) = Some h})"
proof (induction ps arbitrary: t H)
  case (Cons p ps)
  obtain h where h: "key_hash (c_copy 128 p) = Some h"
    using key_hash_Some by blast
  obtain t' where t': "jsw_rbinsert True t \<lparr>vkey = h, vvalue = []\<rparr> = Some (1, t')" "bl_rep t' (insert h H)"
    using bl_rep_insert [OF Cons.prems] by blast
  have "insert h H \<union> {h. \<exists>p \<in> set ps. key_hash (c_copy 128 p) = Some h} =
      H \<union> {h. \<exists>q \<in> set (p # ps). key_hash (c_copy 128 q) = Some h}"
    using h by auto
  then show ?case
    using Cons.IH [OF t'(2)] h t'(1) by simp
qed simp

definition blacklist_text :: "string list \<Rightarrow> string" where
  "blacklist_text ps = render (map (\<lambda>p. (p, CHR 0x0A)) ps)"

lemma blacklist_tokens:
  assumes "\<forall>p \<in> set ps. is_word p" "length ps < TOKENARRAYSIZE"
  shows "fillFileBackupCharTokenArray (blacklist_text ps) = Some (ps @ [[]])"
proof -
  have "split_tokens 1 [] (blacklist_text ps) = Some (map fst (map (\<lambda>p. (p, CHR 0x0A)) ps) @ [[]])"
    unfolding blacklist_text_def using assms by (intro split_tokens_render) auto
  then show ?thesis
    by (simp add: fillFileBackupCharTokenArray_def o_def)
qed



section \<open>The check of a file\<close>

lemma bytes_of_Nil [simp]: "bytes_of t = [] \<longleftrightarrow> t = []" "bytes_of [] = []"
  by (simp_all add: bytes_of_def)

lemma verdict_backed:
  "b \<noteq> [] \<Longrightarrow> verdict_of x (Some b) (Some (bytes_of (csum_text b))) = (if x = None then Corrupt else Restore)"
  by (auto simp: verdict_of_def split: option.splits)

lemma content_inode_set:
  assumes "disk_ok d" "names d (comps p) = Some i"
  shows "content (d\<lparr>inodes := (inodes d)(i := x)\<rparr>) q = (if comps q = comps p then Some x else content d q)"
  using assms(2) disk_ok_inj [OF assms(1,2), of "comps q"] by (cases "names d (comps q)") (auto simp: content_def)

lemma content_orig_set:
  assumes "checkable K orig backup csum d" "names d (comps orig) = Some i"
  shows "content (d\<lparr>inodes := (inodes d)(i := x)\<rparr>) q = (if comps q = comps orig then Some x else content d q)"
  using assms content_inode_set by (simp add: checkable_def)

lemma content_forget [simp]:
  "content (forget orig backup csum d) q =
     (if comps q \<in> {comps orig, comps backup, comps csum} then None else content d q)"
  by (simp add: forget_def content_def)

text \<open>
  C15: the check of a file against its backup and its checksum file does what the three contents decide.
  Without both of them, or with an empty checksum file beside a backup, nothing is checked; a backup that
  has the stored checksum replaces the file; a file whose checksum is a stored one is kept; otherwise, and
  whenever the file itself is missing, all three files are removed and the result is -1.
\<close>

theorem pclVerifyConsistency_verdict:
  assumes "checkable K orig backup csum d" "may_read flags"
  shows "\<exists>r d'. pclVerifyConsistency K True orig backup csum flags d = Some (r, d') \<and>
    (case verdict_of (content d orig) (content d backup) (content d csum) of
       Unchecked \<Rightarrow> r = 0 \<and> d' = d
     | Keep \<Rightarrow> 0 < r \<and> d' = add_fd r (opened flags (the (names d (comps orig)))) d
     | Restore \<Rightarrow> 0 < r \<and> descs d' = (descs d)(r \<mapsto> opened O_RDWR (the (names d (comps orig)))) \<and>
         (\<forall>q. content d' q = (if comps q = comps orig then content d backup else content d q))
     | Corrupt \<Rightarrow> r = -1 \<and>
         (\<forall>q. content d' q = (if comps q \<in> {comps orig, comps backup, comps csum} then None else content d q)))"
proof -
  note V = verify_exact [OF assms]
  show ?thesis
  proof (cases "verdict_of (content d orig) (content d backup) (content d csum)")
    case Restore
    then obtain x b where "content d orig = Some x" "content d backup = Some b"
      by (auto simp: verdict_of_def split: option.splits if_splits)
    then obtain i ib where i: "names d (comps orig) = Some i" "names d (comps backup) = Some ib"
      by (auto simp: content_def)
    then show ?thesis
      using V Restore content_orig_set [OF assms(1) i(1)] by (auto simp: content_def [of d backup])
  next
    case Corrupt
    define C where "C \<longleftrightarrow> content d orig \<noteq> None \<and> (content d backup = None \<or> content d csum = None)"
    obtain h where "pclVerifyConsistency K True orig backup csum flags d =
        Some (-1, forget orig backup csum (if C then add_fd h (opened flags (the (names d (comps orig)))) d else d))"
      using V unfolding Corrupt verdict.case C_def by blast
    then show ?thesis
      using Corrupt by simp
  qed (use V in auto)
qed

text \<open>A file, its backup and its checksum file.\<close>

definition disk_3 :: "8 word list option \<Rightarrow> 8 word list option \<Rightarrow> 8 word list option \<Rightarrow> disk" where
  "disk_3 orig backup csum =
     \<lparr>names = Map.empty([''d'', ''o''] := map_option (\<lambda>b. 0) orig, [''d'', ''b''] := map_option (\<lambda>b. 1) backup,
                       [''d'', ''c''] := map_option (\<lambda>b. 2) csum),
      inodes = (\<lambda>i. [])(0 := the orig, 1 := the backup, 2 := the csum), descs = Map.empty,
      dirs = {[], [''d'']}, dir_fds = {}, next_ino = 3, stable = (\<lambda>i. [])\<rparr>"

lemma comps_3 [simp]:
  "comps ''/d/o'' = [''d'', ''o'']" "comps ''/d/b'' = [''d'', ''b'']" "comps ''/d/c'' = [''d'', ''c'']"
  by (simp_all add: comps_def tokens_def)

lemma content_3 [simp]:
  "content (disk_3 x b c) ''/d/o'' = x" "content (disk_3 x b c) ''/d/b'' = b" "content (disk_3 x b c) ''/d/c'' = c"
  by (cases x; cases b; cases c; simp add: content_def disk_3_def)+

lemma checkable_3 [simp]:
  "(case b of None \<Rightarrow> True | Some y \<Rightarrow> length y < 2 ^ 31) \<Longrightarrow> checkable free_os ''/d/o'' ''/d/b'' ''/d/c'' (disk_3 x b c)"
  unfolding checkable_def
  by (cases x; cases b; cases c)
    (auto simp: disk_3_def disk_ok_def fds_fin_def inj_on_def content_def ran_def split: if_splits)

theorem pclVerifyConsistency_verdict_witness:
  "\<exists>r d'. pclVerifyConsistency free_os True ''/d/o'' ''/d/b'' ''/d/c'' O_RDWR
       (disk_3 (Some [7]) (Some [1, 2]) (Some (bytes_of (csum_text [1, 2])))) = Some (r, d') \<and>
     0 < r \<and> content d' ''/d/o'' = Some [1, 2]"
proof -
  define d where "d = disk_3 (Some [7]) (Some [1, 2]) (Some (bytes_of (csum_text [1, 2])))"
  have "checkable free_os ''/d/o'' ''/d/b'' ''/d/c'' d"
    "verdict_of (content d ''/d/o'') (content d ''/d/b'') (content d ''/d/c'') = Restore"
    "content d ''/d/b'' = Some [1, 2]"
    by (simp_all add: d_def verdict_backed)
  then show ?thesis
    using pclVerifyConsistency_verdict [of free_os "''/d/o''" "''/d/b''" "''/d/c''" d O_RDWR]
    by (fastforce simp: d_def [symmetric])
qed

section \<open>Creating files\<close>

lemma split_path_set: "t \<in> set (split_path D p) \<Longrightarrow> set t \<inter> D = {}"
proof (induction p arbitrary: t)
  case (Cons c p)
  obtain u us where u: "split_path D p = u # us"
    by (cases "split_path D p") auto
  then have "set u \<inter> D = {}" "\<And>v. v \<in> set us \<Longrightarrow> set v \<inter> D = {}"
    using Cons.IH by simp_all
  then show ?case
    using Cons.prems u by (auto split: if_splits)
qed simp

lemma comps_set: "t \<in> set (comps p) \<Longrightarrow> t \<noteq> [] \<and> CHR ''/'' \<notin> set t"
  using split_path_set [of t "{CHR ''/''}" p] by (auto simp: comps_def tokens_def)

lemma comps_join [simp]: "(\<And>t. t \<in> set ts \<Longrightarrow> t \<noteq> [] \<and> CHR ''/'' \<notin> set t) \<Longrightarrow> comps (join_path ts) = ts"
proof (induction ts)
  case (Cons t ts)
  have t: "set t \<inter> {CHR ''/''} = {}" "t \<noteq> []"
    using Cons.prems [of t] by simp_all
  have IH: "comps (join_path ts) = ts"
    using Cons by simp
  show ?case
  proof (cases "join_path ts")
    case Nil
    then have "ts = []"
      by (cases ts) (simp_all add: join_path_def)
    then show ?thesis
      using t by (simp add: join_path_def comps_def)
  next
    case (Cons c rest)
    then have "c = CHR ''/''" "join_path (t # ts) = CHR ''/'' # t @ CHR ''/'' # rest"
      by (cases ts; simp add: join_path_def)+
    moreover have "tokens {CHR ''/''} rest = ts"
      using IH Cons \<open>c = CHR ''/''\<close> by (simp add: comps_def)
    ultimately show ?thesis
      using t by (simp add: comps_def)
  qed
qed (simp add: join_path_def comps_def)

lemma comps_join_take [simp]: "comps (join_path (take k (comps p))) = take k (comps p)"
  by (intro comps_join) (blast dest: in_set_takeD comps_set)

lemma split_path_cong: "set p \<inter> D = set p \<inter> E \<Longrightarrow> split_path D p = split_path E p"
proof (induction p)
  case (Cons c p)
  then have "split_path D p = split_path E p" "c \<in> D \<longleftrightarrow> c \<in> E"
    by (auto simp: set_eq_iff)
  then show ?case
    by simp
qed simp

lemma tokens_comps: "CHR 0x0A \<notin> set p \<Longrightarrow> tokens {CHR ''/'', CHR 0x0A} p = comps p"
proof -
  assume "CHR 0x0A \<notin> set p"
  then have "split_path {CHR ''/'', CHR 0x0A} p = split_path {CHR ''/''} p"
    by (intro split_path_cong) auto
  then show ?thesis
    unfolding tokens_def comps_def by simp
qed

text \<open>A path that \<open>pclCreateFile\<close> can make.\<close>

definition creatable :: "pco \<Rightarrow> string \<Rightarrow> disk \<Rightarrow> bool" where
  "creatable P p d \<longleftrightarrow>
     length p < path_len P \<and> CHR 0x0A \<notin> set p \<and> 2 \<le> length (comps p) \<and> length (comps p) < 24 \<and>
     length (join_path (comps p)) < path_len P \<and> take 1 (comps p) \<in> dirs d \<and> comps p \<notin> dirs d \<and>
     (\<forall>k < length (comps p). names d (take k (comps p)) = None)"

lemma mkdir_fold:
  assumes "os_permits K UNIV" "take 1 ts \<in> dirs d" "\<forall>k < length ts. names d (take k ts) = None"
    and "\<And>t. t \<in> set ts \<Longrightarrow> t \<noteq> [] \<and> CHR ''/'' \<notin> set t" "n \<le> length ts"
  shows "fold (\<lambda>k. sys_mkdir K (join_path (take k ts))) [2..<n] d = d\<lparr>dirs := dirs d \<union> (\<lambda>k. take k ts) ` {2..<n}\<rparr>"
  using assms(5)
proof (induction n)
  case (Suc n)
  show ?case
  proof (cases "2 \<le> n")
    case True
    define D where "D = dirs d \<union> (\<lambda>k. take k ts) ` {2..<n}"
    have IH: "fold (\<lambda>k. sys_mkdir K (join_path (take k ts))) [2..<n] d = d\<lparr>dirs := D\<rparr>"
      using Suc by (simp add: D_def)
    have b: "butlast (take n ts) = take (n - 1) ts" "take n ts \<noteq> []" "names d (take n ts) = None"
      using Suc.prems True assms(3) by (auto simp: butlast_take)
    have "take (n - 1) ts \<in> D"
    proof (cases "n = 2")
      case True
      then show ?thesis
        using assms(2) by (simp add: D_def)
    next
      case False
      then show ?thesis
        using True by (auto simp: D_def intro!: imageI)
    qed
    moreover have "comps (join_path (take n ts)) = take n ts"
      by (intro comps_join) (blast dest: in_set_takeD assms(4))
    ultimately have "sys_mkdir K (join_path (take n ts)) (d\<lparr>dirs := D\<rparr>) = d\<lparr>dirs := insert (take n ts) D\<rparr>"
      using b assms(1) by (simp add: sys_mkdir_def os_permits_def)
    moreover have "insert (take n ts) D = dirs d \<union> (\<lambda>k. take k ts) ` {2..<Suc n}"
      using True by (auto simp: D_def atLeastLessThanSuc)
    ultimately show ?thesis
      using True IH by simp
  qed simp
qed simp

lemma create_file_exact:
  assumes "os_permits K UNIV" "creatable P p d" "names d (comps p) = None"
  shows "\<exists>h D. pclCreateFile P K p d = Some (h, add_fd h \<lparr>d_ino = next_ino d, d_pos = 0, d_rd = True, d_wr = True\<rparr>
      (d\<lparr>names := (names d)(comps p \<mapsto> next_ino d), inodes := (inodes d)(next_ino d := []),
         next_ino := next_ino d + 1, dirs := D\<rparr>)) \<and>
    h = os_fd K (d\<lparr>dirs := D\<rparr>) \<and> D = dirs d \<union> (\<lambda>k. take k (comps p)) ` {2..<length (comps p)}"
proof -
  define ts where "ts = comps p"
  define D where "D = dirs d \<union> (\<lambda>k. take k ts) ` {2..<length ts}"
  have c: "c_copy (path_len P) p = p" "tokens {CHR ''/'', CHR 0x0A} p = ts" "\<not> length ts < 2" "\<not> 24 \<le> length ts"
    "\<not> path_len P \<le> length (join_path ts)" "ts \<notin> dirs d" "names d ts = None"
    using assms(2,3) by (auto simp: creatable_def tokens_comps ts_def)
  have ts: "t \<noteq> [] \<and> CHR ''/'' \<notin> set t" if "t \<in> set ts" for t
    using comps_set that unfolding ts_def .
  have "take 1 ts \<in> dirs d" "\<forall>k < length ts. names d (take k ts) = None"
    using assms(2) by (simp_all add: creatable_def ts_def)
  then have "fold (\<lambda>k. sys_mkdir K (join_path (take k ts))) [2..<length ts] d = d\<lparr>dirs := D\<rparr>"
    unfolding D_def using ts by (intro mkdir_fold [OF assms(1)]) auto
  moreover have "comps (join_path ts) = ts"
    using ts by (rule comps_join)
  moreover have "butlast ts \<in> D"
  proof (cases "length ts = 2")
    case True
    then show ?thesis
      using assms(2) by (simp add: D_def butlast_conv_take creatable_def ts_def [symmetric])
  next
    case False
    then show ?thesis
      using c(3) by (auto simp: D_def butlast_conv_take intro!: imageI)
  qed
  moreover have "ts \<notin> D"
  proof
    assume "ts \<in> D"
    then obtain k where k: "k < length ts" "ts = take k ts"
      using c(6) unfolding D_def by (metis UnE atLeastLessThan_iff imageE)
    show False
      using k(1) arg_cong [OF k(2) [symmetric], of length] by simp
  qed
  moreover have "os_may_create K ts" "ts \<noteq> []"
    using assms(1) c(3) by (auto simp: os_permits_def)
  ultimately have cr: "fold (\<lambda>k. sys_mkdir K (join_path (take k ts))) [2..<length ts] d = d\<lparr>dirs := D\<rparr>"
    "sys_create K True True (join_path ts) (d\<lparr>dirs := D\<rparr>) = (Opened (os_fd K (d\<lparr>dirs := D\<rparr>)),
      add_fd (os_fd K (d\<lparr>dirs := D\<rparr>)) \<lparr>d_ino = next_ino d, d_pos = 0, d_rd = True, d_wr = True\<rparr>
      (d\<lparr>names := (names d)(ts \<mapsto> next_ino d), inodes := (inodes d)(next_ino d := []),
         next_ino := next_ino d + 1, dirs := D\<rparr>))"
    using c(7) by (simp_all add: sys_create_def Let_def add_fd_def)
  have "pclCreateFile P K p d = Some (os_fd K (d\<lparr>dirs := D\<rparr>),
      add_fd (os_fd K (d\<lparr>dirs := D\<rparr>)) \<lparr>d_ino = next_ino d, d_pos = 0, d_rd = True, d_wr = True\<rparr>
      (d\<lparr>names := (names d)(ts \<mapsto> next_ino d), inodes := (inodes d)(next_ino d := []),
         next_ino := next_ino d + 1, dirs := D\<rparr>))"
    using c(3,5) unfolding pclCreateFile_def Let_def c(1,2) cr by (simp add: c(4) cr)
  then show ?thesis
    unfolding ts_def [symmetric] using D_def by (intro exI [of _ "os_fd K (d\<lparr>dirs := D\<rparr>)"] exI [of _ D]) simp
qed

section \<open>A backup and its use\<close>

text \<open>\<open>rewritten A d d'\<close>: only the files of the names in \<open>A\<close> were made or written.\<close>

definition rewritten :: "path set \<Rightarrow> disk \<Rightarrow> disk \<Rightarrow> bool" where
  "rewritten A d d' \<longleftrightarrow>
     disk_ok d' \<and> descs d' = descs d \<and> dir_fds d' = dir_fds d \<and> dirs d \<subseteq> dirs d' \<and> next_ino d \<le> next_ino d' \<and>
     stable d' = stable d \<and>
     (\<forall>q. q \<notin> A \<longrightarrow> names d' q = names d q \<and> (\<forall>i. names d q = Some i \<longrightarrow> inodes d' i = inodes d i)) \<and>
     (\<forall>q \<in> A. names d q \<noteq> None \<longrightarrow> names d' q = names d q)"

lemma rewritten_trans: "rewritten A d d1 \<Longrightarrow> rewritten A d1 d2 \<Longrightarrow> rewritten A d d2"
  by (auto simp: rewritten_def)

lemma rewritten_mono: "rewritten A d d1 \<Longrightarrow> A \<subseteq> B \<Longrightarrow> rewritten B d d1"
  unfolding rewritten_def by blast

lemma rewritten_content: "rewritten A d d1 \<Longrightarrow> comps q \<notin> A \<Longrightarrow> content d1 q = content d q"
  by (cases "names d (comps q)") (auto simp: rewritten_def content_def)

lemma disk_ok_new:
  "disk_ok d \<Longrightarrow> names d q = None \<Longrightarrow> q \<notin> D \<Longrightarrow> D \<inter> dom (names d) = {} \<Longrightarrow>
   disk_ok (d\<lparr>names := (names d)(q \<mapsto> next_ino d), inodes := X, next_ino := next_ino d + 1, dirs := D\<rparr>)"
  unfolding disk_ok_def
  by (auto simp: inj_on_def ran_def dom_def split: if_splits dest: less_imp_neq intro: less_SucI)

text \<open>Opening a file with \<^verbatim>\<open>O_CREAT\<close> and \<^verbatim>\<open>O_TRUNC\<close>, filling it and closing it again.\<close>

lemma sys_create_file:
  assumes "os_permits K UNIV" "disk_ok d" "comps p \<noteq> []" "butlast (comps p) \<in> dirs d" "comps p \<notin> dirs d"
  shows "\<exists>i d1. sys_create K r w p d =
      (Opened (os_fd K d), add_fd (os_fd K d) \<lparr>d_ino = i, d_pos = 0, d_rd = r, d_wr = w\<rparr> d1) \<and>
    names d1 (comps p) = Some i \<and> inodes d1 i = [] \<and> dirs d1 = dirs d \<and> rewritten {comps p} d d1 \<and>
    i < next_ino d1"
proof (cases "names d (comps p)")
  case None
  define d1 where "d1 = d\<lparr>names := (names d)(comps p \<mapsto> next_ino d), inodes := (inodes d)(next_ino d := []),
    next_ino := next_ino d + 1\<rparr>"
  have "d1 = d\<lparr>names := (names d)(comps p \<mapsto> next_ino d), inodes := (inodes d)(next_ino d := []),
    next_ino := next_ino d + 1, dirs := dirs d\<rparr>"
    by (simp add: d1_def)
  then have "disk_ok d1"
    using disk_ok_new [OF assms(2) None assms(5)] assms(2) by (simp add: disk_ok_def [of d])
  moreover have "i \<noteq> next_ino d" if "names d q = Some i" for q i
    using assms(2) that by (auto simp: disk_ok_def ran_def)
  ultimately have "rewritten {comps p} d d1"
    using None by (auto simp: rewritten_def d1_def)
  then show ?thesis
    using None assms by (intro exI [of _ "next_ino d"] exI [of _ d1])
      (simp add: sys_create_def Let_def os_permits_def d1_def)
next
  case (Some i)
  define d1 where "d1 = d\<lparr>inodes := (inodes d)(i := [])\<rparr>"
  have "j \<noteq> i" if "names d q = Some j" "q \<noteq> comps p" for q j
    using disk_ok_inj [OF assms(2)] Some that by blast
  then have "rewritten {comps p} d d1"
    using assms(2) by (auto simp: rewritten_def d1_def disk_ok_def)
  moreover have "i < next_ino d"
    using assms(2) Some by (auto simp: disk_ok_def ran_def)
  ultimately show ?thesis
    using Some assms by (intro exI [of _ i] exI [of _ d1])
      (simp add: sys_create_def sys_open_def Let_def os_permits_def d1_def)
qed

lemma rewritten_fill:
  assumes "rewritten A d d1" "names d1 p = Some i" "p \<in> A"
  shows "rewritten A d (d1\<lparr>inodes := (inodes d1)(i := bs)\<rparr>)"
proof -
  have "j \<noteq> i" if "names d q = Some j" "q \<notin> A" for q j
    using disk_ok_inj [of d1 q j p] assms that by (auto simp: rewritten_def)
  then show ?thesis
    using assms(1) by (auto simp: rewritten_def disk_ok_def)
qed

text \<open>
  A place for the backup and the checksum file of a file: one folder, which exists or can be made, and a
  system that refuses nothing.
\<close>

definition backup_place :: "pco \<Rightarrow> os \<Rightarrow> string \<Rightarrow> string \<Rightarrow> string \<Rightarrow> disk \<Rightarrow> bool" where
  "backup_place P K orig backup csum d \<longleftrightarrow>
     os_permits K UNIV \<and> disk_ok d \<and> fds_fin d \<and> distinct [comps orig, comps backup, comps csum] \<and>
     comps backup \<noteq> [] \<and> comps csum \<noteq> [] \<and> butlast (comps csum) = butlast (comps backup) \<and>
     {comps backup, comps csum} \<inter> dirs d = {} \<and>
     (if names d (comps backup) = None then creatable P backup d else butlast (comps backup) \<in> dirs d)"

lemma rewritten_fin: "rewritten A d d1 \<Longrightarrow> fds_fin d1 \<longleftrightarrow> fds_fin d"
  by (simp add: rewritten_def fds_fin_def)

lemma backup_folder:
  assumes "backup_place P K orig backup csum d" "names d (comps backup) = None"
  shows "\<exists>h d1. pclCreateFile P K (c_copy (path_len P) backup) d = Some (h, d1) \<and> h \<noteq> -1 \<and>
    rewritten {comps backup} d (snd (sys_close h d1)) \<and>
    butlast (comps backup) \<in> dirs (snd (sys_close h d1)) \<and>
    {comps backup, comps csum} \<inter> dirs (snd (sys_close h d1)) = {}"
proof -
  define ts where "ts = comps backup"
  have P: "os_permits K UNIV" "os_ok K" "disk_ok d" "fds_fin d" "creatable P backup d"
    "butlast (comps csum) = butlast ts" "{ts, comps csum} \<inter> dirs d = {}" "comps csum \<noteq> []"
    using assms by (auto simp: backup_place_def os_permits_def ts_def)
  obtain h D where F: "pclCreateFile P K backup d = Some (h, add_fd h \<lparr>d_ino = next_ino d, d_pos = 0, d_rd = True, d_wr = True\<rparr>
      (d\<lparr>names := (names d)(ts \<mapsto> next_ino d), inodes := (inodes d)(next_ino d := []),
         next_ino := next_ino d + 1, dirs := D\<rparr>))" "h = os_fd K (d\<lparr>dirs := D\<rparr>)"
    "D = dirs d \<union> (\<lambda>k. take k ts) ` {2..<length ts}"
    using create_file_exact [OF P(1,5) assms(2)] unfolding ts_def by blast
  define d1 where "d1 = d\<lparr>names := (names d)(ts \<mapsto> next_ino d), inodes := (inodes d)(next_ino d := []),
         next_ino := next_ino d + 1, dirs := D\<rparr>"
  have len: "2 \<le> length ts" "take 1 ts \<in> dirs d" "length (comps csum) = length ts"
    "\<forall>k < length ts. names d (take k ts) = None" "length backup < path_len P"
  proof -
    show l: "2 \<le> length ts" "take 1 ts \<in> dirs d" "\<forall>k < length ts. names d (take k ts) = None" "length backup < path_len P"
      using P(5) by (simp_all add: creatable_def ts_def)
    have "length (comps csum) - 1 = length ts - 1" "0 < length (comps csum)"
      using arg_cong [OF P(6), of length] P(8) by simp_all
    then show "length (comps csum) = length ts"
      using l(1) by linarith
  qed
  have short: "length p < length ts \<and> names d p = None \<or> p \<in> dirs d" if "p \<in> D" for p
    using that len(4) by (auto simp: F(3))
  have out: "{ts, comps csum} \<inter> D = {}"
    using short P(7) len(3) by fastforce
  have "D \<inter> dom (names d) = {}"
    using short P(3) by (fastforce simp: disk_ok_def)
  then have "disk_ok d1"
    using disk_ok_new [OF P(3), of ts D] assms(2) out by (simp add: d1_def ts_def)
  moreover have "i \<noteq> next_ino d" if "names d q = Some i" for q i
    using P(3) that by (auto simp: disk_ok_def ran_def)
  ultimately have "rewritten {ts} d d1"
    using assms(2) F(3) by (auto simp: rewritten_def d1_def ts_def)
  moreover have "butlast ts \<in> D"
  proof (cases "length ts = 2")
    case False
    then have "length ts - 1 \<in> {2..<length ts}"
      using len(1) by auto
    then show ?thesis
      unfolding F(3) butlast_conv_take by blast
  qed (use len(2) in \<open>simp add: F(3) butlast_conv_take\<close>)
  moreover have h: "0 < h" "descs d1 h = None"
    using os_fresh(1,2) [OF P(2), of "d\<lparr>dirs := D\<rparr>"] P(4) by (simp_all add: F(2) d1_def)
  moreover have "c_copy (path_len P) backup = backup"
    using len(5) by simp
  ultimately show ?thesis
    using F(1) out unfolding d1_def [symmetric] ts_def [symmetric]
    by (intro exI [of _ h] exI [of _ "add_fd h \<lparr>d_ino = next_ino d, d_pos = 0, d_rd = True, d_wr = True\<rparr> d1"])
      (simp, simp add: d1_def)
qed

text \<open>Making a backup of an open file: the two files are written, nothing else and no descriptor changes.\<close>

lemma create_backup:
  assumes bp: "backup_place P K orig backup csum d" and fd: "descs d fd = Some e" "d_rd e"
    and orig: "names d (comps orig) = Some (d_ino e)" and len: "length (inodes d (d_ino e)) < 2 ^ 31"
  shows "\<exists>d'. pclCreateBackup P K (Some backup) fd (Some csum) txt d = Some (int (length (inodes d (d_ino e))), d') \<and>
    content d' backup = Some (inodes d (d_ino e)) \<and> content d' csum = Some (bytes_of txt) \<and>
    rewritten {comps backup, comps csum} d d'"
proof -
  define A where "A = {comps backup, comps csum}"
  define x where "x = inodes d (d_ino e)"
  have P: "os_permits K UNIV" "disk_ok d" "fds_fin d" "comps backup \<noteq> comps csum" "comps orig \<notin> A" "comps csum \<noteq> []"
    "comps backup \<noteq> []" "butlast (comps csum) = butlast (comps backup)" "A \<inter> dirs d = {}" "os_ok K"
    "\<And>n. os_written K n = int n"
    using bp by (auto simp: backup_place_def A_def os_permits_def)
  obtain d1 where d1: "(if \<not> sys_access backup d then
        do { (handle, d) \<leftarrow> pclCreateFile P K (c_copy (path_len P) backup) d;
             Some (if handle \<noteq> -1 then snd (sys_close handle d) else d) } else Some d) = Some d1"
    "rewritten A d d1" "butlast (comps backup) \<in> dirs d1" "A \<inter> dirs d1 = {}"
  proof (cases "names d (comps backup)")
    case None
    then obtain h d0 where F: "pclCreateFile P K (c_copy (path_len P) backup) d = Some (h, d0)" "h \<noteq> -1"
      "rewritten {comps backup} d (snd (sys_close h d0))" "butlast (comps backup) \<in> dirs (snd (sys_close h d0))"
      "A \<inter> dirs (snd (sys_close h d0)) = {}"
      using backup_folder [OF bp] unfolding A_def by blast
    have "\<not> sys_access backup d"
      using None P(9) by (simp add: sys_access_def A_def)
    then show thesis
      using that [of "snd (sys_close h d0)"] F rewritten_mono [OF F(3), of A] by (simp add: A_def)
  next
    case (Some i)
    then show thesis
      using that [of d] bp P(2,9) by (auto simp: sys_access_def backup_place_def rewritten_def)
  qed
  have D1: "disk_ok d1" "fds_fin d1"
    using d1(2) P(3) rewritten_fin [OF d1(2)] by (auto simp: rewritten_def)
  define h1 where "h1 = os_fd K d1"
  obtain ic d2 where d2: "sys_create K False True csum d1 =
      (Opened h1, add_fd h1 \<lparr>d_ino = ic, d_pos = 0, d_rd = False, d_wr = True\<rparr> d2)"
    "names d2 (comps csum) = Some ic" "inodes d2 ic = []" "dirs d2 = dirs d1" "rewritten {comps csum} d1 d2"
    using sys_create_file [OF P(1) D1(1) P(6), of False True] d1(3,4) P(8) by (auto simp: h1_def A_def)
  define d3 where "d3 = d2\<lparr>inodes := (inodes d2)(ic := bytes_of txt)\<rparr>"
  have r3: "rewritten A d d3"
    unfolding d3_def
    by (intro rewritten_fill [OF rewritten_trans [OF d1(2) rewritten_mono [OF d2(5)]] d2(2)]) (simp_all add: A_def)
  have n1: "descs d2 h1 = None"
    using d2(5) os_fresh(2) [OF P(10) D1(2)] by (simp add: rewritten_def h1_def)
  then have s3: "snd (sys_close h1 (snd (sys_write K h1 (bytes_of txt)
      (add_fd h1 \<lparr>d_ino = ic, d_pos = 0, d_rd = False, d_wr = True\<rparr> d2)))) = d3"
    using d2(3) P(11) by (simp add: sys_write_def d3_def sys_close_def add_fd_def fun_upd_idem)
  have D3: "disk_ok d3" "fds_fin d3" "descs d3 = descs d"
    using r3 P(3) rewritten_fin [OF r3] by (auto simp: rewritten_def)
  define h2 where "h2 = os_fd K d3"
  have "dirs d3 = dirs d1"
    using d2(4) by (simp add: d3_def)
  then obtain ib d4 where d4: "sys_create K False True backup d3 =
      (Opened h2, add_fd h2 \<lparr>d_ino = ib, d_pos = 0, d_rd = False, d_wr = True\<rparr> d4)"
    "names d4 (comps backup) = Some ib" "inodes d4 ib = []" "rewritten {comps backup} d3 d4"
    using sys_create_file [OF P(1) D3(1) P(7), of False True] d1(3,4) by (auto simp: h2_def A_def)
  have r4: "rewritten A d d4"
    using rewritten_trans [OF r3 rewritten_mono [OF d4(4)]] by (simp add: A_def)
  have D4: "disk_ok d4" "descs d4 = descs d" "names d4 (comps orig) = Some (d_ino e)" "inodes d4 (d_ino e) = x"
    "descs d4 h2 = None"
    using r4 orig P(5) os_fresh(2) [OF P(10) D3(2)] D3(3) by (auto simp: rewritten_def x_def h2_def)
  have n4: "names d4 (comps csum) = Some ic"
    using d4(4) P(4) d2(2) by (simp add: rewritten_def d3_def)
  have ne: "d_ino e \<noteq> ib" "ic \<noteq> ib"
  proof -
    show "d_ino e \<noteq> ib"
      using disk_ok_inj [OF D4(1,3), of "comps backup"] d4(2) P(5) by (auto simp: A_def)
    show "ic \<noteq> ib"
      using disk_ok_inj [OF D4(1) n4, of "comps backup"] d4(2) P(4) by auto
  qed
  have hne: "fd \<noteq> h2"
    using D4(2,5) fd(1) by auto
  define d' where "d' = d4\<lparr>inodes := (inodes d4)(ib := x)\<rparr>"
  define ed where "ed = \<lparr>d_ino = ib, d_pos = 0, d_rd = False, d_wr = True\<rparr>"
  define d5 where "d5 = add_fd h2 ed d4"
  define d6 where "d6 = add_fd fd (e\<lparr>d_pos := 0\<rparr>) d5"
  have e5: "descs d5 fd = Some e" "inodes d5 = inodes d4"
    using fd(1) hne D4(2) by (simp_all add: d5_def)
  have pos: "sys_lseek fd 0 1 d5 = (int (d_pos e), d5)" "(if int (d_pos e) \<noteq> 0 then snd (sys_lseek fd 0 0 d5) else d5) = d6"
    using e5(1) by (simp_all add: sys_lseek_def d6_def)
  have cpy: "pclBackupDoFileCopy K fd h2 d6 = (int (length x), d6\<lparr>inodes := (inodes d6)(ib := x),
      descs := (descs d6)(fd \<mapsto> e\<lparr>d_pos := length x\<rparr>, h2 \<mapsto> ed)\<rparr>)"
    using file_copy [of d6 fd "e\<lparr>d_pos := 0\<rparr>" h2 ed K] fd hne ne(1) d4(3) P(11) len D4(4)
    by (simp add: d6_def d5_def ed_def x_def)
  have bk: "snd (sys_lseek fd (int (d_pos e)) 0 (snd (sys_close h2 (d6\<lparr>inodes := (inodes d6)(ib := x),
      descs := (descs d6)(fd \<mapsto> e\<lparr>d_pos := length x\<rparr>, h2 \<mapsto> ed)\<rparr>)))) = d'"
    using hne D4(2,5) fd(1)
    by (simp add: sys_close_def sys_lseek_def d6_def d5_def d'_def add_fd_def fun_upd_twist fun_upd_idem)
  have cp: "pclCreateBackup P K (Some backup) fd (Some csum) txt d = Some (int (length x), d')"
    unfolding pclCreateBackup_def option.case prod.case d1(1) bind.simps Let_def d2(1) open_result.case s3
    by (simp only: d4(1) prod.case open_result.case ed_def [symmetric] d5_def [symmetric] pos cpy bk snd_conv)
  have "rewritten A d d'"
    unfolding d'_def using rewritten_fill [OF r4 d4(2)] by (simp add: A_def)
  moreover have "content d' backup = Some x"
    using d4(2) by (simp add: content_def d'_def)
  moreover have "content d' csum = Some (bytes_of txt)"
  proof -
    have "content d4 csum = Some (bytes_of txt)"
      using rewritten_content [OF d4(4), of csum] P(4) d2(2) by (simp add: content_def d3_def)
    then show ?thesis
      using ne(2) n4 by (simp add: content_def d'_def)
  qed
  ultimately show ?thesis
    using cp unfolding A_def x_def by blast
qed

text \<open>
  C14: a crash after the backup is repaired.  The checksum of an open file that is not empty is taken and
  its backup made; whatever the file holds at the next check, when the two files are as they were made,
  the check succeeds and the file has its old contents again.
\<close>

theorem backup_restores:
  assumes "backup_place P K orig backup csum d" "descs d fd = Some e" "d_rd e" "names d (comps orig) = Some (d_ino e)"
    and "inodes d (d_ino e) = x" "x \<noteq> []" "length x < 2 ^ 31"
    and "pclCalcCrc32Csum True fd [] d = Some (r, txt, d0)"
    and "pclCreateBackup P K (Some backup) fd (Some csum) txt d0 = Some (n, d1)"
    and "checkable K orig backup csum d2" "may_read flags" "content d2 orig \<noteq> None"
    and "content d2 backup = content d1 backup" "content d2 csum = content d1 csum"
  shows "n = int (length x) \<and> (\<exists>h d3. pclVerifyConsistency K True orig backup csum flags d2 = Some (h, d3) \<and>
    0 < h \<and> content d3 orig = Some x)"
proof -
  have c: "txt = csum_text x" "d0 = d"
    using calc_crc [OF assms(2,3)] assms(5,8) by simp_all
  obtain d' where "pclCreateBackup P K (Some backup) fd (Some csum) txt d = Some (int (length x), d')"
    "content d' backup = Some x" "content d' csum = Some (bytes_of txt)"
    using create_backup [OF assms(1-4)] assms(5,7) by blast
  then have n: "n = int (length x)" "content d2 backup = Some x" "content d2 csum = Some (bytes_of (csum_text x))"
    using assms(9,13,14) c by simp_all
  moreover have "verdict_of (content d2 orig) (content d2 backup) (content d2 csum) = Restore"
    using n(2,3) assms(6,12) by (simp add: verdict_backed)
  moreover obtain i ib where i: "names d2 (comps orig) = Some i" "names d2 (comps backup) = Some ib" "inodes d2 ib = x"
    using n(2) assms(12) by (auto simp: content_def)
  ultimately show ?thesis
    using verify_exact [OF assms(10,11)] content_orig_set [OF assms(10) i(1), of x orig] by auto
qed

lemma backup_place_3:
  "backup_place pco_1 free_os ''/d/o'' ''/d/b'' ''/d/c'' (add_fd 5 e (disk_3 (Some [1, 2]) None None))" if "d_ino e = 0"
proof -
  have "names (disk_3 (Some [1, 2]) None None) (take k [''d'', ''b'']) = None" if "k < 2" for k
    using that by (auto simp: disk_3_def less_Suc_eq numeral_2_eq_2)
  then have "creatable pco_1 ''/d/b'' (add_fd 5 e (disk_3 (Some [1, 2]) None None))"
    by (simp add: creatable_def pco_1_def join_path_def) (simp add: disk_3_def)
  moreover have "disk_ok (add_fd 5 e (disk_3 (Some [1, 2]) None None))"
    using that by (auto simp: disk_ok_def disk_3_def inj_on_def ran_def split: if_splits)
  ultimately show ?thesis
    by (simp add: backup_place_def disk_3_def fds_fin_def)
qed

theorem backup_restores_witness:
  "\<exists>r txt d0 n d1 h d3.
     pclCalcCrc32Csum True 5 [] (add_fd 5 (opened O_RDWR 0) (disk_3 (Some [1, 2]) None None)) = Some (r, txt, d0) \<and>
     pclCreateBackup pco_1 free_os (Some ''/d/b'') 5 (Some ''/d/c'') txt d0 = Some (n, d1) \<and>
     pclVerifyConsistency free_os True ''/d/o'' ''/d/b'' ''/d/c'' O_RDWR
       (disk_3 (Some [9]) (content d1 ''/d/b'') (content d1 ''/d/c'')) = Some (h, d3) \<and>
     content d3 ''/d/o'' = Some [1, 2]"
proof -
  define d where "d = add_fd 5 (opened O_RDWR 0) (disk_3 (Some [1, 2]) None None)"
  have b: "backup_place pco_1 free_os ''/d/o'' ''/d/b'' ''/d/c'' d" "descs d 5 = Some (opened O_RDWR 0)"
    "d_rd (opened O_RDWR 0)" "names d (comps ''/d/o'') = Some (d_ino (opened O_RDWR 0))"
    "inodes d (d_ino (opened O_RDWR 0)) = [1, 2]"
    using backup_place_3 [of "opened O_RDWR 0"] by (simp_all add: d_def opened_def disk_3_def)
  have c: "pclCalcCrc32Csum True 5 [] d = Some (0, csum_text [1, 2], d)"
    using calc_crc [OF b(2,3)] b(5) by simp
  obtain n d1 where n: "pclCreateBackup pco_1 free_os (Some ''/d/b'') 5 (Some ''/d/c'') (csum_text [1, 2]) d = Some (n, d1)"
    "content d1 ''/d/b'' = Some [1, 2]"
    using create_backup [OF b(1-4), of "csum_text [1, 2]"] b(5) by auto
  have "\<exists>h d3. pclVerifyConsistency free_os True ''/d/o'' ''/d/b'' ''/d/c'' O_RDWR
       (disk_3 (Some [9]) (content d1 ''/d/b'') (content d1 ''/d/c'')) = Some (h, d3) \<and> content d3 ''/d/o'' = Some [1, 2]"
    using backup_restores [OF b _ _ c n(1), of "disk_3 (Some [9]) (content d1 ''/d/b'') (content d1 ''/d/c'')" O_RDWR] n(2)
    by auto
  then show ?thesis
    using c n(1) unfolding d_def by blast
qed

text \<open>
  C16: a close that was cut off between its two removals loses the file.  When only the checksum file of
  the old contents is left, a written file does not match it: the check removes the file, reports -1 and
  leaves the descriptor open that it read the file with.
\<close>

theorem verify_half_removed:
  assumes "checkable K orig backup csum d" "may_read flags" "content d orig = Some x" "content d backup = None"
    and "content d csum = Some (bytes_of (csum_text old))" "csum_text x \<noteq> csum_text old"
  shows "\<exists>h d'. pclVerifyConsistency K True orig backup csum flags d = Some (-1, d') \<and> content d' orig = None \<and>
    descs d h = None \<and> descs d' h = Some (opened flags (the (names d (comps orig))))"
proof -
  have "verdict_of (content d orig) (content d backup) (content d csum) = Corrupt"
    using assms(3-6) by (simp add: verdict_of_def)
  then obtain h where "descs d h = None" "pclVerifyConsistency K True orig backup csum flags d =
      Some (-1, forget orig backup csum (add_fd h (opened flags (the (names d (comps orig)))) d))"
    using verify_exact [OF assms(1,2)] assms(3,4) by auto
  then show ?thesis
    by (intro exI [of _ h]) (simp add: forget_def content_def)
qed

theorem verify_half_removed_witness:
  "\<exists>h d'. pclVerifyConsistency free_os True ''/d/o'' ''/d/b'' ''/d/c'' O_RDWR
       (disk_3 (Some [1]) None (Some [])) = Some (-1, d') \<and>
     content d' ''/d/o'' = None \<and> descs d' h = Some \<lparr>d_ino = 0, d_pos = 0, d_rd = True, d_wr = True\<rparr>"
proof -
  define d where "d = disk_3 (Some [1]) None (Some [])"
  have "checkable free_os ''/d/o'' ''/d/b'' ''/d/c'' d" "names d (comps ''/d/o'') = Some 0" "content d ''/d/o'' = Some [1]"
    "content d ''/d/b'' = None" "content d ''/d/c'' = Some (bytes_of (csum_text []))"
    by (simp_all add: d_def) (simp add: disk_3_def)
  then show ?thesis
    using verify_half_removed [of free_os "''/d/o''" "''/d/b''" "''/d/c''" d O_RDWR "[1]" "[]"]
    unfolding d_def [symmetric] by (auto simp: opened_def)
qed

text \<open>
  A missing file is not restored from its backup, however valid that is: the check removes the
  backup and its checksum and reports -1.
\<close>

lemma verify_missing_original:
  assumes "checkable K orig backup csum d" "may_read flags" "content d orig = None" "content d backup = Some b" "b \<noteq> []"
    and "content d csum = Some (bytes_of (csum_text b))"
  shows "\<exists>d'. pclVerifyConsistency K True orig backup csum flags d = Some (-1, d') \<and>
    content d' orig = None \<and> content d' backup = None \<and> content d' csum = None"
proof -
  have "verdict_of (content d orig) (content d backup) (content d csum) = Corrupt"
    using assms(3-6) by (simp add: verdict_backed)
  then show ?thesis
    using verify_exact [OF assms(1,2)] assms(3) by auto
qed

lemma verify_missing_original_witness:
  "\<exists>d'. pclVerifyConsistency free_os True ''/d/o'' ''/d/b'' ''/d/c'' O_RDWR
       (disk_3 None (Some [1, 2]) (Some (bytes_of (csum_text [1, 2])))) = Some (-1, d') \<and> content d' ''/d/b'' = None"
  using verify_missing_original [of free_os "''/d/o''" "''/d/b''" "''/d/c''"
      "disk_3 None (Some [1, 2]) (Some (bytes_of (csum_text [1, 2])))" O_RDWR "[1, 2]"]
  by auto

text \<open>
  The checksum cannot tell a cut backup of a file of zero bytes.  A backup of \<open>m\<close> of the \<open>n\<close> bytes
  passes the check and replaces the file.
\<close>

lemma verify_accepts_cut_zeros:
  assumes "checkable K orig backup csum d" "may_read flags" "content d orig = Some x" "0 < m" "0 < n"
    and "content d backup = Some (replicate m 0)" "content d csum = Some (bytes_of (csum_text (replicate n 0)))"
  shows "\<exists>h d'. pclVerifyConsistency K True orig backup csum flags d = Some (h, d') \<and> 0 < h \<and>
    content d' orig = Some (replicate m 0)"
proof -
  have "fold (\<lambda>b c. crc32_step c b) (replicate k 0) (NOT 0) = NOT 0" for k
    by (induction k) (simp_all add: crc32_step_zero)
  then have "csum_text (replicate n 0) = csum_text (replicate m 0)"
    using assms(4,5) by (simp add: csum_text_def)
  then have "verdict_of (content d orig) (content d backup) (content d csum) = Restore"
    using assms(3-7) by (simp add: verdict_backed)
  moreover obtain i ib where i: "names d (comps orig) = Some i" "names d (comps backup) = Some ib"
    "inodes d ib = replicate m 0"
    using assms(3,6) by (auto simp: content_def)
  ultimately show ?thesis
    using verify_exact [OF assms(1,2)] content_orig_set [OF assms(1) i(1), of "replicate m 0" orig] by auto
qed

lemma verify_accepts_cut_zeros_witness:
  "\<exists>h d'. pclVerifyConsistency free_os True ''/d/o'' ''/d/b'' ''/d/c'' O_RDWR
       (disk_3 (Some [7, 7, 7]) (Some [0]) (Some (bytes_of (csum_text [0, 0, 0])))) = Some (h, d') \<and>
     content d' ''/d/o'' = Some [0]"
  using verify_accepts_cut_zeros [of free_os "''/d/o''" "''/d/b''" "''/d/c''"
      "disk_3 (Some [7, 7, 7]) (Some [0]) (Some (bytes_of (csum_text [0, 0, 0])))" O_RDWR "[7, 7, 7]" 1 3]
  by (auto simp: numeral_3_eq_3)

text \<open>
  C18: creating a file makes the folders on its path below the first one, and an empty file that is open
  for reading and writing under a new descriptor.  No other file changes.
\<close>

theorem pclCreateFile_creates:
  assumes "os_permits K UNIV" "disk_ok d" "fds_fin d" "creatable P p d" "names d (comps p) = None"
  shows "\<exists>h d'. pclCreateFile P K p d = Some (h, d') \<and> 0 < h \<and> descs d h = None \<and>
    (\<exists>i. descs d' = (descs d)(h \<mapsto> opened O_RDWR i) \<and> names d' = (names d)(comps p \<mapsto> i)) \<and>
    content d' p = Some [] \<and> (\<forall>q. comps q \<noteq> comps p \<longrightarrow> content d' q = content d q) \<and>
    dirs d' = dirs d \<union> (\<lambda>k. take k (comps p)) ` {2..<length (comps p)}"
proof -
  obtain h D where F: "pclCreateFile P K p d = Some (h, add_fd h \<lparr>d_ino = next_ino d, d_pos = 0, d_rd = True, d_wr = True\<rparr>
      (d\<lparr>names := (names d)(comps p \<mapsto> next_ino d), inodes := (inodes d)(next_ino d := []),
         next_ino := next_ino d + 1, dirs := D\<rparr>))" "h = os_fd K (d\<lparr>dirs := D\<rparr>)"
    "D = dirs d \<union> (\<lambda>k. take k (comps p)) ` {2..<length (comps p)}"
    using create_file_exact [OF assms(1,4,5)] by blast
  have "os_ok K"
    using assms(1) by (simp add: os_permits_def)
  then have h: "0 < h" "descs d h = None"
    using os_fresh(1,2) [of K "d\<lparr>dirs := D\<rparr>"] assms(3) by (simp_all add: F(2))
  have "i \<noteq> next_ino d" if "names d q = Some i" for q i
    using assms(2) that by (auto simp: disk_ok_def ran_def)
  then have "content (add_fd h e (d\<lparr>names := (names d)(comps p \<mapsto> next_ino d), inodes := (inodes d)(next_ino d := []),
      next_ino := next_ino d + 1, dirs := D\<rparr>)) q = (if comps q = comps p then Some [] else content d q)" for q e
    by (cases "names d (comps q)") (auto simp: content_def)
  then show ?thesis
    using F(1,3) h by (intro exI [of _ h] exI conjI) (auto simp: opened_def)
qed

lemma disk_3_ok [simp]: "disk_ok (disk_3 x b c)" "fds_fin (disk_3 x b c)"
  using checkable_3 [of None x c] checkable_3 [of "Some []" x c]
  by (cases x; cases b; cases c; auto simp: disk_3_def disk_ok_def fds_fin_def inj_on_def ran_def split: if_splits)+

lemma creatable_3: "creatable pco_1 ''/d/e/n'' (disk_3 (Some [1]) None None)"
proof -
  have "comps ''/d/e/n'' = [''d'', ''e'', ''n'']"
    by (simp add: comps_def tokens_def)
  moreover have "names (disk_3 (Some [1]) None None) (take k [''d'', ''e'', ''n'']) = None" if "k < 3" for k
    using that by (auto simp: disk_3_def less_Suc_eq numeral_3_eq_3)
  ultimately show ?thesis
    by (simp add: creatable_def pco_1_def join_path_def) (simp add: disk_3_def)
qed

theorem pclCreateFile_creates_witness:
  "\<exists>h d'. pclCreateFile pco_1 free_os ''/d/e/n'' (disk_3 (Some [1]) None None) = Some (h, d') \<and>
     content d' ''/d/e/n'' = Some [] \<and> content d' ''/d/o'' = Some [1] \<and> [''d'', ''e''] \<in> dirs d'"
proof -
  define d where "d = disk_3 (Some [1]) None None"
  have d: "disk_ok d" "fds_fin d" "creatable pco_1 ''/d/e/n'' d" "names d (comps ''/d/e/n'') = None"
    "content d ''/d/o'' = Some [1]" "comps ''/d/o'' \<noteq> comps ''/d/e/n''" "comps ''/d/e/n'' = [''d'', ''e'', ''n'']"
    using creatable_3 by (auto simp: d_def) (auto simp: disk_3_def comps_def tokens_def)
  have "[''d'', ''e''] \<in> (\<lambda>k. take k (comps ''/d/e/n'')) ` {2..<length (comps ''/d/e/n'')}"
    unfolding d(7) by (intro image_eqI [of _ _ 2]) simp_all
  then show ?thesis
    using pclCreateFile_creates [of free_os, OF free_os_permits d(1-4)] d(5,6) unfolding d_def [symmetric] by fastforce
qed

end
