(* ===== verification/File_Laws.thy ===== *)
theory File_Laws
  imports File_Api Backup_Laws
begin

text \<open>
  What the file interface (\<^verbatim>\<open>persistence_client_library_file.c\<close>) guarantees: a session of opening, writing
  and closing a file, with and without a crash in it, the refused calls, and the handles of paths.
\<close>

section \<open>Calls that meet no failure\<close>

text \<open>The library is initialised, the access is not locked, and no mutex, malloc or insertion fails.\<close>

definition smooth :: "file_call \<Rightarrow> file_handle \<Rightarrow> ('w, 'x) file_state_scheme \<Rightarrow> bool" where
  "smooth C j s \<longleftrightarrow>
     f_lock C \<and> f_tree C = all_ok j \<and> f_mem C \<and> f_list_ok C \<and> f_idx_lock C \<and> gPclInitCounter s > 0 \<and> gLockAccess s \<noteq> 1"

lemma sys_write_all:
  assumes "descs d f = Some e" "d_wr e" "\<And>n. os_written K n = int n"
  shows "sys_write K f bs d = (int (length bs), add_fd f (e\<lparr>d_pos := d_pos e + length bs\<rparr>)
    (d\<lparr>inodes := (inodes d)(d_ino e := put_at (d_pos e) bs (inodes d (d_ino e)))\<rparr>))"
  using assms by (simp add: sys_write_def)

text \<open>An open writable file without a backup: its entry, its descriptor and the place of its backup.\<close>

definition fresh_file ::
  "'w env \<Rightarrow> file_env \<Rightarrow> string \<Rightarrow> int \<Rightarrow> file_handle \<Rightarrow> desc \<Rightarrow> (int \<rightharpoonup> file_handle) \<Rightarrow> ('w, 'x) file_state_scheme \<Rightarrow> bool" where
  "fresh_file E V orig f e0 e m s \<longleftrightarrow>
     file_table (gFileHandleTree s) m \<and> m f = Some e0 \<and> permission e0 \<notin> {-1, perm_ro (e_pco E)} \<and> backupCreated e0 = 0 \<and>
     userId e0 \<noteq> DEFAULTDATA_USER \<and> descs (gDisk s) f = Some e \<and> d_rd e \<and> d_wr e \<and>
     names (gDisk s) (comps orig) = Some (d_ino e) \<and> length (inodes (gDisk s) (d_ino e)) < 2 ^ 31 \<and>
     backup_place (e_pco E) (v_os V) orig (backupPath e0) (csumPath e0) (gDisk s)"

lemma file_table_present: "file_table t m \<Longrightarrow> m f = Some e \<Longrightarrow> t \<noteq> None"
  by (cases t) auto

lemma get_file_entry:
  assumes "file_table t m" "m f = Some e"
  shows "get_file_permission P (all_ok j) t f = Some (permission e)"
    "get_file_backup_path (all_ok j) t f = Some (Some (backupPath e))"
    "get_file_checksum_path (all_ok j) t f = Some (Some (csumPath e))"
    "get_file_backup_status (all_ok j) t f = Some (backupCreated e)"
    "get_file_cache_status (all_ok j) t f = Some (cacheStatus e)"
    "get_file_user_id (all_ok j) t f = Some (userId e)"
  using fh_get_present [OF assms(1) file_table_present [OF assms] assms(2)] by (simp_all add: file_getters)

lemma set_status_entry:
  assumes "file_table t m" "m f = Some e"
  shows "\<exists>t'. set_file_backup_status P (all_ok j) t f st = Some t' \<and> file_table t' (m(f \<mapsto> e\<lparr>backupCreated := st\<rparr>))"
  using fh_put_present [OF assms, of j _ "\<lambda>f. f\<lparr>backupCreated := st\<rparr>"]
  unfolding set_file_backup_status_def all_ok_simps by fastforce

text \<open>The backup before the first write.\<close>

lemma backup_first:
  assumes "smooth C j s" "fresh_file E V orig f e0 e m s"
  shows "\<exists>d t. backup_before_write E V C f s = Some (s\<lparr>gDisk := d, gFileHandleTree := t\<rparr>) \<and>
    file_table t (m(f \<mapsto> e0\<lparr>backupCreated := 1\<rparr>)) \<and>
    content d (backupPath e0) = content (gDisk s) orig \<and>
    content d (csumPath e0) = Some (bytes_of (csum_text (inodes (gDisk s) (d_ino e)))) \<and>
    rewritten {comps (backupPath e0), comps (csumPath e0)} (gDisk s) d"
proof -
  have F: "file_table (gFileHandleTree s) m" "m f = Some e0" "backupCreated e0 = 0" "userId e0 \<noteq> -1"
    "descs (gDisk s) f = Some e" "d_rd e" "names (gDisk s) (comps orig) = Some (d_ino e)"
    "length (inodes (gDisk s) (d_ino e)) < 2 ^ 31" "f_tree C = all_ok j" "f_mem C"
    "backup_place (e_pco E) (v_os V) orig (backupPath e0) (csumPath e0) (gDisk s)"
    using assms by (simp_all add: fresh_file_def smooth_def)
  define x where "x = inodes (gDisk s) (d_ino e)"
  obtain d where d: "pclCreateBackup (e_pco E) (v_os V) (Some (backupPath e0)) f (Some (csumPath e0)) (csum_text x) (gDisk s) =
      Some (int (length x), d)" "content d (backupPath e0) = Some x" "content d (csumPath e0) = Some (bytes_of (csum_text x))"
    "rewritten {comps (backupPath e0), comps (csumPath e0)} (gDisk s) d"
    using create_backup [OF F(11,5,6,7,8), of "csum_text x"] unfolding x_def by blast
  obtain t where "set_file_backup_status (e_pco E) (all_ok j) (gFileHandleTree s) f 1 = Some t"
    "file_table t (m(f \<mapsto> e0\<lparr>backupCreated := 1\<rparr>))"
    using set_status_entry [OF F(1,2)] by blast
  then have "backup_before_write E V C f s = Some (s\<lparr>gDisk := d, gFileHandleTree := t\<rparr>)"
    using F(3,4,9,10) d(1) calc_crc [OF F(5,6)]
    by (simp add: backup_before_write_def get_file_entry [OF F(1,2)] x_def)
  then show ?thesis
    using \<open>file_table t _\<close> d(2-4) F(7) by (auto simp: x_def content_def)
qed

section \<open>Writing\<close>

lemma write_after_backup:
  assumes "smooth C j s" "file_table (gFileHandleTree s) m" "m f = Some e0" "permission e0 \<notin> {-1, perm_ro (e_pco E)}"
    and "backup_before_write E V C f s = Some s'" "file_table (gFileHandleTree s') m'" "m' f = Some e1"
    and "descs (gDisk s') f = Some e" "d_wr e" "\<And>n. os_written (v_os V) n = int n"
    and "0 \<le> n" "n \<le> int (length buf)" "n < 2 ^ 31"
  defines "d \<equiv> add_fd f (e\<lparr>d_pos := d_pos e + nat n\<rparr>) ((gDisk s')\<lparr>inodes := (inodes (gDisk s'))
      (d_ino e := put_at (d_pos e) (take (nat n) buf) (inodes (gDisk s') (d_ino e)))\<rparr>)"
  shows "pclFileWriteData E V C f buf n s =
    Some (n, s'\<lparr>gDisk := if cacheStatus e1 = 1 then sys_fsync f d else d\<rparr>)"
proof -
  have b: "length (take (nat n) buf) = nat n" "\<not> n < 0" "\<not> int (length buf) < n"
    using assms(11,12) by simp_all
  have w: "sys_write (v_os V) f (take (nat n) buf) (gDisk s') = (n, d)"
    using sys_write_all [OF assms(8,9,10), of "take (nat n) buf"] assms(11) by (simp only: b(1) d_def) simp
  have c: "get_file_permission (e_pco E) (f_tree C) (gFileHandleTree s) f = Some (permission e0)"
    "get_file_cache_status (f_tree C) (gFileHandleTree s') f = Some (cacheStatus e1)"
    using get_file_entry(1) [OF assms(2,3)] get_file_entry(5) [OF assms(6,7)] assms(1) by (simp_all add: smooth_def)
  show ?thesis
    using assms(1,4,11,13) w c b(2,3) unfolding pclFileWriteData_def c(1)
    by (simp add: smooth_def isAccessLocked_def assms(5))
qed

lemma content_fsync [simp]: "content (sys_fsync f d) q = content d q"
  by (simp add: sys_fsync_def content_def split: option.splits)

lemma first_write_result:
  assumes "smooth C j s" "fresh_file E V orig f e0 e m s" "0 \<le> n" "n \<le> int (length buf)" "n < 2 ^ 31"
  shows "\<exists>s1. pclFileWriteData E V C f buf n s = Some (n, s1) \<and>
    file_table (gFileHandleTree s1) (m(f \<mapsto> e0\<lparr>backupCreated := 1\<rparr>)) \<and>
    (\<forall>q. content (gDisk s1) q =
      (if comps q = comps orig then Some (put_at (d_pos e) (take (nat n) buf) (inodes (gDisk s) (d_ino e)))
       else if comps q = comps (backupPath e0) then content (gDisk s) orig
       else if comps q = comps (csumPath e0) then Some (bytes_of (csum_text (inodes (gDisk s) (d_ino e))))
       else content (gDisk s) q))"
proof -
  have F: "file_table (gFileHandleTree s) m" "m f = Some e0" "permission e0 \<notin> {-1, perm_ro (e_pco E)}"
    "descs (gDisk s) f = Some e" "d_wr e" "names (gDisk s) (comps orig) = Some (d_ino e)"
    "\<And>n. os_written (v_os V) n = int n" "comps orig \<notin> {comps (backupPath e0), comps (csumPath e0)}"
    "comps (backupPath e0) \<noteq> comps (csumPath e0)"
    using assms(2) by (auto simp: fresh_file_def backup_place_def os_permits_def)
  obtain d t where d: "backup_before_write E V C f s = Some (s\<lparr>gDisk := d, gFileHandleTree := t\<rparr>)"
    "file_table t (m(f \<mapsto> e0\<lparr>backupCreated := 1\<rparr>))" "content d (backupPath e0) = content (gDisk s) orig"
    "content d (csumPath e0) = Some (bytes_of (csum_text (inodes (gDisk s) (d_ino e))))"
    "rewritten {comps (backupPath e0), comps (csumPath e0)} (gDisk s) d"
    using backup_first [OF assms(1,2)] by blast
  have D: "disk_ok d" "descs d f = Some e" "names d (comps orig) = Some (d_ino e)"
    "inodes d (d_ino e) = inodes (gDisk s) (d_ino e)"
    using d(5) F(4,6,8) by (auto simp: rewritten_def)
  define d1 where "d1 = d\<lparr>inodes := (inodes d)(d_ino e := put_at (d_pos e) (take (nat n) buf) (inodes d (d_ino e)))\<rparr>"
  define s1 where "s1 = s\<lparr>gFileHandleTree := t, gDisk :=
      if cacheStatus e0 = 1 then sys_fsync f (add_fd f (e\<lparr>d_pos := d_pos e + nat n\<rparr>) d1)
      else add_fd f (e\<lparr>d_pos := d_pos e + nat n\<rparr>) d1\<rparr>"
  have "pclFileWriteData E V C f buf n s = Some (n, s1)"
    using write_after_backup [OF assms(1) F(1-3) d(1), of "m(f \<mapsto> e0\<lparr>backupCreated := 1\<rparr>)" "e0\<lparr>backupCreated := 1\<rparr>" e n buf]
      assms(3-5) d(2) D(2) F(5,7) by (simp add: d1_def s1_def)
  moreover have "content (gDisk s1) q = content d1 q" "gFileHandleTree s1 = t" for q
    by (simp_all add: s1_def)
  moreover have "content d1 q = (if comps q = comps orig then Some (put_at (d_pos e) (take (nat n) buf) (inodes (gDisk s) (d_ino e)))
      else content d q)" for q
    using content_inode_set [OF D(1,3)] D(4) by (simp add: d1_def)
  moreover have "content d q = (if comps q = comps (backupPath e0) then content (gDisk s) orig
      else if comps q = comps (csumPath e0) then Some (bytes_of (csum_text (inodes (gDisk s) (d_ino e))))
      else content (gDisk s) q)" for q
    using d(3,4) rewritten_content [OF d(5), of q] by (simp add: content_def)
  ultimately show ?thesis
    using d(2) F(8) by (intro exI [of _ s1]) auto
qed

text \<open>
  C9: the first write to a writable file makes its backup.  It returns the number of bytes, the file has
  them at the position of the descriptor, the backup file has the old contents and the checksum file their
  checksum; the entry remembers the backup, and no other file changes.
\<close>

theorem file_first_write:
  assumes "smooth C j s" "fresh_file E V orig f e0 e m s" "0 \<le> n" "n \<le> int (length buf)" "n < 2 ^ 31"
  shows "\<exists>s1. pclFileWriteData E V C f buf n s = Some (n, s1) \<and>
    file_table (gFileHandleTree s1) (m(f \<mapsto> e0\<lparr>backupCreated := 1\<rparr>)) \<and>
    (\<forall>q. content (gDisk s1) q =
      (if comps q = comps orig then Some (put_at (d_pos e) (take (nat n) buf) (inodes (gDisk s) (d_ino e)))
       else if comps q = comps (backupPath e0) then content (gDisk s) orig
       else if comps q = comps (csumPath e0) then Some (bytes_of (csum_text (inodes (gDisk s) (d_ino e))))
       else content (gDisk s) q))"
  using assms by (rule first_write_result)

section \<open>Opening\<close>

text \<open>
  A resource that the configuration table describes as a readable and writable file that is not on the
  list of files without backup; \<open>orig\<close> is its path, \<open>backup\<close> and \<open>csum\<close> are the names of its backup files.
\<close>

definition known_file ::
  "'w env \<Rightarrow> file_call \<Rightarrow> 32 word \<Rightarrow> string \<Rightarrow> 32 word \<Rightarrow> 32 word \<Rightarrow> string \<Rightarrow> string \<Rightarrow> string
    \<Rightarrow> ('w, 'x) file_state_scheme \<Rightarrow> 'w \<Rightarrow> bool" where
  "known_file E C ldb res user seat orig backup csum s w \<longleftrightarrow>
     pco_ok (e_pco E) \<and> user \<noteq> PCL_USER_DEFAULTDATA \<and>
     (case file_context E C ldb res user seat s w of
        None \<Rightarrow> False
      | Some (y, s', w') \<Rightarrow>
          ctype (res_config y) = type_file (e_pco E) \<and> 0 \<le> res_rval y \<and> res_path y = orig \<and>
          cpermission (res_config y) = perm_rw (e_pco E) \<and>
          backup_names (e_pco E) (names_of s) (cpolicy (res_config y)) orig = (backup, csum) \<and>
          pclBackupNeeded True (get_raw_string (e_pco E) (f_beyond C) (res_key y)) (gBlacklist s) = Some CREATE_BACKUP)"

lemma register_ok:
  assumes "smooth C j s" "file_table (gFileHandleTree s) m" "fd_list (gOpenFdList s) xs"
  shows "\<exists>t l e. register_file E C h perm backup csum want True s = Some (h, s\<lparr>gFileHandleTree := t, gOpenFdList := l\<rparr>) \<and>
    file_table t (m(h \<mapsto> e)) \<and> fd_list l (xs @ [h]) \<and> permission e = perm \<and> backupCreated e = want \<and>
    backupPath e = c_copy (path_len (e_pco E)) backup \<and> csumPath e = c_copy (path_len (e_pco E)) csum \<and>
    cacheStatus e = (case m h of None \<Rightarrow> -1 | Some e \<Rightarrow> cacheStatus e) \<and>
    userId e = (case m h of None \<Rightarrow> 0 | Some e \<Rightarrow> userId e)"
proof -
  have C: "f_tree C = all_ok j" "f_list_ok C"
    using assms(1) by (simp_all add: smooth_def)
  obtain t where t: "set_file_handle_data (e_pco E) (all_ok j) (gFileHandleTree s) h perm backup csum None = Some (0, t)"
    "file_table t (m(h \<mapsto> (case m h of
        None \<Rightarrow> \<lparr>permission = perm, backupCreated = 0, cacheStatus = -1, userId = 0,
                backupPath = c_copy (path_len (e_pco E)) backup, csumPath = c_copy (path_len (e_pco E)) csum,
                filePath = None\<rparr>
      | Some f \<Rightarrow> f\<lparr>permission := perm, filePath := None,
                       backupPath := c_copy (path_len (e_pco E)) backup, csumPath := c_copy (path_len (e_pco E)) csum\<rparr>)))"
    using fh_put_table [OF assms(2), of j h _
        "\<lambda>f. f\<lparr>permission := perm, filePath := None,
                backupPath := c_copy (path_len (e_pco E)) backup, csumPath := c_copy (path_len (e_pco E)) csum\<rparr>"]
    unfolding set_file_handle_data_def all_ok_simps by fastforce
  obtain t' where t': "set_file_backup_status (e_pco E) (all_ok j) t h want = Some t'"
    "file_table t' (m(h \<mapsto> (case m h of
        None \<Rightarrow> \<lparr>permission = perm, backupCreated = 0, cacheStatus = -1, userId = 0,
                backupPath = c_copy (path_len (e_pco E)) backup, csumPath = c_copy (path_len (e_pco E)) csum,
                filePath = None\<rparr>
      | Some f \<Rightarrow> f\<lparr>permission := perm, filePath := None, backupPath := c_copy (path_len (e_pco E)) backup,
                csumPath := c_copy (path_len (e_pco E)) csum\<rparr>)\<lparr>backupCreated := want\<rparr>))"
    using set_status_entry [OF t(2), of h _ "e_pco E" j want] by (auto simp del: fun_upd_apply simp: fun_upd_same)
  obtain l where l: "list_item_insert True (gOpenFdList s) h = Some (1, l)" "fd_list l (xs @ [h])"
    using fd_list_insert [OF assms(3)] by blast
  have "register_file E C h perm backup csum want True s = Some (h, s\<lparr>gFileHandleTree := t', gOpenFdList := l\<rparr>)"
    using C t(1) t'(1) l(1) by (simp add: register_file_def)
  moreover define e where "e = (case m h of
        None \<Rightarrow> \<lparr>permission = perm, backupCreated = 0, cacheStatus = -1, userId = 0,
                backupPath = c_copy (path_len (e_pco E)) backup, csumPath = c_copy (path_len (e_pco E)) csum,
                filePath = None\<rparr>
      | Some f \<Rightarrow> f\<lparr>permission := perm, filePath := None, backupPath := c_copy (path_len (e_pco E)) backup,
                csumPath := c_copy (path_len (e_pco E)) csum\<rparr>)\<lparr>backupCreated := want\<rparr>"
  moreover have "file_table t' (m(h \<mapsto> e))"
    using t'(2) by (simp only: e_def)
  ultimately show ?thesis
    using l(2) by (intro exI [of _ t'] exI [of _ l] exI [of _ e]) (simp split: option.splits)
qed

lemma open_known_file:
  assumes "known_file E C ldb res user seat orig backup csum s w" "smooth C j s"
  shows "\<exists>y p w'. pclFileOpen E V C ldb res user seat s w =
      map_option (\<lambda>(h, s). (h, s, w')) (open_known E V C res (res_config y) (res_key y) orig backup csum (s\<lparr>prct := p\<rparr>)) \<and>
    cpermission (res_config y) = perm_rw (e_pco E) \<and> perm_rw (e_pco E) \<noteq> perm_ro (e_pco E) \<and>
    pclBackupNeeded True (get_raw_string (e_pco E) (f_beyond C) (res_key y)) (gBlacklist s) = Some CREATE_BACKUP"
proof -
  obtain y s' w' where y: "file_context E C ldb res user seat s w = Some (y, s', w')"
    "ctype (res_config y) = type_file (e_pco E)" "0 \<le> res_rval y" "res_path y = orig"
    "cpermission (res_config y) = perm_rw (e_pco E)"
    "backup_names (e_pco E) (names_of s) (cpolicy (res_config y)) orig = (backup, csum)"
    "pclBackupNeeded True (get_raw_string (e_pco E) (f_beyond C) (res_key y)) (gBlacklist s) = Some CREATE_BACKUP"
    "pco_ok (e_pco E)" "user \<noteq> PCL_USER_DEFAULTDATA"
    using assms(1) by (auto simp: known_file_def split: option.splits)
  obtain p where p: "s' = s\<lparr>prct := p\<rparr>"
    using y(1) by (auto simp: file_context_def)
  have "perm_rw (e_pco E) \<noteq> perm_ro (e_pco E)"
    using y(8) by (simp add: pco_ok_def)
  then show ?thesis
    using y assms(2) p
    by (intro exI [of _ y] exI [of _ p] exI [of _ w']) (simp add: pclFileOpen_def pclFileOpenRegular_def smooth_def)
qed

section \<open>A crash in a session\<close>

lemma flags_rw [simp]: "pclGetPosixPermission P (perm_rw P) = O_RDWR"
  by (simp add: pclGetPosixPermission_def)

lemma open_restored:
  assumes "known_file E C ldb res user seat orig backup csum s w" "smooth C j s"
    and "file_table (gFileHandleTree s) m" "fd_list (gOpenFdList s) xs" "checkable (v_os V) orig backup csum (gDisk s)"
    and "verdict_of (content (gDisk s) orig) (content (gDisk s) backup) (content (gDisk s) csum) = Restore"
  shows "\<exists>h s' w'. pclFileOpen E V C ldb res user seat s w = Some (h, s', w') \<and>
    content (gDisk s') orig = content (gDisk s) backup \<and> (h = EPERS_MAXHANDLE \<or> 0 < h \<and> h < MaxPersHandle \<and> fd_list (gOpenFdList s') (xs @ [h]))"
proof -
  obtain y p w' where y: "pclFileOpen E V C ldb res user seat s w =
      map_option (\<lambda>(h, s). (h, s, w')) (open_known E V C res (res_config y) (res_key y) orig backup csum (s\<lparr>prct := p\<rparr>))"
    "cpermission (res_config y) = perm_rw (e_pco E)" "perm_rw (e_pco E) \<noteq> perm_ro (e_pco E)"
    "pclBackupNeeded True (get_raw_string (e_pco E) (f_beyond C) (res_key y)) (gBlacklist s) = Some CREATE_BACKUP"
    using open_known_file [OF assms(1,2)] by blast
  define i ib where "i = the (names (gDisk s) (comps orig))" and "ib = the (names (gDisk s) (comps backup))"
  define D where "D h = add_fd h (opened O_RDWR i) ((gDisk s)\<lparr>inodes := (inodes (gDisk s))(i := inodes (gDisk s) ib)\<rparr>)" for h
  obtain h where h: "0 < h" "descs (gDisk s) h = None"
    "pclVerifyConsistency (v_os V) True orig backup csum O_RDWR (gDisk s) = Some (h, D h)"
    using verify_exact [OF assms(5), of O_RDWR] assms(6) by (auto simp: D_def i_def ib_def)
  have "content (gDisk s) orig \<noteq> None" "content (gDisk s) backup \<noteq> None"
    using assms(6) by (auto simp: verdict_of_def split: option.splits if_splits)
  then have c: "content (D h) orig = content (gDisk s) backup"
    using content_orig_set [OF assms(5), of i "inodes (gDisk s) ib" orig]
    by (auto simp: D_def i_def ib_def content_def)
  define s1 where "s1 = s\<lparr>prct := p, gDisk := D h\<rparr>"
  have s1: "smooth C j s1" "file_table (gFileHandleTree s1) m" "fd_list (gOpenFdList s1) xs"
    using assms(2-4) by (simp_all add: s1_def smooth_def)
  have k: "open_known E V C res (res_config y) (res_key y) orig backup csum (s\<lparr>prct := p\<rparr>) =
      (if h < MaxPersHandle then register_file E C h (perm_rw (e_pco E)) backup csum 0 True s1
       else Some (EPERS_MAXHANDLE, snd (on_disk (sys_close h) s1)))"
    using h(1,3) y(2-4) assms(2) by (simp add: open_known_def open_checked_def smooth_def s1_def)
  have closed: "content (gDisk (snd (on_disk (sys_close h) s1))) orig = content (gDisk s) backup"
    using c h(2) by (simp add: on_disk_def s1_def case_prod_beta D_def)
  show ?thesis
    using register_ok [OF s1, of E h "perm_rw (e_pco E)" backup csum 0] y(1) k c closed h(1)
    by (cases "h < MaxPersHandle") (fastforce simp: s1_def)+
qed


section \<open>Closing\<close>

lemma remove_path_some: "remove_path (Some p) d = d\<lparr>names := (names d)(comps p := None)\<rparr>"
  by (simp add: remove_path_def sys_remove_names)

text \<open>
  C10: closing a writable file makes its contents permanent and ends its protection: the call returns 0,
  the two backup files are gone, what the file holds is on stable storage, the descriptor and the entry
  are gone, and every later write through the number is refused.
\<close>

theorem file_close_commits:
  assumes "smooth C j s" "file_table (gFileHandleTree s) m" "m f = Some e0" "fd_list (gOpenFdList s) xs"
    and "permission e0 \<notin> {-1, perm_ro (e_pco E), perm_last (e_pco E)}" "descs (gDisk s) f = Some e"
  shows "\<exists>s1. pclFileClose E C f s = Some (0, s1) \<and>
    (\<forall>q. content (gDisk s1) q =
       (if comps q \<in> {comps (backupPath e0), comps (csumPath e0)} then None else content (gDisk s) q)) \<and>
    stable (gDisk s1) (d_ino e) = inodes (gDisk s) (d_ino e) \<and> descs (gDisk s1) f = None \<and>
    file_table (gFileHandleTree s1) (m(f := None)) \<and> fd_list (gOpenFdList s1) (remove1 f xs) \<and>
    pclFileWriteData E V C f buf n s1 = Some (EPERS_MAXHANDLE, s1)"
proof -
  define d where "d = (gDisk s)\<lparr>names := (names (gDisk s))(comps (backupPath e0) := None, comps (csumPath e0) := None)\<rparr>"
  have C: "f_tree C = all_ok j" "f_lock C" "gPclInitCounter s > 0" "gLockAccess s \<noteq> 1"
    using assms(1) by (simp_all add: smooth_def)
  obtain t where t: "remove_file_handle_data (all_ok j) (gFileHandleTree s) f = Some (1, t)" "file_table t (m(f := None))"
    using remove_file_table [OF assms(2), of j f] file_table_present [OF assms(2,3)] by auto
  obtain l r where l: "list_item_remove (gOpenFdList s) f = Some (r, l)" "fd_list l (remove1 f xs)"
    using fd_list_remove [OF assms(4)] by blast
  have rm: "remove_path (Some (csumPath e0)) (remove_path (Some (backupPath e0)) (gDisk s)) = d"
    by (simp add: remove_path_some d_def)
  define d2 where "d2 = d\<lparr>stable := (stable d)(d_ino e := inodes d (d_ino e)), descs := (descs d)(f := None)\<rparr>"
  have cl: "sys_close f (sys_fsync f d) = (0, d2)"
    using assms(6) by (simp add: sys_close_def sys_fsync_def d2_def d_def)
  define s1 where "s1 = s\<lparr>gFileHandleTree := t, gOpenFdList := l, gDisk := d2\<rparr>"
  have "pclFileClose E C f s = Some (0, s1)"
    using C assms(5) t(1) l(1) rm cl by (simp add: pclFileClose_def get_file_entry [OF assms(2,3)] s1_def)
  moreover obtain y where "t = Some y"
    using t(1) by (auto simp: remove_file_handle_data_def split: option.splits)
  then have "get_file_permission (e_pco E) (all_ok j) t f = Some (-1)"
    unfolding get_file_permission_def fh_get_table [OF t(2)] by simp
  then have "pclFileWriteData E V C f buf n s1 = Some (EPERS_MAXHANDLE, s1)"
    using C by (simp add: pclFileWriteData_def s1_def isAccessLocked_def)
  moreover have "content (gDisk s1) q =
      (if comps q \<in> {comps (backupPath e0), comps (csumPath e0)} then None else content (gDisk s) q)" for q
    by (simp add: s1_def d2_def d_def content_def)
  ultimately show ?thesis
    using t(2) l(2) by (intro exI [of _ s1]) (simp add: s1_def d2_def d_def)
qed

section \<open>Opening a file without backup files\<close>

lemma open_plain:
  assumes "known_file E C ldb res user seat orig backup csum s w" "smooth C j s"
    and "file_table (gFileHandleTree s) m" "fd_list (gOpenFdList s) xs" "checkable (v_os V) orig backup csum (gDisk s)"
    and "content (gDisk s) orig = Some x" "content (gDisk s) backup = None" "content (gDisk s) csum = None"
    and "os_fd (v_os V) (gDisk s) < MaxPersHandle"
  defines "h \<equiv> os_fd (v_os V) (gDisk s)" and "i \<equiv> the (names (gDisk s) (comps orig))"
  shows "\<exists>p t l e w'. pclFileOpen E V C ldb res user seat s w = Some (h, s\<lparr>prct := p, gDisk := add_fd h (opened O_RDWR i) (gDisk s),
      gFileHandleTree := t, gOpenFdList := l\<rparr>, w') \<and>
    file_table t (m(h \<mapsto> e)) \<and> fd_list l (xs @ [h]) \<and> permission e = perm_rw (e_pco E) \<and> backupCreated e = 0 \<and>
    backupPath e = c_copy (path_len (e_pco E)) backup \<and> csumPath e = c_copy (path_len (e_pco E)) csum \<and>
    cacheStatus e = (case m h of None \<Rightarrow> -1 | Some e \<Rightarrow> cacheStatus e) \<and>
    userId e = (case m h of None \<Rightarrow> 0 | Some e \<Rightarrow> userId e)"
proof -
  obtain y p w' where y: "pclFileOpen E V C ldb res user seat s w =
      map_option (\<lambda>(h, s). (h, s, w')) (open_known E V C res (res_config y) (res_key y) orig backup csum (s\<lparr>prct := p\<rparr>))"
    "cpermission (res_config y) = perm_rw (e_pco E)" "perm_rw (e_pco E) \<noteq> perm_ro (e_pco E)"
    "pclBackupNeeded True (get_raw_string (e_pco E) (f_beyond C) (res_key y)) (gBlacklist s) = Some CREATE_BACKUP"
    using open_known_file [OF assms(1,2)] by blast
  have v: "pclVerifyConsistency (v_os V) True orig backup csum O_RDWR (gDisk s) = Some (0, gDisk s)"
    using verify_exact [OF assms(5), of O_RDWR] assms(7,8) by (auto simp: verdict_of_def)
  have n: "names (gDisk s) (comps orig) = Some i"
    using assms(6) by (auto simp: i_def content_def)
  have o: "sys_open (v_os V) True True False orig (gDisk s) = (Opened h, add_fd h (opened O_RDWR i) (gDisk s))"
    using sys_open_file [OF n] assms(5) by (simp add: checkable_def os_permits_def h_def opened_def)
  have h0: "0 < h"
    using os_fresh(1) assms(5) by (simp add: h_def checkable_def os_permits_def)
  define s1 where "s1 = s\<lparr>prct := p, gDisk := add_fd h (opened O_RDWR i) (gDisk s)\<rparr>"
  have s1: "smooth C j s1" "file_table (gFileHandleTree s1) m" "fd_list (gOpenFdList s1) xs"
    using assms(2-4) by (simp_all add: s1_def smooth_def)
  have k: "open_known E V C res (res_config y) (res_key y) orig backup csum (s\<lparr>prct := p\<rparr>) =
      register_file E C h (perm_rw (e_pco E)) backup csum 0 True s1"
    using y(2-4) assms(2,9) v o h0
    by (simp add: open_known_def open_checked_def open_existing_def on_disk_def smooth_def s1_def h_def [symmetric] Let_def)
  obtain t l e where "register_file E C h (perm_rw (e_pco E)) backup csum 0 True s1 =
      Some (h, s1\<lparr>gFileHandleTree := t, gOpenFdList := l\<rparr>)"
    "file_table t (m(h \<mapsto> e))" "fd_list l (xs @ [h])" "permission e = perm_rw (e_pco E)" "backupCreated e = 0"
    "backupPath e = c_copy (path_len (e_pco E)) backup" "csumPath e = c_copy (path_len (e_pco E)) csum"
    "cacheStatus e = (case m h of None \<Rightarrow> -1 | Some e \<Rightarrow> cacheStatus e)"
    "userId e = (case m h of None \<Rightarrow> 0 | Some e \<Rightarrow> userId e)"
    using register_ok [OF s1] by blast
  then show ?thesis
    using y(1) k
    by (intro exI [of _ p] exI [of _ t] exI [of _ l] exI [of _ e] exI [of _ w']) (simp add: s1_def)
qed


section \<open>Refused and unprotected calls\<close>

text \<open>
  C12: a write is refused with an error of its own and changes nothing when the library is not
  initialised, the access is locked, the descriptor is not one of the library's, or the file is read only.
\<close>

theorem pclFileWriteData_refused:
  assumes "f_lock C" "f_tree C = all_ok j" "gFileHandleTree s \<noteq> None" "file_table (gFileHandleTree s) m"
    and "perm_ro (e_pco E) \<noteq> -1"
  shows "pclFileWriteData E V C f buf n s =
    (if gPclInitCounter s = 0 then Some (EPERS_NOT_INITIALIZED, s)
     else if isAccessLocked s = 1 then Some (EPERS_LOCKFS, s)
     else if m f = None then Some (EPERS_MAXHANDLE, s)
     else if permission (the (m f)) = perm_ro (e_pco E) then Some (EPERS_RESOURCE_READ_ONLY, s)
     else pclFileWriteData E V C f buf n s)"
proof -
  have "get_file_permission (e_pco E) (f_tree C) (gFileHandleTree s) f =
      Some (case m f of None \<Rightarrow> -1 | Some e \<Rightarrow> permission e)"
    unfolding get_file_permission_def assms(2) fh_get_table [OF assms(4)] using assms(3) by (simp only: if_False)
  then show ?thesis
    using assms(1,5) by (auto simp: pclFileWriteData_def word_gt_0)
qed

text \<open>
  Only a file whose entry has the cache flag 1 is synchronised by a write; any other write leaves
  what is on stable storage as it was.  Opening an existing file leaves the flag at -1, and a file
  created on the write-through partition gets 0.
\<close>

lemma file_write_synced:
  assumes "smooth C j s" "fresh_file E V orig f e0 e m s" "0 \<le> n" "n \<le> int (length buf)" "n < 2 ^ 31"
    and "pclFileWriteData E V C f buf n s = Some (r, s1)"
  shows "stable (gDisk s1) = (if cacheStatus e0 = 1
    then (stable (gDisk s))(d_ino e := put_at (d_pos e) (take (nat n) buf) (inodes (gDisk s) (d_ino e)))
    else stable (gDisk s))"
proof -
  have F: "file_table (gFileHandleTree s) m" "m f = Some e0" "permission e0 \<notin> {-1, perm_ro (e_pco E)}"
    "descs (gDisk s) f = Some e" "d_wr e" "names (gDisk s) (comps orig) = Some (d_ino e)"
    "\<And>n. os_written (v_os V) n = int n" "comps orig \<notin> {comps (backupPath e0), comps (csumPath e0)}"
    using assms(2) by (auto simp: fresh_file_def backup_place_def os_permits_def)
  obtain d t where d: "backup_before_write E V C f s = Some (s\<lparr>gDisk := d, gFileHandleTree := t\<rparr>)"
    "file_table t (m(f \<mapsto> e0\<lparr>backupCreated := 1\<rparr>))"
    "rewritten {comps (backupPath e0), comps (csumPath e0)} (gDisk s) d"
    using backup_first [OF assms(1,2)] by blast
  have D: "descs d f = Some e" "stable d = stable (gDisk s)" "inodes d (d_ino e) = inodes (gDisk s) (d_ino e)"
    using d(3) F(4,6,8) by (auto simp: rewritten_def)
  show ?thesis
    using write_after_backup [OF assms(1) F(1-3) d(1), of "m(f \<mapsto> e0\<lparr>backupCreated := 1\<rparr>)" "e0\<lparr>backupCreated := 1\<rparr>" e n buf]
      assms(3-6) d(2) D F(5,7) by (auto simp: sys_fsync_def)
qed

text \<open>
  An open that fails is remembered as an open file.  When a missing file cannot be created, the call
  returns -1 and yet stores an entry with write permission under the number -1, and -1 in the list of
  open files.
\<close>

lemma file_open_failed_registered:
  assumes "known_file E C ldb res user seat orig backup csum s w" "smooth C j s"
    and "file_table (gFileHandleTree s) m" "fd_list (gOpenFdList s) xs" "checkable (v_os V) orig backup csum (gDisk s)"
    and "content (gDisk s) orig = None" "content (gDisk s) backup = None" "content (gDisk s) csum = None"
    and "pclCreateFile (e_pco E) (v_os V) orig (gDisk s) = Some (-1, d)"
  shows "\<exists>s1 w1. pclFileOpen E V C ldb res user seat s w = Some (-1, s1, w1) \<and>
    get_file_permission (e_pco E) (f_tree C) (gFileHandleTree s1) (-1) = Some (perm_rw (e_pco E)) \<and>
    fd_list (gOpenFdList s1) (xs @ [-1])"
proof -
  obtain y p w' where y: "pclFileOpen E V C ldb res user seat s w =
      map_option (\<lambda>(h, s). (h, s, w')) (open_known E V C res (res_config y) (res_key y) orig backup csum (s\<lparr>prct := p\<rparr>))"
    "cpermission (res_config y) = perm_rw (e_pco E)" "perm_rw (e_pco E) \<noteq> perm_ro (e_pco E)"
    "pclBackupNeeded True (get_raw_string (e_pco E) (f_beyond C) (res_key y)) (gBlacklist s) = Some CREATE_BACKUP"
    using open_known_file [OF assms(1,2)] by blast
  have v: "pclVerifyConsistency (v_os V) True orig backup csum O_RDWR (gDisk s) = Some (0, gDisk s)"
    using verify_exact [OF assms(5), of O_RDWR] assms(7,8) by (auto simp: verdict_of_def)
  have o: "sys_open (v_os V) True True False orig (gDisk s) = (NoSuchFile, gDisk s)"
    using assms(5,6) by (simp add: sys_open_def checkable_def content_def)
  define s1 where "s1 = s\<lparr>prct := p, gDisk := d\<rparr>"
  have s1: "smooth C j s1" "file_table (gFileHandleTree s1) m" "fd_list (gOpenFdList s1) xs"
    using assms(2-4) by (simp_all add: s1_def smooth_def)
  have k: "open_known E V C res (res_config y) (res_key y) orig backup csum (s\<lparr>prct := p\<rparr>) =
      register_file E C (-1) (perm_rw (e_pco E)) backup csum 0 True s1"
    using y(2-4) assms(2,9) v o
    by (simp add: open_known_def open_checked_def open_existing_def open_created_def on_disk_def smooth_def s1_def Let_def)
  obtain t l e where r: "register_file E C (-1) (perm_rw (e_pco E)) backup csum 0 True s1 =
      Some (-1, s1\<lparr>gFileHandleTree := t, gOpenFdList := l\<rparr>)"
    "file_table t (m(-1 \<mapsto> e))" "fd_list l (xs @ [-1])" "permission e = perm_rw (e_pco E)"
    using register_ok [OF s1] by blast
  then show ?thesis
    using y(1) k assms(2) get_file_entry(1) [OF r(2), of "-1" e] by (simp add: smooth_def)
qed

section \<open>Paths\<close>

lemma remove_entry_frame:
  assumes "file_table t m" "m h = Some e"
  shows "\<exists>t1 t2. set_ossfile_file_path (all_ok j) t h None = Some t1 \<and>
    remove_ossfile_handle_data (all_ok j) t1 h = Some (1, Some t2) \<and> file_table (Some t2) (m(h := None))"
proof -
  obtain t1 where t1: "set_ossfile_file_path (all_ok j) t h None = Some t1" "file_table t1 (m(h \<mapsto> e\<lparr>filePath := None\<rparr>))"
    using fh_put_present [OF assms, of j _ "\<lambda>f. f\<lparr>filePath := None\<rparr>"]
    unfolding set_ossfile_file_path_def all_ok_simps by fastforce
  obtain t' where t': "remove_file_handle_data (all_ok j) t1 h = Some (1, t')" "file_table t' ((m(h \<mapsto> e\<lparr>filePath := None\<rparr>))(h := None))"
    using remove_file_table [OF t1(2), of j h] file_table_present [OF t1(2), of h] by auto
  moreover obtain t2 where "t' = Some t2"
    using t'(1) by (auto simp: remove_file_handle_data_def split: option.splits)
  ultimately show ?thesis
    using t1(1) by (simp add: remove_ossfile_same)
qed

lemma free_handle_next:
  assumes "0 \<le> gFreeHandleIdxHead hs" "gFreeHandleIdxHead hs < MaxPersHandle - 1" "length (gFreeHandleArray hs) = 512"
  shows "fst (get_persistence_handle_idx True (set_persistence_handle_close_idx True h hs)) = h"
  using assms by (simp add: get_persistence_handle_idx_def set_persistence_handle_close_idx_def)

text \<open>
  C13: releasing the handle of a path returns 1 and forgets it: its two backup files are removed unless it
  was read only, its entry is gone and its number is the next one handed out; releasing it again is
  refused.
\<close>

theorem file_path_released:
  assumes "smooth C j s" "file_table (gOssFileHandleTree s) m" "m h = Some e0" "permission e0 \<noteq> -1"
    and "fd_list (gCPOpenFdList s) xs" "0 \<le> gFreeHandleIdxHead (handle_nums s)"
    and "gFreeHandleIdxHead (handle_nums s) < MaxPersHandle - 1" "length (gFreeHandleArray (handle_nums s)) = 512"
  shows "\<exists>s1. pclFileReleasePath E C h s = Some (1, s1) \<and>
    (\<forall>q. content (gDisk s1) q =
       (if permission e0 \<noteq> perm_ro (e_pco E) \<and> comps q \<in> {comps (backupPath e0), comps (csumPath e0)} then None
        else content (gDisk s) q)) \<and>
    file_table (gOssFileHandleTree s1) (m(h := None)) \<and> fd_list (gCPOpenFdList s1) (remove1 h xs) \<and>
    fst (get_persistence_handle_idx True (handle_nums s1)) = h \<and>
    pclFileReleasePath E C h s1 = Some (EPERS_MAXHANDLE, s1)"
proof -
  have C: "f_tree C = all_ok j" "f_lock C" "gPclInitCounter s > 0" "f_idx_lock C"
    using assms(1) by (simp_all add: smooth_def)
  obtain t1 t2 where t: "set_ossfile_file_path (all_ok j) (gOssFileHandleTree s) h None = Some t1"
    "remove_ossfile_handle_data (all_ok j) t1 h = Some (1, Some t2)" "file_table (Some t2) (m(h := None))"
    using remove_entry_frame [OF assms(2,3)] by blast
  obtain l r where l: "list_item_remove (gCPOpenFdList s) h = Some (r, l)" "fd_list l (remove1 h xs)"
    using fd_list_remove [OF assms(5)] by blast
  have g: "get_ossfile_permission (e_pco E) (all_ok j) (gOssFileHandleTree s) h = Some (permission e0)"
    "get_ossfile_backup_path (all_ok j) (gOssFileHandleTree s) h = Some (Some (backupPath e0))"
    "get_ossfile_checksum_path (all_ok j) (gOssFileHandleTree s) h = Some (Some (csumPath e0))"
    using fh_get_present [OF assms(2) file_table_present [OF assms(2,3)] assms(3)] by (simp_all add: file_getters)
  define d where "d = (if permission e0 \<noteq> perm_ro (e_pco E)
    then remove_path (Some (csumPath e0)) (remove_path (Some (backupPath e0)) (gDisk s)) else gDisk s)"
  define s1 where "s1 = s\<lparr>gDisk := d, handle_nums := set_persistence_handle_close_idx True h (handle_nums s),
    gOssFileHandleTree := Some t2, gCPOpenFdList := l\<rparr>"
  have "pclFileReleasePath E C h s = Some (1, s1)"
    using C assms(4) t(1,2) l(1) g by (simp add: pclFileReleasePath_def s1_def d_def)
  moreover have "get_ossfile_permission (e_pco E) (all_ok j) (Some t2) h = Some (-1)"
    unfolding get_ossfile_permission_def fh_get_table [OF t(3)] by simp
  then have "pclFileReleasePath E C h s1 = Some (EPERS_MAXHANDLE, s1)"
    using C by (simp add: pclFileReleasePath_def s1_def)
  moreover have "content d q = (if permission e0 \<noteq> perm_ro (e_pco E) \<and> comps q \<in> {comps (backupPath e0), comps (csumPath e0)}
      then None else content (gDisk s) q)" for q
    by (simp add: d_def remove_path_some content_def)
  ultimately show ?thesis
    using t(3) l(2) free_handle_next [OF assms(6-8), of h] by (intro exI [of _ s1]) (simp add: s1_def)
qed

lemma raw_loop_word:
  "CHR ''/'' \<notin> set t \<Longrightarrow> raw_loop (length t + n) cnt (t @ u) = raw_loop n cnt u"
  by (induction t) auto

lemma raw_loop_skip:
  assumes "CHR ''/'' \<notin> set t" "length t < n"
  shows "raw_loop n cnt (CHR ''/'' # t @ u) = (if cnt = 4 then Some (CHR ''/'' # t @ u) else raw_loop (n - 1 - length t) (cnt + 1) u)"
proof -
  obtain k where "n = Suc (length t + k)"
    using assms(2) less_imp_Suc_add by blast
  then show ?thesis
    using raw_loop_word [OF assms(1)] by simp
qed

lemma raw_loop_join:
  "\<forall>t \<in> set ts. CHR ''/'' \<notin> set t \<Longrightarrow> cnt + length ts = 4 \<Longrightarrow> length (join_path ts) < n \<Longrightarrow>
     raw_loop n cnt (join_path ts @ CHR ''/'' # u) = Some (CHR ''/'' # u)"
proof (induction ts arbitrary: n cnt)
  case Nil
  then show ?case
    by (cases n) (simp_all add: join_path_def)
next
  case (Cons t ts)
  have e: "join_path (t # ts) @ CHR ''/'' # u = CHR ''/'' # t @ (join_path ts @ CHR ''/'' # u)"
    by (simp add: join_path_def)
  have "length (join_path ts) < n - 1 - length t" "length t < n"
    using Cons.prems(3) by (simp_all add: join_path_def)
  then show ?case
    using Cons.prems(1,2) Cons.IH [of "cnt + 1" "n - 1 - length t"] unfolding e by (simp add: raw_loop_skip)
qed

text \<open>
  The list of files without backup is asked for different names by the two ways to a file.  For a
  file of a user and a seat, opening it asks for the resource, while creating its path asks for the
  rest of the path from the user number on.
\<close>

lemma blacklist_names_differ:
  assumes "CHR ''/'' \<notin> set dir" "CHR ''/'' \<notin> set app"
    and "length dir + length app + length (fmt_u user) + length (fmt_u seat) + length res + 30 \<le> key_name_len P"
    and "N = \<lparr>org_root = ''/'' @ dir, gNode = ''/Node'', gUser = ''/User/'', gSeat = ''/Seat/'', gResTableCfg = t,
              gLocalWt = a, gLocalCached = b, gLocalConfigurableDefault = c, gLocalFactoryDefault = g\<rparr>"
    and "key = gUser N @ fmt_u user @ gSeat N @ fmt_u seat @ ''/'' @ res"
  shows "get_raw_string P beyond key = ''/'' @ res \<and>
    get_raw_string P beyond' (getLocalCachePathKey N app key) = ''/'' @ fmt_u user @ ''/Seat/'' @ fmt_u seat @ ''/'' @ res"
proof -
  have "key = join_path [''User'', fmt_u user, ''Seat'', fmt_u seat] @ CHR ''/'' # res"
    by (simp add: assms(4,5) join_path_def)
  then have "raw_loop (key_name_len P) 0 key = Some (CHR ''/'' # res)"
    using assms(3) by (simp only:) (intro raw_loop_join, auto simp: join_path_def)
  moreover have "getLocalCachePathKey N app key = join_path [dir, ''mnt-c'', app, ''User''] @
      CHR ''/'' # fmt_u user @ ''/Seat/'' @ fmt_u seat @ ''/'' @ res"
    by (simp add: assms(4,5) join_path_def getLocalCachePathKey_def CACHEPREFIX_def)
  moreover have "raw_loop (key_name_len P) 0 (join_path [dir, ''mnt-c'', app, ''User''] @ CHR ''/'' # u) = Some (CHR ''/'' # u)" for u
    using assms(1-3) by (intro raw_loop_join) (auto simp: join_path_def)
  ultimately show ?thesis
    by (simp add: get_raw_string_def)
qed

section \<open>Concrete runs\<close>

definition orig_1 :: string where "orig_1 = ''/Data/mnt-wt/app/User/1/file''"
definition backup_1 :: string where "backup_1 = ''/Data/mnt-backup/app/User/1/file~''"
definition csum_1 :: string where "csum_1 = ''/Data/mnt-backup/app/User/1/file~.crc''"

lemma comps_1 [simp]:
  "comps orig_1 = [''Data'', ''mnt-wt'', ''app'', ''User'', ''1'', ''file'']"
  "comps backup_1 = [''Data'', ''mnt-backup'', ''app'', ''User'', ''1'', ''file~'']"
  "comps csum_1 = [''Data'', ''mnt-backup'', ''app'', ''User'', ''1'', ''file~.crc'']"
  by (simp_all add: orig_1_def backup_1_def csum_1_def comps_def tokens_def)

definition disk_1 :: "8 word list option \<Rightarrow> 8 word list option \<Rightarrow> 8 word list option \<Rightarrow> (int \<rightharpoonup> desc) \<Rightarrow> disk" where
  "disk_1 x b c fds =
     \<lparr>names = Map.empty(comps orig_1 := map_option (\<lambda>b. 0) x, comps backup_1 := map_option (\<lambda>b. 1) b,
                       comps csum_1 := map_option (\<lambda>b. 2) c),
      inodes = (\<lambda>i. [])(0 := the x, 1 := the b, 2 := the c), descs = fds,
      dirs = {[], [''Data'']}, dir_fds = {}, next_ino = 3, stable = (\<lambda>i. [])\<rparr>"

lemma content_1 [simp]:
  "content (disk_1 x b c fds) orig_1 = x" "content (disk_1 x b c fds) backup_1 = b" "content (disk_1 x b c fds) csum_1 = c"
  by (cases x; cases b; cases c; simp add: content_def disk_1_def)+

lemma checkable_1 [simp]:
  "(case b of None \<Rightarrow> True | Some y \<Rightarrow> length y < 2 ^ 31) \<Longrightarrow>
     checkable free_os orig_1 backup_1 csum_1 (disk_1 x b c Map.empty)"
  unfolding checkable_def
  by (cases x; cases b; cases c)
    (auto simp: disk_1_def disk_ok_def fds_fin_def inj_on_def content_def ran_def split: if_splits)

definition fenv_1 :: file_env where
  "fenv_1 = \<lparr>v_os = free_os, v_config_folder = ''/config'', v_default_folder = ''/default'', v_user_folder = ''/user/'',
     v_seat_folder = ''/seat/'', v_mmap = (\<lambda>_ _ _ _ _. 0), v_munmap = (\<lambda>_ _. 0)\<rparr>"

definition fcall_1 :: file_call where
  "fcall_1 = \<lparr>f_lock = True, f_tree = all_ok undefined, f_mem = True, f_list_ok = True, f_idx_lock = True,
     f_config = config_1, f_beyond = []\<rparr>"

definition file_1 :: "file_tree \<Rightarrow> pers_list \<Rightarrow> disk \<Rightarrow> mem file_state" where
  "file_1 t l d = \<lparr>pipe = [], gLockAccess = 0, prct = prct_init, gHandlesDB = (\<lambda>_ _. 0),
     gHandlesDBCreated = (\<lambda>_ _. 0), loader = loader_1\<lparr>plugin_rct := rct_2\<rparr>, gNotificationTree = None,
     notify_stale = False, gChangeNotifyCallback = None, gPclInitCounter = 1, handle_nums = handle_idx_init,
     gKeyHandleTree = None, gFileHandleTree = t, gOssFileHandleTree = None, gOpenFdList = l,
     gCPOpenFdList = empty_list, gBlacklist = blacklist_init, gDisk = d\<rparr>"

lemma smooth_1 [simp]: "smooth fcall_1 undefined (file_1 t l d)"
  by (simp add: smooth_def fcall_1_def file_1_def)

lemma file_1_simps [simp]:
  "gFileHandleTree (file_1 t l d) = t" "gOpenFdList (file_1 t l d) = l" "gDisk (file_1 t l d) = d" "v_os fenv_1 = free_os"
  by (simp_all add: file_1_def fenv_1_def)

lemma known_file_1: "known_file env_1 fcall_1 0xFF ''file'' 1 0 orig_1 backup_1 csum_1 (file_1 t l d) w"
proof -
  have g: "get_table_id 0xFF = (PersistenceRCT_local, 0)"
    by (simp add: get_table_id_def)
  have tb: "get_resource_cfg_table P N app rct_2 PersistenceRCT_local 0 prct_init w = (3, prct_1, w)" for P N app
    using get_table_0 by (simp add: key_0_def loader_1_def)
  have n: "names_of (file_1 t l d) = names_1" "rct_of (file_1 t l d) = rct_2" "prct (file_1 t l d) = prct_init"
    by (simp_all add: file_1_def loader_1_def loader_0_def)
  have c1: "char_of (49 :: nat) = CHR ''1''"
    by code_simp
  define info where "info = \<lparr>dbctx = \<lparr>ctx_ldbid = 0xFF, ctx_user = 1, ctx_seat = 0\<rparr>, configKey = config_1\<lparr>ctype := 1\<rparr>\<rparr>"
  have m: "make_db_names pco_1 names_1 ''app'' info ''file'' =
      Some \<lparr>res_rval = 0, res_info = info, res_key = ''/User/1/file'', res_path = orig_1\<rparr>"
    by (simp add: make_db_names_def get_db_path_and_key_def make_db_path_def print_path_def make_db_key_def info_def
        config_1_def pco_1_def names_1_def getLocalWtPathKey_def WTPREFIX_def orig_1_def c_copy_def fmt_u_def show_base_small digit_char_def c1)
  have "file_context env_1 fcall_1 0xFF ''file'' 1 0 (file_1 t l d) w = Some
      (\<lparr>res_rval = 0, res_info = info, res_key = ''/User/1/file'', res_path = orig_1\<rparr>, (file_1 t l d)\<lparr>prct := prct_1\<rparr>, w)"
  proof -
    have v: "cfg_size pco_1 = 144" "cstorage config_1 \<noteq> storage_custom pco_1" "e_app env_1 = ''app''" "f_config fcall_1 = config_1"
      by (simp_all add: pco_1_def config_1_def env_1_def fcall_1_def)
    have rd: "rct_read rct_2 = Some (\<lambda>h k w. (if k = ''none'' then -1 else 144,
        if k = ''file'' then config_1\<lparr>ctype := 1\<rparr> else if k = ''fixed'' then config_1\<lparr>cpermission := 1\<rparr> else config_1, w))"
      by (simp add: rct_2_def)
    have i: "\<lparr>dbctx = \<lparr>ctx_ldbid = 0xFF, ctx_user = 1, ctx_seat = 0\<rparr>, configKey = config_1\<lparr>ctype := 1\<rparr>\<rparr> = info"
      by (simp add: info_def)
    show ?thesis
      by (simp add: file_context_def get_db_context_def n g tb rd v i m)
  qed
  moreover have "backup_names pco_1 names_1 1 orig_1 = (backup_1, csum_1)"
    by (simp add: backup_names_def pco_1_def names_1_def orig_1_def backup_1_def csum_1_def WTPREFIX_def gBackupPrefix_def c_copy_def)
  moreover have "pclBackupNeeded True u (gBlacklist (file_1 t l d)) = Some CREATE_BACKUP" for u
    using key_hash_Some [of u] by (auto simp: pclBackupNeeded_def need_backup_key_def file_1_def blacklist_init_def)
  ultimately show ?thesis
    using pco_1_ok n(1) by (simp add: known_file_def env_1_def info_def config_1_def pco_1_def)
qed

definition entry_1 :: file_handle where
  "entry_1 = \<lparr>permission = 0, backupCreated = 0, cacheStatus = -1, userId = 0, backupPath = backup_1, csumPath = csum_1,
     filePath = None\<rparr>"

definition open_disk :: disk where
  "open_disk = disk_1 (Some [1, 2]) None None (Map.empty(5 \<mapsto> opened O_RDWR 0))"

lemma some_table: "\<exists>t. file_table t (Map.empty(f \<mapsto> e)) \<and> t \<noteq> None"
  using fh_put_table [of None Map.empty undefined f e id] by auto

lemma open_disk_simps [simp]:
  "descs open_disk 5 = Some (opened O_RDWR 0)" "content open_disk orig_1 = Some [1, 2]" "inodes open_disk 0 = [1, 2]"
  by (simp_all add: open_disk_def) (simp_all add: disk_1_def)

lemma place_1: "backup_place pco_1 free_os orig_1 backup_1 csum_1 open_disk"
proof -
  have d: "descs open_disk = Map.empty(5 \<mapsto> opened O_RDWR 0)" "dir_fds open_disk = {}" "dirs open_disk = {[], [''Data'']}"
    "names open_disk = Map.empty(comps orig_1 \<mapsto> 0, comps backup_1 := None, comps csum_1 := None)" "next_ino open_disk = 3"
    by (simp_all add: open_disk_def disk_1_def)
  have k: "names open_disk (take k (comps backup_1)) = None" if "k < 6" for k
  proof -
    have "take k (comps backup_1) \<noteq> comps orig_1"
      using that by (cases k) (auto simp: take_Cons split: nat.splits)
    then show ?thesis
      by (simp only: d(4) fun_upd_apply) auto
  qed
  have "creatable pco_1 backup_1 open_disk"
    using k by (simp add: creatable_def d(3) join_path_def pco_1_def) (simp add: backup_1_def)
  moreover have "disk_ok open_disk" "fds_fin open_disk"
    by (auto simp: disk_ok_def fds_fin_def d opened_def inj_on_def ran_def split: if_splits)
  moreover have "names open_disk (comps backup_1) = None"
    by (simp only: d(4) fun_upd_apply) simp
  ultimately show ?thesis
    by (simp add: backup_place_def d(3))
qed

lemma fresh_1:
  "file_table t (Map.empty(5 \<mapsto> entry_1)) \<Longrightarrow>
     fresh_file env_1 fenv_1 orig_1 5 entry_1 (opened O_RDWR 0) (Map.empty(5 \<mapsto> entry_1)) (file_1 t l open_disk)"
  using place_1
  by (simp add: fresh_file_def entry_1_def env_1_def opened_def) (simp add: pco_1_def open_disk_def disk_1_def)

theorem file_first_write_witness:
  "\<exists>(s :: mem file_state) s1. gDisk s = open_disk \<and> pclFileWriteData env_1 fenv_1 fcall_1 5 [7, 8, 9] 3 s = Some (3, s1) \<and>
     content (gDisk s1) orig_1 = Some [7, 8, 9] \<and> content (gDisk s1) backup_1 = Some [1, 2]"
proof -
  obtain t where t: "file_table t (Map.empty(5 \<mapsto> entry_1))"
    using some_table by blast
  have r: "put_at 0 (take (nat 3) [7, 8, 9]) [1, 2] = ([7, 8, 9] :: 8 word list)"
    by (simp add: put_at_def eval_nat_numeral)
  obtain s1 where "pclFileWriteData env_1 fenv_1 fcall_1 5 [7, 8, 9] 3 (file_1 t empty_list open_disk) = Some (3, s1)"
    "content (gDisk s1) orig_1 = Some [7, 8, 9]" "content (gDisk s1) backup_1 = Some [1, 2]"
    using file_first_write [OF smooth_1 fresh_1 [OF t], of 3 "[7, 8, 9]" empty_list] r
    by (auto simp: opened_def entry_1_def)
  then show ?thesis
    by (intro exI [of _ "file_1 t empty_list open_disk"] exI [of _ s1]) simp
qed


theorem file_close_commits_witness:
  "\<exists>(s :: mem file_state) s1. gDisk s = disk_1 (Some [7]) (Some [1, 2]) (Some (bytes_of (csum_text [1, 2]))) (Map.empty(5 \<mapsto> opened O_RDWR 0)) \<and>
     pclFileClose env_1 fcall_1 5 s = Some (0, s1) \<and> content (gDisk s1) orig_1 = Some [7] \<and> content (gDisk s1) backup_1 = None"
proof -
  define d where "d = disk_1 (Some [7]) (Some [1, 2]) (Some (bytes_of (csum_text [1, 2]))) (Map.empty(5 \<mapsto> opened O_RDWR 0))"
  obtain t where t: "file_table t (Map.empty(5 \<mapsto> entry_1))"
    using some_table by blast
  have d: "descs d 5 = Some (opened O_RDWR 0)" "content d orig_1 = Some [7]"
    by (simp_all add: d_def) (simp add: disk_1_def)
  obtain s1 where "pclFileClose env_1 fcall_1 5 (file_1 t empty_list d) = Some (0, s1)"
    "content (gDisk s1) orig_1 = Some [7]" "content (gDisk s1) backup_1 = None"
    using file_close_commits [where E = env_1 and V = fenv_1 and buf = "[]" and n = 0, OF smooth_1 [of t empty_list d], of "Map.empty(5 \<mapsto> entry_1)" 5 entry_1 "[]" "opened O_RDWR 0"]
      t d by (auto simp: entry_1_def env_1_def pco_1_def)
  then show ?thesis
    unfolding d_def [symmetric] by (intro exI [of _ "file_1 t empty_list d"] exI [of _ s1]) simp
qed


theorem pclFileWriteData_refused_witness:
  "\<exists>s :: mem file_state. gFileHandleTree s \<noteq> None \<and> pclFileWriteData env_1 fenv_1 fcall_1 6 [1] 1 s = Some (EPERS_MAXHANDLE, s)"
proof -
  obtain t where t: "file_table t (Map.empty(5 \<mapsto> entry_1))" "t \<noteq> None"
    using some_table by blast
  have "pclFileWriteData env_1 fenv_1 fcall_1 6 [1] 1 (file_1 t empty_list open_disk) = Some (EPERS_MAXHANDLE, file_1 t empty_list open_disk)"
    using pclFileWriteData_refused [of fcall_1 undefined "file_1 t empty_list open_disk" "Map.empty(5 \<mapsto> entry_1)" env_1 fenv_1 6 "[1]" 1] t
    by (simp add: fcall_1_def env_1_def pco_1_def) (simp add: file_1_def isAccessLocked_def)
  then show ?thesis
    using t(2) by (intro exI [of _ "file_1 t empty_list open_disk"]) simp
qed

lemma file_write_synced_witness:
  "\<exists>(s :: mem file_state) s1. gDisk s = open_disk \<and> pclFileWriteData env_1 fenv_1 fcall_1 5 [7] 1 s = Some (1, s1) \<and>
     content (gDisk s1) orig_1 = Some [7, 2] \<and> stable (gDisk s1) 0 = []"
proof -
  obtain t where t: "file_table t (Map.empty(5 \<mapsto> entry_1))"
    using some_table by blast
  define s where "s = file_1 t empty_list open_disk"
  have a: "smooth fcall_1 undefined s" "fresh_file env_1 fenv_1 orig_1 5 entry_1 (opened O_RDWR 0) (Map.empty(5 \<mapsto> entry_1)) s"
    using fresh_1 [OF t] by (simp_all add: s_def)
  obtain s1 where s1: "pclFileWriteData env_1 fenv_1 fcall_1 5 [7] 1 s = Some (1, s1)" "content (gDisk s1) orig_1 = Some [7, 2]"
    using first_write_result [OF a, of 1 "[7]"] by (auto simp: entry_1_def s_def opened_def put_at_def)
  have "stable (gDisk s1) = stable (gDisk s)"
    using file_write_synced [OF a _ _ _ s1(1)] by (simp add: entry_1_def)
  then have "stable (gDisk s1) 0 = []" "gDisk s = open_disk"
    by (simp_all add: s_def open_disk_def disk_1_def)
  then show ?thesis
    using s1 by blast
qed

definition no_folders :: file_env where
  "no_folders = fenv_1\<lparr>v_os := free_os\<lparr>os_may_create := \<lambda>p. p \<in> {comps orig_1, comps backup_1, comps csum_1}\<rparr>\<rparr>"

lemma file_open_failed_registered_witness:
  "\<exists>s1 w1. pclFileOpen env_1 no_folders fcall_1 0xFF ''file'' 1 0 (file_1 None empty_list (disk_1 None None None Map.empty)) mem_2 =
       Some (-1, s1, w1) \<and> fd_list (gOpenFdList s1) [-1]"
proof -
  define d where "d = disk_1 None None None Map.empty"
  define s where "s = file_1 None empty_list d"
  have "checkable (v_os fenv_1) orig_1 backup_1 csum_1 d"
    by (simp add: d_def)
  then have c: "checkable (v_os no_folders) orig_1 backup_1 csum_1 d"
    using free_os_permits [of "{}"] by (auto simp: checkable_def no_folders_def os_permits_def os_ok_def free_os_def)
  have dd: "dirs d = {[], [''Data'']}" "names d = Map.empty"
    by (auto simp: d_def disk_1_def)
  have mk: "sys_mkdir (v_os no_folders) p d = d" if "length (comps p) < 6" for p
    using that by (auto simp: sys_mkdir_def no_folders_def)
  have f: "fold (\<lambda>k. sys_mkdir (v_os no_folders) (join_path (take k (comps orig_1)))) ks d = d" if "set ks \<subseteq> {..<6}" for ks
    using that by (induction ks) (auto simp: mk simp del: comps_1)
  have "comps (join_path (comps orig_1)) = comps orig_1" "length (join_path (comps orig_1)) < 512"
    using comps_join_take [of 6 orig_1] by (simp, simp add: join_path_def)
  moreover have "CHR 0x0A \<notin> set orig_1" "length orig_1 < 512"
    by (simp_all add: orig_1_def)
  ultimately have "pclCreateFile pco_1 (v_os no_folders) orig_1 d = Some (-1, d)"
    using f [of "[2..<6]"]
    by (auto simp: pclCreateFile_def tokens_comps pco_1_def sys_create_def dd Let_def simp del: upt_conv_Cons)
  then show ?thesis
    using file_open_failed_registered [of env_1 fcall_1 "0xFF" "''file''" 1 0 orig_1 backup_1 csum_1 s mem_2 undefined Map.empty "[]" no_folders d]
      c known_file_1 by (auto simp: s_def env_1_def d_def)
qed

theorem file_path_released_witness:
  "\<exists>(s :: mem file_state) s1. gOssFileHandleTree s \<noteq> None \<and> pclFileReleasePath env_1 fcall_1 1 s = Some (1, s1) \<and>
     content (gDisk s) backup_1 = Some [3] \<and> content (gDisk s1) backup_1 = None \<and>
     fst (get_persistence_handle_idx True (handle_nums s1)) = 1"
proof -
  obtain t where t: "file_table t (Map.empty(1 \<mapsto> entry_1))" "t \<noteq> None"
    using some_table by blast
  define s where "s = (file_1 None empty_list (disk_1 (Some [7]) (Some [3]) None Map.empty))\<lparr>gOssFileHandleTree := t\<rparr>"
  have a: "smooth fcall_1 undefined s" "file_table (gOssFileHandleTree s) (Map.empty(1 \<mapsto> entry_1))"
    "fd_list (gCPOpenFdList s) []" "0 \<le> gFreeHandleIdxHead (handle_nums s)"
    "gFreeHandleIdxHead (handle_nums s) < MaxPersHandle - 1" "length (gFreeHandleArray (handle_nums s)) = 512"
    "content (gDisk s) backup_1 = Some [3]" "gOssFileHandleTree s \<noteq> None"
    using t by (simp_all add: s_def smooth_def fcall_1_def) (simp_all add: file_1_def handle_idx_init_def)
  have "entry_1\<lparr>permission := 0\<rparr> = entry_1" "permission entry_1 \<noteq> perm_ro (e_pco env_1)" "permission entry_1 \<noteq> -1"
    "backupPath entry_1 = backup_1"
    by (simp_all add: entry_1_def env_1_def pco_1_def)
  then have "\<exists>s1. pclFileReleasePath env_1 fcall_1 1 s = Some (1, s1) \<and> content (gDisk s1) backup_1 = None \<and>
      fst (get_persistence_handle_idx True (handle_nums s1)) = 1"
    using file_path_released [OF a(1,2) _ _ a(3-6), of 1 entry_1 env_1] by auto
  then show ?thesis
    using a(7,8) by blast
qed

lemma blacklist_names_differ_witness:
  "get_raw_string pco_1 [] ''/User/1/Seat/2/res'' = ''/res'' \<and>
     get_raw_string pco_1 [] ''/Data/mnt-c/app/User/1/Seat/2/res'' = ''/1/Seat/2/res''"
proof -
  have f: "fmt_u 1 = ''1''" "fmt_u 2 = ''2''"
    by code_simp+
  show ?thesis
    using blacklist_names_differ [of "''Data''" "''app''" 1 2 "''res''" pco_1 names_1 "gResTableCfg names_1" "gLocalWt names_1"
        "gLocalCached names_1" "gLocalConfigurableDefault names_1" "gLocalFactoryDefault names_1" "''/User/1/Seat/2/res''" "[]" "[]"]
    by (simp add: f pco_1_def names_1_def getLocalCachePathKey_def CACHEPREFIX_def)
qed

end
