(* ===== verification/Lifecycle_Laws.thy ===== *)
theory Lifecycle_Laws
  imports Lifecycle File_Laws
begin

text \<open>
  What the library's life guarantees: what a shutdown closes and writes back, a full shutdown with open
  files, a shutdown that is cancelled, and the first initialisation.
\<close>

section \<open>What a shutdown closes\<close>

lemma rct_close_loop_all:
  assumes "rct_close (rct_of s) = Some cl" "set l \<subseteq> {0..<PrctDbTableSize}"
  shows "loader (fst (rct_close_loop l s w)) = loader s \<and>
    gResource_table (prct (fst (rct_close_loop l s w))) i =
      (if i \<in> set l then -1 else gResource_table (prct s) i)"
  using assms
proof (induction l arbitrary: s w)
  case Nil
  then show ?case
    by simp
next
  case (Cons a l)
  have a: "0 \<le> a" "a < PrctDbTableSize"
    using Cons.prems(2) by auto
  show ?case
  proof (cases "gResource_table (prct s) a = -1")
    case True
    then have "rct_close_loop (a # l) s w = rct_close_loop l s w"
      using a by (simp add: get_resource_cfg_table_by_idx_def)
    then show ?thesis
      using Cons.IH [of s w] Cons.prems True by auto
  next
    case False
    obtain r w' where c: "cl (gResource_table (prct s) a) w = (r, w')"
      by (cases "cl (gResource_table (prct s) a) w")
    define s1 where "s1 = s\<lparr>prct := invalidate_resource_cfg_table a (prct s)\<rparr>"
    have "rct_close_loop (a # l) s w = rct_close_loop l s1 w'"
      using a False c Cons.prems(1) by (simp add: get_resource_cfg_table_by_idx_def s1_def)
    moreover have "rct_close (rct_of s1) = Some cl" "loader s1 = loader s"
      "gResource_table (prct s1) i = (if i = a then -1 else gResource_table (prct s) i)"
      using Cons.prems(1) a by (simp_all add: s1_def invalidate_resource_cfg_table_def)
    ultimately show ?thesis
      using Cons.IH [of s1 w'] Cons.prems(2) by auto
  qed
qed

text \<open>Closing the tables and databases leaves the rest of the state.\<close>

definition same_rest :: "('w, 'x) lib_state_scheme \<Rightarrow> ('w, 'x) lib_state_scheme \<Rightarrow> bool" where
  "same_rest s t \<longleftrightarrow>
     loader t = loader s \<and> pipe t = pipe s \<and> gLockAccess t = gLockAccess s \<and>
     gNotificationTree t = gNotificationTree s \<and> notify_stale t = notify_stale s \<and> gChangeNotifyCallback t = gChangeNotifyCallback s \<and>
     gPclInitCounter t = gPclInitCounter s \<and> handle_nums t = handle_nums s \<and> gKeyHandleTree t = gKeyHandleTree s \<and>
     gFileHandleTree t = gFileHandleTree s \<and> gOssFileHandleTree t = gOssFileHandleTree s \<and> gOpenFdList t = gOpenFdList s \<and>
     gCPOpenFdList t = gCPOpenFdList s \<and> bus t = bus s \<and> gShutdownMode t = gShutdownMode s \<and>
     gCancelCounter t = gCancelCounter s \<and> gDbusMainloopRunning t = gDbusMainloopRunning s \<and> gIsNodeStateManager t = gIsNodeStateManager s \<and>
     gSyncFd t = gSyncFd s \<and> gAppId t = gAppId s \<and> gBlacklist t = gBlacklist s \<and> gDisk t = gDisk s \<and> gSems t = gSems s"

lemma same_rest_refl [simp]: "same_rest s s"
  by (simp add: same_rest_def)

lemma rct_close_loop_rest: "same_rest s (fst (rct_close_loop l s w))"
proof (induction l arbitrary: s w)
  case (Cons a l)
  have "same_rest (s\<lparr>prct := p\<rparr>) t \<Longrightarrow> same_rest s t" for p t
    by (simp add: same_rest_def)
  with Cons show ?case
    by (auto split: option.splits prod.splits)
qed simp

lemma close_loop_rest: "same_rest s (fst (close_loop l s w))"
proof (induction l arbitrary: s w)
  case (Cons a l)
  obtain i j where a: "a = (i, j)"
    by (cases a)
  have "same_rest (s\<lparr>gHandlesDBCreated := p\<rparr>) t \<Longrightarrow> same_rest s t" for p t
    by (simp add: same_rest_def)
  with Cons show ?case
    by (auto simp: a split: option.splits prod.splits)
qed simp

lemma same_rest_trans: "same_rest s t \<Longrightarrow> same_rest t u \<Longrightarrow> same_rest s u"
  by (simp add: same_rest_def)

lemma sync_files:
  assumes "fd_list (gOpenFdList s) xs"
  shows "flush_files E C 0 (s, w) = Some (s\<lparr>gDisk := fold sys_fsync xs (gDisk s)\<rparr>, w)"
proof -
  obtain ps where ps: "chain (cells (gOpenFdList s)) (head (gOpenFdList s)) ps 0" "xs = map snd ps"
    using assms by (auto simp: fd_list_def fd_list_at_def)
  have "fold (\<lambda>f r. Option.bind r (sync_one f)) ys (Some (s\<lparr>gDisk := d\<rparr>, w)) = Some (s\<lparr>gDisk := fold sys_fsync ys d\<rparr>, w)" for ys d
    by (induction ys arbitrary: d) (simp_all add: sync_one_def)
  from this [of xs "gDisk s"]
  have "fold (\<lambda>f r. Option.bind r (sync_one f)) xs (Some (s, w)) = Some (s\<lparr>gDisk := fold sys_fsync xs (gDisk s)\<rparr>, w)"
    by simp
  moreover have "list_iterate open_cells sync_one (s, w) (head (gOpenFdList s)) =
      fold (\<lambda>f r. Option.bind r (sync_one f)) (map snd ps) (Some (s, w))"
    using ps(1) by (intro list_iterate_keep) (auto simp: open_cells_def sync_one_def)
  ultimately show ?thesis
    by (simp add: flush_files_def ps(2))
qed

lemma fsync_frame [simp]:
  "inodes (sys_fsync f d) = inodes d" "descs (sys_fsync f d) = descs d" "names (sys_fsync f d) = names d"
  by (simp_all add: sys_fsync_def split: option.splits)

lemma fsync_all:
  "inodes (fold sys_fsync xs d) = inodes d" "descs (fold sys_fsync xs d) = descs d"
  "(\<exists>f \<in> set xs. descs d f = Some e) \<or> stable d (d_ino e) = inodes d (d_ino e) \<Longrightarrow>
     stable (fold sys_fsync xs d) (d_ino e) = inodes d (d_ino e)"
proof (induction xs arbitrary: d)
  case (Cons x xs)
  {
    case 3
    have "descs d x = Some e \<or> stable d (d_ino e) = inodes d (d_ino e) \<Longrightarrow>
        stable (sys_fsync x d) (d_ino e) = inodes d (d_ino e)"
      by (auto simp: sys_fsync_def split: option.splits)
    with 3 show ?case
      using Cons.IH(3) [of "sys_fsync x d"] by auto
  }
qed (use Cons in simp_all)

lemma partial_shutdown:
  assumes "fd_list (gOpenFdList s) xs"
  defines "s0 \<equiv> (pers_lock_access s)\<lparr>gDisk := fold sys_fsync xs (gDisk s)\<rparr>"
  shows "\<exists>s2 w'. process_prepare_shutdown E C hl 0 (s, w) =
      Some (if gIsNodeStateManager s2 = 0 then s2\<lparr>gDisk := sys_syncfs (gSyncFd s2) (gDisk s2)\<rparr> else s2, w') \<and>
    same_rest s0 s2 \<and>
    s2 = fst (database_close_all E (fst (pers_rct_close_all s0 w)) (snd (pers_rct_close_all s0 w)))"
proof -
  have "fd_list (gOpenFdList (pers_lock_access s)) xs"
    using assms by (simp add: pers_lock_access_def)
  then have f: "flush_files E C 0 (pers_lock_access s, w) = Some (s0, w)"
    by (simp add: sync_files s0_def) (simp add: pers_lock_access_def)
  obtain s1 w1 where r: "pers_rct_close_all s0 w = (s1, w1)"
    by (cases "pers_rct_close_all s0 w")
  obtain s2 w2 where d: "database_close_all E s1 w1 = (s2, w2)"
    by (cases "database_close_all E s1 w1")
  have "same_rest s0 s1" "same_rest s1 s2"
    using rct_close_loop_rest [of s0] close_loop_rest [of s1] r d
    by (metis fst_conv pers_rct_close_all_def, metis fst_conv database_close_all_def)
  then have "same_rest s0 s2"
    by (rule same_rest_trans)
  moreover have "process_prepare_shutdown E C hl 0 (s, w) =
      Some (if gIsNodeStateManager s2 = 0 then s2\<lparr>gDisk := sys_syncfs (gSyncFd s2) (gDisk s2)\<rparr> else s2, w2)"
    using f r d by (simp add: process_prepare_shutdown_def Let_def)
  ultimately show ?thesis
    using r d by (intro exI [of _ s2] exI [of _ w2]) simp
qed

text \<open>
  C19: a partial shutdown writes the open files back and keeps them open: it returns, with the data
  access locked, what every open file holds on stable storage, every configuration table and every
  database closed, and the file list, the trees of handles and the handle numbers as they were, for
  plugins whose close functions do not fail.
\<close>

theorem partial_shutdown_closes:
  assumes "fd_list (gOpenFdList s) xs"
    and "rct_close (rct_of s) = Some rc" "db_close (db_of s) = Some dc" "\<And>h w. 0 \<le> fst (dc h w)"
    and "\<And>i j. gHandlesDBCreated s i j \<in> {0, 1}"
  shows "\<exists>s' w'. process_prepare_shutdown E C hl 0 (s, w) = Some (s', w') \<and> isAccessLocked s' = 1 \<and>
    (\<forall>f \<in> set xs. \<forall>e. descs (gDisk s) f = Some e \<longrightarrow> stable (gDisk s') (d_ino e) = inodes (gDisk s) (d_ino e)) \<and>
    gOpenFdList s' = gOpenFdList s \<and> gFileHandleTree s' = gFileHandleTree s \<and>
    gKeyHandleTree s' = gKeyHandleTree s \<and> handle_nums s' = handle_nums s \<and>
    (\<forall>i \<in> {0..<PrctDbTableSize}. get_resource_cfg_table_by_idx (prct s') i = -1) \<and>
    (\<forall>i \<in> {0..<DbTableSize}. \<forall>t \<in> {0..<PersistenceDB_LastEntry (e_pco E)}. gHandlesDBCreated s' i t = 0)"
proof -
  define s0 where "s0 = (pers_lock_access s)\<lparr>gDisk := fold sys_fsync xs (gDisk s)\<rparr>"
  obtain s1 w1 where r: "pers_rct_close_all s0 w = (s1, w1)"
    by (cases "pers_rct_close_all s0 w")
  obtain s2 w' where p: "process_prepare_shutdown E C hl 0 (s, w) =
      Some (if gIsNodeStateManager s2 = 0 then s2\<lparr>gDisk := sys_syncfs (gSyncFd s2) (gDisk s2)\<rparr> else s2, w')"
    "same_rest s0 s2" "s2 = fst (database_close_all E s1 w1)"
    using partial_shutdown [OF assms(1), of E C hl w] r unfolding s0_def by auto
  define s' where "s' = (if gIsNodeStateManager s2 = 0 then s2\<lparr>gDisk := sys_syncfs (gSyncFd s2) (gDisk s2)\<rparr> else s2)"
  have l0: "loader s0 = loader s" "gHandlesDBCreated s0 = gHandlesDBCreated s"
    by (simp_all add: s0_def pers_lock_access_def)
  have e: "s1 = fst (rct_close_loop [0..PrctDbTableSize - 1] s0 w)"
    using r by (simp add: pers_rct_close_all_def)
  have "rct_close (rct_of s0) = Some rc" "set [0..PrctDbTableSize - 1] \<subseteq> {0..<PrctDbTableSize}"
    using assms(2) l0 by auto
  note R = rct_close_loop_all [OF this, of w, folded e]
  have l1: "loader s1 = loader s" "\<And>i. i \<in> {0..<PrctDbTableSize} \<Longrightarrow> gResource_table (prct s1) i = -1"
    using R l0 by simp_all
  have "db_close (db_of s1) = Some dc"
    using assms(3) l1(1) by simp
  note D = close_loop_all [OF this assms(4), of "db_cells (e_pco E)" w1, folded database_close_all_def, folded p(3)]
  have "prct s' = prct s1"
  proof -
    have "prct (fst (close_loop l t v)) = prct t" for l and t :: "('a, 'b) lib_state_scheme" and v
      by (induction l t v rule: close_loop.induct) (auto split: option.splits prod.splits)
    then show ?thesis
      by (simp add: s'_def p(3) database_close_all_def)
  qed
  moreover have c1: "gHandlesDBCreated s1 = gHandlesDBCreated s"
  proof -
    have "gHandlesDBCreated (fst (rct_close_loop l t v)) = gHandlesDBCreated t"
      for l and t :: "('a, 'b) lib_state_scheme" and v
      by (induction l t v rule: rct_close_loop.induct) (auto split: option.splits prod.splits)
    then show ?thesis
      using l0(2) by (simp add: e)
  qed
  moreover have "gHandlesDBCreated s' i t = 0"
    if "i \<in> {0..<DbTableSize}" "t \<in> {0..<PersistenceDB_LastEntry (e_pco E)}" for i t
  proof -
    have "(i, t) \<in> set (db_cells (e_pco E))"
      using that by (auto simp: db_cells_def)
    then have "gHandlesDBCreated s2 i t = 0"
      using D [of i t] assms(5) [of i t] c1 by auto
    then show ?thesis
      by (simp add: s'_def)
  qed
  moreover have "isAccessLocked s' = 1" "gOpenFdList s' = gOpenFdList s" "gFileHandleTree s' = gFileHandleTree s"
    "gKeyHandleTree s' = gKeyHandleTree s" "handle_nums s' = handle_nums s"
    using p(2) by (simp_all add: s'_def same_rest_def s0_def isAccessLocked_def pers_lock_access_def)
  moreover have "stable (gDisk s') (d_ino e) = inodes (gDisk s) (d_ino e)" if "f \<in> set xs" "descs (gDisk s) f = Some e" for f e
  proof -
    have g: "gDisk s2 = fold sys_fsync xs (gDisk s)"
      using p(2) by (simp add: same_rest_def s0_def)
    have "stable (fold sys_fsync xs (gDisk s)) (d_ino e) = inodes (gDisk s) (d_ino e)"
      using that fsync_all(3) [of xs "gDisk s" e] by blast
    then show ?thesis
      using fsync_all(1) [of xs "gDisk s"] by (simp add: s'_def sys_syncfs_def g)
  qed
  ultimately show ?thesis
    using p(1) l1(2) unfolding s'_def [symmetric]
    by (intro exI [of _ s'] exI [of _ w']) (auto simp: get_resource_cfg_table_by_idx_def)
qed

section \<open>A full shutdown with open files\<close>

lemma close_one_frees:
  assumes "fd_list_at (gOpenFdList s) ((a, f) # rs)" "gPclInitCounter s > 0" "f_lock C" "f_tree C = all_ok j"
    and "file_table (gFileHandleTree s) m" "m f = Some h" "permission h \<noteq> -1"
    and "close_one E C f (s, w) = Some (s', w')"
  shows "cells (gOpenFdList s') a = None"
proof -
  obtain l' where l': "list_item_remove (gOpenFdList s) f = Some (1, l')" "cells l' (head (gOpenFdList s)) = None"
    using remove_head [OF assms(1)] by blast
  have "head (gOpenFdList s) = a"
    using assms(1) by (simp add: fd_list_at_def)
  moreover have "gFileHandleTree s \<noteq> None"
    using assms(5,6) by (auto simp: file_table_def split: option.splits)
  then have "get_file_permission (e_pco E) (f_tree C) (gFileHandleTree s) f = Some (permission h)"
    using fh_get_present [OF assms(5) _ assms(6)] assms(4) by (simp add: get_file_permission_def)
  ultimately show ?thesis
    using assms(2,3,7,8) l'
    by (auto simp: close_one_def pclFileClose_def Let_def case_prod_beta split: if_splits)
qed

text \<open>
  C20: a full shutdown with a file open is a use after free: the loop over the open files calls
  \<^verbatim>\<open>pclFileClose\<close>, which takes the file's cell out of the list and frees it, and then reads the next
  cell from the freed one; every shutdown the lifecycle requests from outside is a full one.
\<close>

theorem full_shutdown_open_file:
  assumes "fd_list (gOpenFdList s) (f # xs)" "gPclInitCounter s > 0" "f_lock C" "f_tree C = all_ok j"
    and "file_table (gFileHandleTree s) m" "m f = Some h" "permission h \<noteq> -1"
    and "l_env L = E" "l_call L = C" "requestID \<noteq> 0"
  shows "process_prepare_shutdown E C hl 1 (s, w) = None \<and>
    dispatchInternalCommand L (msg2 CMD_LC_PREPARE_SHUTDOWN 1 requestID) (s, w) = None"
proof -
  define s0 where "s0 = pers_lock_access s"
  obtain a rs where ps: "fd_list_at (gOpenFdList s0) ((a, f) # rs)"
    using assms(1) by (auto simp: fd_list_def map_eq_Cons_conv s0_def pers_lock_access_def)
  then obtain n where n: "head (gOpenFdList s0) = a" "a \<noteq> 0" "cells (gOpenFdList s0) a = Some \<lparr>fd = f, nxt = n\<rparr>"
    by (auto simp: fd_list_at_def)
  have s0: "gPclInitCounter s0 > 0" "file_table (gFileHandleTree s0) m"
    using assms(2,5) by (simp_all add: s0_def pers_lock_access_def)
  have "list_iterate open_cells (close_one E C) (s0, w) a = None"
  proof (rule list_iterate_freed)
    show "a \<noteq> 0" "open_cells (s0, w) a = Some \<lparr>fd = f, nxt = n\<rparr>"
      using n by (simp_all add: open_cells_def)
    show "open_cells r a = None" if "close_one E C (fd \<lparr>fd = f, nxt = n\<rparr>) (s0, w) = Some r" for r
      using close_one_frees [OF ps s0(1) assms(3,4) s0(2) assms(6,7), of E w "fst r" "snd r"] that
      by (simp add: open_cells_def case_prod_beta)
  qed
  then have "process_prepare_shutdown E C hl 1 (s, w) = None" for hl
    by (simp add: process_prepare_shutdown_def flush_files_def s0_def [symmetric] n(1) Let_def)
  then show ?thesis
    using assms(8-10) by (simp add: dispatchInternalCommand_def msg2_def Let_def)
qed

section \<open>Shutdown and cancel\<close>

lemma partial_shutdown_message:
  assumes "fd_list (gOpenFdList s) xs" "pipe s = [msg2 CMD_LC_PREPARE_SHUTDOWN 0 0]"
  shows "\<exists>s' w'. main_loop L (s, w) = Some (True, (s', w')) \<and> gLockAccess s' = 1 \<and>
    gShutdownMode s' = gShutdownMode s \<and> gCancelCounter s' = gCancelCounter s"
proof -
  have "fd_list (gOpenFdList (s\<lparr>pipe := []\<rparr>)) xs"
    using assms(1) by simp
  from partial_shutdown [OF this, of "l_env L" "l_call L" "l_hlock L" w]
  obtain s' w' d where "process_prepare_shutdown (l_env L) (l_call L) (l_hlock L) 0 (s\<lparr>pipe := []\<rparr>, w) =
      Some (if gIsNodeStateManager s' = 0 then s'\<lparr>gDisk := sys_syncfs (gSyncFd s') (gDisk s')\<rparr> else s', w')"
    "same_rest ((pers_lock_access (s\<lparr>pipe := []\<rparr>))\<lparr>gDisk := d\<rparr>) s'"
    by blast
  then show ?thesis
    using assms(2)
    by (auto simp: main_loop_def read_command_def dispatchInternalCommand_def msg2_def same_rest_def pers_lock_access_def Let_def)
qed

text \<open>
  C21: a cancelled shutdown releases the data access only if the main loop has run in between.  A
  shutdown is a message that the loop works off later, a cancel is done at once: when the cancel comes
  first, both calls report success, and the loop then locks the access and leaves it locked.
\<close>

theorem lifecycle_cancel_overtakes:
  assumes "gShutdownMode s = PCL_SHUTDOWN_TYPE_NONE" "gCancelCounter s < 2" "pipe s = []" "wr []"
    and "fd_list (gOpenFdList s) xs"
    and "pclLifecycleSet wr PCL_SHUTDOWN s = (r1, s1)" "pclLifecycleSet wr PCL_SHUTDOWN_CANCEL s1 = (r2, s2)"
  shows "r1 = 0 \<and> r2 = 0 \<and>
    (\<exists>s3 w3. main_loop L (s2, w) = Some (True, (s3, w3)) \<and> isAccessLocked s3 = 1) \<and>
    (\<exists>t w4. main_loop L (s1, w) = Some (True, (t, w4)) \<and> isAccessLocked t = 1 \<and>
       isAccessLocked (snd (pclLifecycleSet wr PCL_SHUTDOWN_CANCEL t)) = 0)"
proof -
  have s1: "s1 = s\<lparr>pipe := [msg2 CMD_LC_PREPARE_SHUTDOWN 0 0], gCancelCounter := gCancelCounter s + 1\<rparr>" "r1 = 0"
    using assms(1,3,4,6) by (auto simp: pclLifecycleSet_def deliverToMainloop_NM_def)
  have s2: "s2 = s1\<lparr>gLockAccess := gLockAccess s1 - 1\<rparr>" "r2 = 0"
    using assms(1,2,7) by (auto simp: pclLifecycleSet_def s1 pers_unlock_access_def)
  have "fd_list (gOpenFdList s1) xs" "pipe s1 = [msg2 CMD_LC_PREPARE_SHUTDOWN 0 0]"
    "fd_list (gOpenFdList s2) xs" "pipe s2 = [msg2 CMD_LC_PREPARE_SHUTDOWN 0 0]"
    using assms(5) by (simp_all add: s1 s2)
  note M1 = partial_shutdown_message [OF this(1,2), of L w] and M2 = partial_shutdown_message [OF this(3,4), of L w]
  obtain t w4 where t: "main_loop L (s1, w) = Some (True, (t, w4))" "gLockAccess t = 1"
    "gShutdownMode t = gShutdownMode s1" "gCancelCounter t = gCancelCounter s1"
    using M1 by blast
  have "gLockAccess (snd (pclLifecycleSet wr PCL_SHUTDOWN_CANCEL t)) = 0"
    using t(2-4) assms(1,2) by (simp add: pclLifecycleSet_def s1 pers_unlock_access_def)
  then show ?thesis
    using t(1,2) M2 s1(2) s2(2) by (auto simp: isAccessLocked_def)
qed

section \<open>Initialisation\<close>

lemma load_plugins_pipe:
  "register_lifecycle wr mode s = (r, s') \<Longrightarrow>
     s' = (if wr (pipe s) then s\<lparr>pipe := pipe s @ [msg2 CMD_SEND_LC_REGISTER 1 mode]\<rparr> else s)"
  by (auto simp: register_lifecycle_def deliverToMainloop_def deliverToMainloop_NM_def split: if_splits)

lemma register_lifecycle_state:
  "wr (pipe s) \<Longrightarrow> snd (register_lifecycle wr m s) = s\<lparr>pipe := pipe s @ [msg2 CMD_SEND_LC_REGISTER 1 m]\<rparr>"
  by (simp add: register_lifecycle_def deliverToMainloop_def deliverToMainloop_NM_def)

text \<open>The state in which the plugins are loaded, and what initialisation leaves of it.\<close>

lemma open_sync_folder_keeps:
  "pipe (open_sync_folder E V name s) = pipe s" "gPclInitCounter (open_sync_folder E V name s) = gPclInitCounter s"
  "gKeyHandleTree (open_sync_folder E V name s) = gKeyHandleTree s"
  "gLockAccess (open_sync_folder E V name s) = gLockAccess s"
  by (simp_all add: open_sync_folder_def case_prod_beta Let_def)

lemma read_blacklist_keeps:
  assumes "read_blacklist E V I name s = Some s'"
  shows "pipe s' = pipe s" "gPclInitCounter s' = gPclInitCounter s" "gKeyHandleTree s' = gKeyHandleTree s"
    "gLockAccess s' = gLockAccess s"
  using assms by (auto simp: read_blacklist_def Let_def)

lemma private_init_result:
  assumes "private_pclInitLibrary E V I name mode (s, w) = Some (r, (s', w'))"
    and "i_tree I = all_ok j" "key_table (gKeyHandleTree s) m" "e_wr E (pipe s)"
  shows "gPclInitCounter s' = gPclInitCounter s \<and>
    (0 \<le> r \<longrightarrow> gKeyHandleTree s' = Some key_tree_new \<and> gLockAccess s' = gLockAccess s - 1 \<and>
      pipe s' = pipe s @ (if mode = PCL_SHUTDOWN_TYPE_NONE then []
                          else [msg2 CMD_SEND_LC_REGISTER 1 (word_of_int mode)]))"
proof (cases "gDbusMainloopRunning s = 0 \<and> i_loop I = -1")
  case True
  then show ?thesis
    using assms(1) by (auto simp: private_pclInitLibrary_def Let_def)
next
  case False
  define s1 where "s1 = open_sync_folder E V name
    (s\<lparr>gShutdownMode := mode, gDbusMainloopRunning := 1, gAppId := c_copy (resp_len (e_pco E)) name\<rparr>)"
  have p1: "pipe s1 = pipe s" "gPclInitCounter s1 = gPclInitCounter s" "gKeyHandleTree s1 = gKeyHandleTree s"
    "gLockAccess s1 = gLockAccess s"
    by (simp_all add: s1_def open_sync_folder_keeps)
  obtain s2 where s2: "read_blacklist E V I name s1 = Some s2"
    using assms(1) False by (auto simp: private_pclInitLibrary_def Let_def s1_def split: bind_splits)
  note p2 = read_blacklist_keeps [OF s2]
  define s3 where "s3 = (if mode \<noteq> PCL_SHUTDOWN_TYPE_NONE
                then s2\<lparr>pipe := pipe s2 @ [msg2 CMD_SEND_LC_REGISTER 1 (word_of_int mode)]\<rparr> else s2)"
  have k: "init_key_handle_array (i_tree I) (gKeyHandleTree s) = Some (Some key_tree_new)"
    using init_key_table [OF assms(3)] assms(2) by simp
  have p: "gPclInitCounter s3 = gPclInitCounter s" "gKeyHandleTree s3 = gKeyHandleTree s" "gLockAccess s3 = gLockAccess s"
    "pipe s3 = pipe s @ (if mode = PCL_SHUTDOWN_TYPE_NONE then [] else [msg2 CMD_SEND_LC_REGISTER 1 (word_of_int mode)])"
    using p1 p2 by (simp_all add: s3_def)
  have reg: "snd (register_lifecycle (e_wr E) (word_of_int mode) s2) =
      s2\<lparr>pipe := pipe s2 @ [msg2 CMD_SEND_LC_REGISTER 1 (word_of_int mode)]\<rparr>"
    using assms(4) p1(1) p2(1) by (simp add: register_lifecycle_state)
  have "private_pclInitLibrary E V I name mode (s, w) =
    (case load_custom_plugins (i_namelen I) (i_conf I) (e_dl E) (loader s3) w of
            None \<Rightarrow> None
          | Some (rval, l, w) \<Rightarrow>
              if rval < 0 then Some (rval, (s3\<lparr>loader := l\<rparr>, w))
              else do { t \<leftarrow> init_key_handle_array (i_tree I) (gKeyHandleTree s);
                        Some (rval, (pers_unlock_access (s3\<lparr>loader := l, gKeyHandleTree := t\<rparr>), w)) })"
    using reg s2 p(2) unfolding private_pclInitLibrary_def s1_def s3_def
    by (cases "mode = PCL_SHUTDOWN_TYPE_NONE")
      (simp_all add: Let_def False case_prod_beta cong: option.case_cong if_cong split: option.split)
  then show ?thesis
    using assms(1) k p by (auto simp: pers_unlock_access_def split: option.splits if_splits)
qed

text \<open>
  The first initialisation either succeeds, and then the library counts one user, its key handles
  are empty, data access is not locked, and a shutdown mode other than none has queued one
  registration at the lifecycle; or it returns an error and the library stays uninitialised, so that
  every access is refused and the next call tries again.
\<close>

lemma pclInitLibrary_first:
  assumes "i_lock I" "gPclInitCounter s = 0" "0 < length name" "length name < 256" "gLockAccess s \<le> 1"
    and "i_tree I = all_ok j" "key_table (gKeyHandleTree s) m" "e_wr E (pipe s)"
    and "pclInitLibrary E V I (Some name) mode (s, w) = Some (r, (s', w'))"
  shows "(0 \<le> r \<longrightarrow> gPclInitCounter s' = 1 \<and> gKeyHandleTree s' = Some key_tree_new \<and> isAccessLocked s' \<noteq> 1 \<and>
      pipe s' = pipe s @ (if mode = PCL_SHUTDOWN_TYPE_NONE then []
                          else [msg2 CMD_SEND_LC_REGISTER 1 (word_of_int mode)])) \<and>
    (r < 0 \<longrightarrow> gPclInitCounter s' = 0 \<and> pclKeyReadData E K ldb rid user seat buf n s' v = Some (EPERS_NOT_INITIALIZED, buf, s', v))"
proof -
  define s0 where "s0 = checkLocalArtefacts (i_mem I) name s"
  have s0: "gPclInitCounter s0 = 0" "gLockAccess s0 = gLockAccess s" "pipe s0 = pipe s" "key_table (gKeyHandleTree s0) m"
    using assms(2,7) by (simp_all add: s0_def checkLocalArtefacts_def)
  obtain s1 where "private_pclInitLibrary E V I name mode (s0, w) = Some (r, (s1, w'))"
    "s' = (if 0 \<le> r then s1\<lparr>gPclInitCounter := gPclInitCounter s1 + 1\<rparr> else s1)"
    using assms(1-4,9) by (auto simp: pclInitLibrary_def s0_def)
  with private_init_result [OF this(1) assms(6) s0(4)] show ?thesis
    using assms(5,8) s0(1-3) by (auto simp: isAccessLocked_def pclKeyReadData_def)
qed

section \<open>Concrete runs\<close>

text \<open>A library with the table of open files \<open>t\<close>, their list \<open>l\<close> and \<open>n\<close> users; its tables can be closed.\<close>

definition lib_1 :: "file_tree \<Rightarrow> pers_list \<Rightarrow> 32 word \<Rightarrow> mem lib_state" where
  "lib_1 t l n = \<lparr>pipe = [], gLockAccess = 0, prct = prct_init, gHandlesDB = (\<lambda>_ _. 0),
     gHandlesDBCreated = (\<lambda>i t. if i = 3 \<and> t = 0 then 1 else 0),
     loader = loader_1\<lparr>plugin_rct := rct_2\<lparr>rct_close := Some (\<lambda>h w. (0, w))\<rparr>\<rparr>, gNotificationTree = None,
     notify_stale = False, gChangeNotifyCallback = None, gPclInitCounter = n, handle_nums = handle_idx_init,
     gKeyHandleTree = None, gFileHandleTree = t, gOssFileHandleTree = None, gOpenFdList = l,
     gCPOpenFdList = empty_list, gBlacklist = blacklist_init, gDisk = open_disk, bus = bus_0,
     gShutdownMode = 0, gCancelCounter = 0, gDbusMainloopRunning = 1, gIsNodeStateManager = 0, gSyncFd = 9,
     gAppId = ''app'', gSems = {}, gMainLoopCondValue = 0\<rparr>"

definition loop_1 :: "mem loop_env" where
  "loop_1 = \<lparr>l_env = env_1, l_call = fcall_1, l_hlock = True,
     l_bus = \<lparr>b_conn = True, b_name = Some '':1.5'', b_message = True, b_append = True, b_send = True\<rparr>\<rparr>"

definition init_1 :: "conf_file \<Rightarrow> init_env" where
  "init_1 c = \<lparr>i_lock = True, i_loop = 0, i_conf = c, i_namelen = 64, i_tree = all_ok undefined, i_mem = True, i_map = False\<rparr>"

lemma no_blacklist: "\<exists>s'. read_blacklist E V (init_1 c) name s = Some s'"
  by (auto simp: read_blacklist_def readBlacklistConfigFile_def mapped_file_def init_1_def Let_def
      split: option.split conf_file.split)

lemma one_open: "\<exists>l. fd_list l [f]"
  using fd_list_insert [of empty_list "[]" f] by (auto simp: fd_list_empty)

lemma lib_1_simps [simp]:
  "gOpenFdList (lib_1 t l n) = l" "gFileHandleTree (lib_1 t l n) = t" "gDisk (lib_1 t l n) = open_disk"
  "pipe (lib_1 t l n) = []" "gShutdownMode (lib_1 t l n) = 0" "gCancelCounter (lib_1 t l n) = 0"
  "gPclInitCounter (lib_1 t l n) = n" "gLockAccess (lib_1 t l n) = 0" "gKeyHandleTree (lib_1 t l n) = None"
  by (simp_all add: lib_1_def)

theorem partial_shutdown_closes_witness:
  "\<exists>(s :: mem lib_state) s' w'. gHandlesDBCreated s 3 0 = 1 \<and> process_prepare_shutdown env_1 fcall_1 True 0 (s, mem_2) = Some (s', w') \<and>
     isAccessLocked s' = 1 \<and> stable (gDisk s') 0 = [1, 2] \<and> gHandlesDBCreated s' 3 0 = 0"
proof -
  obtain l where l: "fd_list l [5]"
    using one_open by blast
  define s where "s = lib_1 None l 1"
  have a: "rct_close (rct_of s) = Some (\<lambda>h w. (0, w))" "db_close (db_of s) = Some (\<lambda>h w. (0, w))"
    "gHandlesDBCreated s i j \<in> {0, 1}" "gHandlesDBCreated s 3 0 = 1" for i j
    by (simp_all add: s_def lib_1_def loader_1_def mem_db_def)
  have o: "fd_list (gOpenFdList s) [5]" "descs (gDisk s) 5 = Some (opened O_RDWR 0)" "inodes (gDisk s) 0 = [1, 2]"
    using l by (simp_all add: s_def)
  have e: "d_ino (opened O_RDWR 0) = 0" "PersistenceDB_LastEntry (e_pco env_1) = 5"
    by (simp_all add: opened_def env_1_def pco_1_def)
  obtain s' w' where r: "process_prepare_shutdown env_1 fcall_1 True 0 (s, mem_2) = Some (s', w')" "isAccessLocked s' = 1"
    "\<forall>f \<in> set [5]. \<forall>e. descs (gDisk s) f = Some e \<longrightarrow> stable (gDisk s') (d_ino e) = inodes (gDisk s) (d_ino e)"
    "\<forall>i \<in> {0..<DbTableSize}. \<forall>t \<in> {0..<PersistenceDB_LastEntry (e_pco env_1)}. gHandlesDBCreated s' i t = 0"
    using partial_shutdown_closes [OF o(1) a(1,2) _ a(3), of env_1 fcall_1 True mem_2] by auto
  then have "stable (gDisk s') 0 = [1, 2]" "gHandlesDBCreated s' 3 0 = 0"
    using o(2,3) e by auto
  then show ?thesis
    using r(1,2) a(4) by blast
qed

theorem full_shutdown_open_file_witness:
  "\<exists>(s :: mem lib_state). fd_list (gOpenFdList s) [5] \<and> process_prepare_shutdown env_1 fcall_1 True 1 (s, mem_2) = None \<and>
     dispatchInternalCommand loop_1 (msg2 CMD_LC_PREPARE_SHUTDOWN 1 7) (s, mem_2) = None"
proof -
  obtain l t where l: "fd_list l [5]" and t: "file_table t (Map.empty(5 \<mapsto> entry_1))"
    using one_open some_table by blast
  have "fd_list (gOpenFdList (lib_1 t l 1)) [5]" "gPclInitCounter (lib_1 t l 1) > 0" "f_lock fcall_1" "f_tree fcall_1 = all_ok undefined"
    "file_table (gFileHandleTree (lib_1 t l 1)) (Map.empty(5 \<mapsto> entry_1))" "(Map.empty(5 \<mapsto> entry_1)) 5 = Some entry_1"
    "permission entry_1 \<noteq> -1" "l_env loop_1 = env_1" "l_call loop_1 = fcall_1" "(7 :: 32 word) \<noteq> 0"
    using l t by (simp_all add: fcall_1_def entry_1_def loop_1_def)
  from full_shutdown_open_file [OF this, of True mem_2] show ?thesis
    using l by (intro exI [of _ "lib_1 t l 1"]) simp
qed

theorem lifecycle_cancel_overtakes_witness:
  "\<exists>(s1 :: mem lib_state) s2 s3 w3. pclLifecycleSet (\<lambda>_. True) PCL_SHUTDOWN (lib_1 None empty_list 1) = (0, s1) \<and>
     pclLifecycleSet (\<lambda>_. True) PCL_SHUTDOWN_CANCEL s1 = (0, s2) \<and>
     main_loop loop_1 (s2, mem_2) = Some (True, (s3, w3)) \<and> isAccessLocked s3 = 1"
proof -
  define s :: "mem lib_state" where "s = lib_1 None empty_list 1"
  obtain r1 s1 where 1: "pclLifecycleSet (\<lambda>_. True) PCL_SHUTDOWN s = (r1, s1)"
    by (cases "pclLifecycleSet (\<lambda>_. True) PCL_SHUTDOWN s")
  obtain r2 s2 where 2: "pclLifecycleSet (\<lambda>_. True) PCL_SHUTDOWN_CANCEL s1 = (r2, s2)"
    by (cases "pclLifecycleSet (\<lambda>_. True) PCL_SHUTDOWN_CANCEL s1")
  have "gShutdownMode s = PCL_SHUTDOWN_TYPE_NONE" "gCancelCounter s < 2" "pipe s = []" "True" "fd_list (gOpenFdList s) []"
    by (simp_all add: s_def fd_list_empty)
  from lifecycle_cancel_overtakes [OF this 1 2, of loop_1 mem_2] show ?thesis
    using 1 2 unfolding s_def by blast
qed

lemma pclInitLibrary_first_witness:
  "\<exists>r (s' :: mem lib_state) w'. r < 0 \<and> gPclInitCounter s' = 0 \<and>
     pclInitLibrary env_1 fenv_1 (init_1 NoStat) (Some ''app'') 0 (lib_1 None empty_list 0, mem_2) = Some (r, (s', w')) \<and>
     pclKeyReadData env_1 call_0 0xFF ''k'' 1 0 [] 0 s' mem_2 = Some (EPERS_NOT_INITIALIZED, [], s', mem_2)"
proof -
  define s :: "mem lib_state" where "s = lib_1 None empty_list 0"
  have a: "i_lock (init_1 NoStat)" "gPclInitCounter s = 0" "0 < length ''app''" "length ''app'' < 256" "gLockAccess s \<le> 1"
    "i_tree (init_1 NoStat) = all_ok undefined" "key_table (gKeyHandleTree s) Map.empty" "e_wr env_1 (pipe s)"
    by (simp_all add: init_1_def s_def key_table_def env_1_def)
  obtain s' w' where i: "pclInitLibrary env_1 fenv_1 (init_1 NoStat) (Some ''app'') 0 (s, mem_2) = Some (EPERS_COMMON, (s', w'))"
  proof -
    obtain s2 where "read_blacklist env_1 fenv_1 (init_1 NoStat) ''app''
        (open_sync_folder env_1 fenv_1 ''app''
          ((checkLocalArtefacts True ''app'' s)\<lparr>gShutdownMode := 0, gDbusMainloopRunning := 1, gAppId := c_copy (resp_len pco_1) ''app''\<rparr>)) =
        Some s2"
      using no_blacklist by blast
    moreover have "i_conf (init_1 NoStat) = NoStat" "i_mem (init_1 NoStat)" "i_loop (init_1 NoStat) \<noteq> -1" "e_pco env_1 = pco_1"
      by (simp_all add: init_1_def env_1_def)
    ultimately show thesis
      using that a(1-4) by (simp add: pclInitLibrary_def private_pclInitLibrary_def load_custom_plugins_def get_custom_libraries_def Let_def)
  qed
  from pclInitLibrary_first [OF a i, where K = call_0 and ldb = "0xFF" and rid = "''k''" and user = 1 and seat = 0 and buf = "[]" and n = 0 and v = mem_2] show ?thesis
    using i unfolding s_def by (intro exI [of _ EPERS_COMMON] exI [of _ s'] exI [of _ w']) simp
qed

end
