(* ===== verification/Poll_Array.thy ===== *)
theory Poll_Array
  imports Pcl_Prelude "HOL-Library.Signed_Division"
begin

text \<open>
  The array of descriptors that the main loop polls and the callbacks through which libdbus changes it
  (\<^verbatim>\<open>addWatch\<close>, \<^verbatim>\<open>removeWatch\<close>, \<^verbatim>\<open>watchToggled\<close>, \<^verbatim>\<open>addTimeout\<close>, \<^verbatim>\<open>removeTimeout\<close> and
  \<^verbatim>\<open>timeoutToggled\<close> of \<^verbatim>\<open>persistence_client_library_dbus_service.c\<close>).  The array has ten
  places; the first one is the pipe.  A watch or a timeout is its address and what libdbus answers about
  it; the union of the two pointers of an entry is one address.
\<close>

section \<open>The array\<close>

datatype tDBusObjectType = OT_NONE | OT_WATCH | OT_TIMEOUT

record tObjectEntry =
  objtype :: tDBusObjectType
  obj :: nat

record pollfd =
  pfd :: int
  p_in :: bool
  p_out :: bool

text \<open>The armed timers, in seconds and nanoseconds, belong to the operating system.\<close>

record tPollInfo =
  nfds :: nat
  fds :: "pollfd list"
  objects :: "tObjectEntry list"
  timers :: "int \<rightharpoonup> int \<times> int"

abbreviation (input) ARRAY_SIZE_fds :: nat where "ARRAY_SIZE_fds \<equiv> 10"

record dbus_watch =
  w_addr :: nat
  w_fd :: int
  w_readable :: bool
  w_writable :: bool
  w_enabled :: bool

record dbus_timeout =
  t_addr :: nat
  t_interval :: int
  t_enabled :: bool

text \<open>What \<^verbatim>\<open>setup_dbus_mainloop\<close> leaves: everything zero but the reading end of the pipe.\<close>

definition poll_setup :: "int \<Rightarrow> tPollInfo" where
  "poll_setup pipe_fd =
     \<lparr>nfds = 1, fds = (replicate ARRAY_SIZE_fds \<lparr>pfd = 0, p_in = False, p_out = False\<rparr>)[0 := \<lparr>pfd = pipe_fd, p_in = True, p_out = False\<rparr>],
      objects = replicate ARRAY_SIZE_fds \<lparr>objtype = OT_NONE, obj = 0\<rparr>, timers = Map.empty\<rparr>"

section \<open>Watches\<close>

definition addWatch :: "dbus_watch \<Rightarrow> tPollInfo \<Rightarrow> bool \<times> tPollInfo" where
  "addWatch W s =
     (let n = nfds s in
      if ARRAY_SIZE_fds > n then
        let s = s\<lparr>objects := (objects s)[n := \<lparr>objtype = OT_WATCH, obj = w_addr W\<rparr>],
                  fds := (fds s)[n := (fds s ! n)\<lparr>pfd := w_fd W\<rparr>]\<rparr>
        in (True,
            if w_enabled W then
              s\<lparr>fds := (fds s)[n := (fds s ! n)\<lparr>p_in := p_in (fds s ! n) \<or> w_readable W,
                                                 p_out := p_out (fds s ! n) \<or> w_writable W\<rparr>],
                nfds := n + 1\<rparr>
            else s)
      else (False, s))"

text \<open>Removing a watch frees the data attached to it, and leaves the array as it is.\<close>

definition removeWatch :: "dbus_watch \<Rightarrow> tPollInfo \<Rightarrow> tPollInfo" where
  "removeWatch W s = s"

definition watchToggled :: "dbus_watch \<Rightarrow> tPollInfo \<Rightarrow> tPollInfo" where
  "watchToggled W s = (if w_enabled W then snd (addWatch W s) else removeWatch W s)"

section \<open>Timeouts\<close>

text \<open>The value a timer is set to for an interval in milliseconds: seconds and nanoseconds.\<close>

definition timer_value :: "int \<Rightarrow> int \<times> int" where
  "timer_value interval = (interval sdiv 1000, interval smod 1000)"

text \<open>\<open>tfd\<close> is the descriptor that \<^verbatim>\<open>timerfd_create\<close> gives, \<open>set_ok\<close> whether it could be armed.\<close>

definition addTimeout :: "int \<Rightarrow> bool \<Rightarrow> dbus_timeout \<Rightarrow> tPollInfo \<Rightarrow> bool \<times> tPollInfo" where
  "addTimeout tfd set_ok T s =
     (let n = nfds s in
      if ARRAY_SIZE_fds > n then
        if 0 < t_interval T \<and> t_enabled T then
          if tfd \<noteq> -1 then
            if set_ok then
              (True, s\<lparr>objects := (objects s)[n := \<lparr>objtype = OT_TIMEOUT, obj = t_addr T\<rparr>],
                       fds := (fds s)[n := (fds s ! n)\<lparr>pfd := tfd, p_in := True\<rparr>],
                       nfds := n + 1,
                       timers := (timers s)(tfd \<mapsto> timer_value (t_interval T))\<rparr>)
            else (False, s)
          else (False, s)
        else (False, s)
      else (False, s))"

text \<open>The last entry below \<open>n\<close> with that address, \<open>-1\<close> when there is none.\<close>

fun find_entry :: "nat \<Rightarrow> tObjectEntry list \<Rightarrow> nat \<Rightarrow> int" where
  "find_entry a es 0 = -1"
| "find_entry a es (Suc i) = (if obj (es ! i) = a then int i else find_entry a es i)"

text \<open>Entries \<open>i + 1\<close> to \<open>n\<close> move one place down.\<close>

definition shift_down :: "nat \<Rightarrow> nat \<Rightarrow> 'a list \<Rightarrow> 'a list" where
  "shift_down i n xs = fold (\<lambda>j xs. xs[j := xs ! (j + 1)]) [i..<n] xs"

definition removeTimeout :: "dbus_timeout \<Rightarrow> tPollInfo \<Rightarrow> tPollInfo" where
  "removeTimeout T s =
     (let i = find_entry (t_addr T) (objects s) (nfds s) in
      if 0 < i then
        let n = nfds s - 1;
            f = shift_down (nat i) n (fds s);
            e = shift_down (nat i) n (objects s)
        in s\<lparr>timers := (timers s)(pfd (fds s ! nat i) := None), nfds := n,
             fds := f[n := (f ! n)\<lparr>pfd := -1\<rparr>], objects := e[n := (e ! n)\<lparr>objtype := OT_NONE\<rparr>]\<rparr>
      else s)"

definition timeoutToggled :: "bool \<Rightarrow> dbus_timeout \<Rightarrow> tPollInfo \<Rightarrow> tPollInfo" where
  "timeoutToggled set_ok T s =
     (let i = find_entry (t_addr T) (objects s) (nfds s) in
      if 0 < i \<and> set_ok then
        s\<lparr>timers := (timers s)(pfd (fds s ! nat i) \<mapsto> timer_value (if t_enabled T then t_interval T else 0))\<rparr>
      else s)"

section \<open>The callbacks as steps\<close>

inductive poll_step :: "tPollInfo \<Rightarrow> tPollInfo \<Rightarrow> bool" where
  step_add_watch: "addWatch W s = (r, s') \<Longrightarrow> w_addr W \<noteq> 0 \<Longrightarrow> poll_step s s'"
| step_remove_watch: "poll_step s (removeWatch W s)"
| step_watch_toggled: "w_addr W \<noteq> 0 \<Longrightarrow> poll_step s (watchToggled W s)"
| step_add_timeout: "addTimeout tfd ok T s = (r, s') \<Longrightarrow> t_addr T \<noteq> 0 \<Longrightarrow> poll_step s s'"
| step_remove_timeout: "poll_step s (removeTimeout T s)"
| step_timeout_toggled: "poll_step s (timeoutToggled ok T s)"

inductive_cases poll_stepE: "poll_step s s'"

text \<open>
  The pipe is the first entry and stays there; the entries in use are watches and timeouts, a timeout is
  polled for input; entries never lie outside of the array.
\<close>

definition poll_ok :: "int \<Rightarrow> tPollInfo \<Rightarrow> bool" where
  "poll_ok p s \<longleftrightarrow>
     length (fds s) = ARRAY_SIZE_fds \<and> length (objects s) = ARRAY_SIZE_fds \<and> 1 \<le> nfds s \<and> nfds s \<le> ARRAY_SIZE_fds \<and>
     fds s ! 0 = \<lparr>pfd = p, p_in = True, p_out = False\<rparr> \<and> objects s ! 0 = \<lparr>objtype = OT_NONE, obj = 0\<rparr> \<and>
     (\<forall>i. 0 < i \<longrightarrow> i < nfds s \<longrightarrow> objtype (objects s ! i) \<noteq> OT_NONE \<and>
        (objtype (objects s ! i) = OT_TIMEOUT \<longrightarrow> p_in (fds s ! i)))"

lemma poll_ok_setup [simp]: "poll_ok p (poll_setup p)"
  by (simp add: poll_ok_def poll_setup_def)

lemma addWatch_ok:
  assumes "poll_ok p s"
  shows "poll_ok p (snd (addWatch W s))"
  using assms by (auto simp: poll_ok_def addWatch_def Let_def nth_list_update less_Suc_eq)

lemma addTimeout_ok:
  assumes "poll_ok p s"
  shows "poll_ok p (snd (addTimeout tfd ok T s))"
  using assms by (auto simp: poll_ok_def addTimeout_def Let_def nth_list_update less_Suc_eq)

lemma shift_down_length [simp]: "length (shift_down i n xs) = length xs"
proof -
  have "length (fold (\<lambda>j xs. xs[j := xs ! (j + 1)]) js xs) = length xs" for js
    by (induction js arbitrary: xs) auto
  then show ?thesis
    by (simp add: shift_down_def)
qed

lemma shift_down_nth:
  assumes "i \<le> n" "n < length xs" "k < length xs"
  shows "shift_down i n xs ! k = (if i \<le> k \<and> k < n then xs ! (k + 1) else xs ! k)"
  using assms(1,2)
proof (induction n rule: dec_induct)
  case base
  then show ?case
    by (auto simp: shift_down_def)
next
  case (step n)
  have l: "length (shift_down i n xs) = length xs"
    by simp
  have "shift_down i (Suc n) xs = (shift_down i n xs)[n := shift_down i n xs ! (n + 1)]"
    using step.hyps(1) by (simp add: shift_down_def)
  moreover have "shift_down i n xs ! (n + 1) = xs ! (n + 1)"
  proof -
    have "k < length xs \<Longrightarrow> n \<le> k \<Longrightarrow> shift_down i n xs ! k = xs ! k" for k
    proof -
      have "n \<le> k \<Longrightarrow> \<forall>j \<in> set js. j < n \<Longrightarrow> fold (\<lambda>j xs. xs[j := xs ! (j + 1)]) js ys ! k = ys ! k" for js and ys :: "'a list"
        by (induction js arbitrary: ys) auto
      then show "n \<le> k \<Longrightarrow> shift_down i n xs ! k = xs ! k"
        by (simp add: shift_down_def)
    qed
    then show ?thesis
      using step.prems by simp
  qed
  ultimately show ?case
    using step l assms(3) by (auto simp: nth_list_update less_Suc_eq)
qed

lemma find_entry_range: "find_entry a es n < int n \<and> (0 \<le> find_entry a es n \<longrightarrow> obj (es ! nat (find_entry a es n)) = a)"
  by (induction n) auto

lemma removeTimeout_ok:
  assumes "poll_ok p s"
  shows "poll_ok p (removeTimeout T s)"
proof (cases "0 < find_entry (t_addr T) (objects s) (nfds s)")
  case False
  then show ?thesis
    using assms by (simp add: removeTimeout_def Let_def)
next
  case True
  define i where "i = nat (find_entry (t_addr T) (objects s) (nfds s))"
  have i: "0 < i" "i < nfds s"
    using True find_entry_range [of "t_addr T" "objects s" "nfds s"] by (simp_all add: i_def nat_less_iff)
  have l: "i \<le> nfds s - 1" "nfds s - 1 < length (fds s)" "nfds s - 1 < length (objects s)"
    using assms i by (auto simp: poll_ok_def)
  show ?thesis
    using assms True i l unfolding poll_ok_def removeTimeout_def Let_def i_def [symmetric]
    by (auto simp: i_def [symmetric] nth_list_update shift_down_nth)
qed

lemma timeoutToggled_ok: "poll_ok p s \<Longrightarrow> poll_ok p (timeoutToggled ok T s)"
  by (simp add: poll_ok_def timeoutToggled_def Let_def)

lemma poll_step_ok:
  assumes "poll_step s s'" "poll_ok p s"
  shows "poll_ok p s'"
  using assms(1)
proof (cases rule: poll_step.cases)
  case (step_add_watch W r)
  then show ?thesis
    using addWatch_ok [OF assms(2), of W] by simp
next
  case (step_watch_toggled W)
  then show ?thesis
    using addWatch_ok [OF assms(2), of W] assms(2) by (simp add: watchToggled_def removeWatch_def)
next
  case (step_add_timeout tfd ok T r)
  then show ?thesis
    using addTimeout_ok [OF assms(2), of tfd ok T] by simp
qed (use assms(2) in \<open>simp_all add: removeWatch_def removeTimeout_ok timeoutToggled_ok\<close>)

interpretation polls: state_machine "poll_setup p" poll_step "poll_ok p" for p
  by unfold_locales (simp_all add: poll_step_ok)

text \<open>
  C24: whatever callbacks libdbus makes, in any order, the array stays well formed: it never grows over
  its ten places, the pipe stays its first entry and is polled for input, every other entry in use is a
  watch or a timeout, and a timeout is polled for input.
\<close>

theorem poll_array_ok:
  assumes "poll_step\<^sup>*\<^sup>* (poll_setup p) s"
  shows "poll_ok p s"
  using assms by (rule polls.good_reachable)

definition watch_1 :: dbus_watch where
  "watch_1 = \<lparr>w_addr = 100, w_fd = 7, w_readable = True, w_writable = False, w_enabled = True\<rparr>"

definition timeout_1 :: dbus_timeout where
  "timeout_1 = \<lparr>t_addr = 200, t_interval = 500, t_enabled = True\<rparr>"

theorem poll_array_ok_witness:
  "poll_ok 3 (removeTimeout timeout_1 (snd (addWatch watch_1 (snd (addTimeout 8 True timeout_1 (poll_setup 3)))))) \<and>
   nfds (removeTimeout timeout_1 (snd (addWatch watch_1 (snd (addTimeout 8 True timeout_1 (poll_setup 3)))))) = 2"
proof -
  let ?s1 = "snd (addTimeout 8 True timeout_1 (poll_setup 3))"
  let ?s2 = "snd (addWatch watch_1 ?s1)"
  have "poll_step (poll_setup 3) ?s1"
    by (rule step_add_timeout [OF surjective_pairing]) (simp add: timeout_1_def)
  moreover have "poll_step ?s1 ?s2"
    by (rule step_add_watch [OF surjective_pairing]) (simp add: watch_1_def)
  moreover have "poll_step ?s2 (removeTimeout timeout_1 ?s2)"
    by (rule step_remove_timeout)
  ultimately have "poll_step\<^sup>*\<^sup>* (poll_setup 3) (removeTimeout timeout_1 ?s2)"
    by (meson converse_rtranclp_into_rtranclp rtranclp.rtrancl_refl)
  from poll_array_ok [OF this] show ?thesis
    by (simp add: removeTimeout_def addWatch_def addTimeout_def watch_1_def timeout_1_def poll_setup_def Let_def
        eval_nat_numeral)
qed

section \<open>The array as a list of entries\<close>

definition entries :: "tPollInfo \<Rightarrow> (pollfd \<times> tObjectEntry) list" where
  "entries s = zip (take (nfds s) (fds s)) (take (nfds s) (objects s))"

lemma entries_nth:
  "poll_ok p s \<Longrightarrow> i < nfds s \<Longrightarrow> entries s ! i = (fds s ! i, objects s ! i)"
  by (simp add: entries_def poll_ok_def)

lemma length_entries [simp]: "poll_ok p s \<Longrightarrow> length (entries s) = nfds s"
  by (simp add: entries_def poll_ok_def)

lemma find_entry_last:
  assumes "i < n" "obj (es ! i) = a" "\<And>j. i < j \<Longrightarrow> j < n \<Longrightarrow> obj (es ! j) \<noteq> a"
  shows "find_entry a es n = int i"
  using assms by (induction n) (auto simp: less_Suc_eq)

text \<open>
  C25: removing a timeout takes exactly its entry out of the array: the other entries stay, in their
  order, and its timer descriptor is closed.
\<close>

theorem removeTimeout_entries:
  assumes "poll_ok p s" "entries s = xs @ (f, e) # ys" "xs \<noteq> []" "obj e = t_addr T"
    and "\<forall>y \<in> set ys. obj (snd y) \<noteq> t_addr T"
  shows "entries (removeTimeout T s) = xs @ ys \<and> timers (removeTimeout T s) = (timers s)(pfd f := None)"
proof -
  define i where "i = length xs"
  have n: "nfds s = Suc (i + length ys)"
    using arg_cong [OF assms(2), of length] assms(1) by (simp add: i_def)
  have nth: "(fds s ! j, objects s ! j) = (xs @ (f, e) # ys) ! j" if "j < nfds s" for j
    using entries_nth [OF assms(1) that] assms(2) by simp
  have e: "fds s ! i = f" "objects s ! i = e"
    using nth [of i] n by (simp_all add: i_def nth_append)
  have "obj (objects s ! j) \<noteq> t_addr T" if j: "i < j" "j < nfds s" for j
  proof -
    obtain m where m: "j = Suc (i + m)"
      using less_imp_Suc_add [OF j(1)] by blast
    then have "ys ! m \<in> set ys" "objects s ! j = snd (ys ! m)"
      using j(2) n nth [OF j(2)] by (simp_all add: i_def nth_append prod_eq_iff)
    then show ?thesis
      using assms(5) by simp
  qed
  then have F: "find_entry (t_addr T) (objects s) (nfds s) = int i"
    using n e assms(4) by (intro find_entry_last) auto
  have i: "0 < i"
    using assms(3) by (simp add: i_def)
  define s' where "s' = removeTimeout T s"
  have s': "nfds s' = nfds s - 1" "timers s' = (timers s)(pfd f := None)"
    using i F e by (simp_all add: s'_def removeTimeout_def Let_def)
  have ok: "poll_ok p s'"
    unfolding s'_def by (rule removeTimeout_ok [OF assms(1)])
  have l: "i \<le> nfds s - 1" "nfds s - 1 < length (fds s)" "nfds s - 1 < length (objects s)"
    using assms(1) n by (auto simp: poll_ok_def)
  have "entries s' ! j = (xs @ ys) ! j" if "j < nfds s'" for j
  proof -
    have "(fds s' ! j, objects s' ! j) = (if i \<le> j then (fds s ! (j + 1), objects s ! (j + 1)) else (fds s ! j, objects s ! j))"
      using that s'(1) i F l by (simp add: s'_def removeTimeout_def Let_def shift_down_nth)
    also have "\<dots> = (xs @ ys) ! j"
      using that s'(1) n nth [of j] nth [of "j + 1"] by (simp add: nth_append i_def)
    finally show ?thesis
      using entries_nth [OF ok that] by simp
  qed
  then have "entries s' = xs @ ys"
    using ok s'(1) n by (intro nth_equalityI) (simp_all add: i_def)
  then show ?thesis
    using s'(2) by (simp add: s'_def)
qed

theorem removeTimeout_entries_witness:
  "entries (removeTimeout timeout_1 (snd (addWatch watch_1 (snd (addTimeout 8 True timeout_1 (poll_setup 3)))))) =
     [(\<lparr>pfd = 3, p_in = True, p_out = False\<rparr>, \<lparr>objtype = OT_NONE, obj = 0\<rparr>),
      (\<lparr>pfd = 7, p_in = True, p_out = False\<rparr>, \<lparr>objtype = OT_WATCH, obj = 100\<rparr>)]"
proof -
  define s where "s = snd (addWatch watch_1 (snd (addTimeout 8 True timeout_1 (poll_setup 3))))"
  have "poll_ok 3 s"
    by (simp add: s_def addWatch_ok addTimeout_ok)
  moreover have "entries s = [(\<lparr>pfd = 3, p_in = True, p_out = False\<rparr>, \<lparr>objtype = OT_NONE, obj = 0\<rparr>)] @
      (\<lparr>pfd = 8, p_in = True, p_out = False\<rparr>, \<lparr>objtype = OT_TIMEOUT, obj = 200\<rparr>) #
      [(\<lparr>pfd = 7, p_in = True, p_out = False\<rparr>, \<lparr>objtype = OT_WATCH, obj = 100\<rparr>)]" (is "_ = ?xs @ ?e # ?ys")
    by (simp add: s_def entries_def addWatch_def addTimeout_def watch_1_def timeout_1_def poll_setup_def Let_def eval_nat_numeral)
  moreover have "obj (snd ?e) = t_addr timeout_1" "\<forall>y \<in> set ?ys. obj (snd y) \<noteq> t_addr timeout_1"
    by (simp_all add: timeout_1_def)
  ultimately have "entries (removeTimeout timeout_1 s) = ?xs @ ?ys"
    using removeTimeout_entries [of 3 s ?xs "fst ?e" "snd ?e" ?ys timeout_1] by simp
  then show ?thesis
    by (simp add: s_def)
qed

section \<open>What goes wrong\<close>

text \<open>libdbus switches a watch on and off again.\<close>

definition watch_cycle :: "dbus_watch \<Rightarrow> tPollInfo \<Rightarrow> tPollInfo" where
  "watch_cycle W s = watchToggled (W\<lparr>w_enabled := False\<rparr>) (watchToggled (W\<lparr>w_enabled := True\<rparr>) s)"

lemma watch_cycle_entries:
  assumes "poll_ok p s"
  shows "poll_ok p (watch_cycle W s) \<and> nfds (watch_cycle W s) = min 10 (nfds s + 1) \<and>
    (nfds s < 10 \<longrightarrow> objects (watch_cycle W s) ! nfds s = \<lparr>objtype = OT_WATCH, obj = w_addr W\<rparr>) \<and>
    (\<forall>i < nfds s. objects (watch_cycle W s) ! i = objects s ! i)"
  using assms addWatch_ok [OF assms, of "W\<lparr>w_enabled := True\<rparr>"]
  by (auto simp: watch_cycle_def watchToggled_def removeWatch_def addWatch_def Let_def poll_ok_def)

lemma watch_cycles:
  assumes "poll_ok p s"
  shows "poll_ok p ((watch_cycle W ^^ k) s) \<and> nfds ((watch_cycle W ^^ k) s) = min 10 (nfds s + k) \<and>
    (\<forall>i. nfds s \<le> i \<longrightarrow> i < nfds ((watch_cycle W ^^ k) s) \<longrightarrow>
       objects ((watch_cycle W ^^ k) s) ! i = \<lparr>objtype = OT_WATCH, obj = w_addr W\<rparr>)"
proof (induction k)
  case 0
  then show ?case
    using assms by (simp add: poll_ok_def)
next
  case (Suc k)
  define s1 where "s1 = (watch_cycle W ^^ k) s"
  have c: "(watch_cycle W ^^ Suc k) s = watch_cycle W s1"
    by (simp add: s1_def)
  note IH = Suc.IH [folded s1_def]
  note W = watch_cycle_entries [OF conjunct1 [OF IH], of W]
  have "objects (watch_cycle W s1) ! i = \<lparr>objtype = OT_WATCH, obj = w_addr W\<rparr>"
    if i: "nfds s \<le> i" "i < nfds (watch_cycle W s1)" for i
  proof -
    have "i < nfds s1 \<or> i = nfds s1 \<and> nfds s1 < 10"
      using i(2) W by (auto simp: min_def split: if_splits)
    then show ?thesis
      using W IH i(1) by auto
  qed
  then show ?case
    using W IH unfolding c by (auto simp: min_def)
qed

text \<open>
  C26: a watch never leaves the array: every time libdbus switches one on and off again the array keeps
  one more entry with its address, which the loop goes on polling, and when the ten places are used up
  every further watch and timeout is refused.
\<close>

theorem watch_cycles_fill:
  assumes "poll_step\<^sup>*\<^sup>* (poll_setup p) s" "k \<ge> 10 - nfds s"
  shows "nfds ((watch_cycle W ^^ k) s) = 10 \<and>
    (\<forall>i \<in> {nfds s..<10}. objects ((watch_cycle W ^^ k) s) ! i = \<lparr>objtype = OT_WATCH, obj = w_addr W\<rparr>) \<and>
    addWatch W' ((watch_cycle W ^^ k) s) = (False, (watch_cycle W ^^ k) s) \<and>
    addTimeout tfd ok T ((watch_cycle W ^^ k) s) = (False, (watch_cycle W ^^ k) s)"
proof -
  have ok: "poll_ok p s"
    using assms(1) by (rule polls.good_reachable)
  have "nfds ((watch_cycle W ^^ k) s) = 10"
    using watch_cycles [OF ok, where W = W and k = k] assms(2) by simp
  then show ?thesis
    using watch_cycles [OF ok, where W = W and k = k] by (simp add: addWatch_def addTimeout_def Let_def)
qed

theorem watch_cycles_fill_witness:
  "addTimeout 8 True timeout_1 ((watch_cycle watch_1 ^^ 9) (poll_setup 3)) = (False, (watch_cycle watch_1 ^^ 9) (poll_setup 3))"
  using watch_cycles_fill [OF rtranclp.rtrancl_refl [of poll_step "poll_setup 3"], of 9 watch_1] by (simp add: poll_setup_def)

text \<open>
  The timer of a timeout is armed too short: the milliseconds that are left over after the full
  seconds are given to the timer as nanoseconds, so the interval is right only for full seconds, and a
  timeout of less than a second expires before a microsecond has passed.
\<close>

lemma addTimeout_too_short:
  assumes "addTimeout tfd True T s = (True, s')"
  shows "\<exists>sec ns. timers s' tfd = Some (sec, ns) \<and>
    (sec * 1000000000 + ns = t_interval T * 1000000 \<longleftrightarrow> 1000 dvd t_interval T) \<and>
    (t_interval T < 1000 \<longrightarrow> sec * 1000000000 + ns < 1000)"
proof -
  have t: "0 < t_interval T" "timers s' tfd = Some (t_interval T sdiv 1000, t_interval T smod 1000)"
    using assms by (auto simp: addTimeout_def timer_value_def Let_def split: if_splits)
  then have "timers s' tfd = Some (t_interval T div 1000, t_interval T mod 1000)"
    by (simp add: signed_divide_int_def signed_modulo_int_def minus_mult_div_eq_mod [symmetric] mult.commute)
  moreover have "(t div 1000) * 1000000000 + t mod 1000 = t * 1000000 \<longleftrightarrow> 1000 dvd t" for t :: int
  proof -
    have "t * 1000000 = (t div 1000) * 1000000000 + (t mod 1000) * 1000000"
      using div_mult_mod_eq [of t 1000] by linarith
    then show ?thesis
      by (simp add: dvd_eq_mod_eq_0)
  qed
  moreover have "t_interval T < 1000 \<longrightarrow> (t_interval T div 1000) * 1000000000 + t_interval T mod 1000 < 1000"
    using t(1) by simp
  ultimately show ?thesis
    by blast
qed

lemma addTimeout_too_short_witness:
  "timers (snd (addTimeout 8 True timeout_1 (poll_setup 3))) 8 = Some (0, 500)"
proof -
  have "addTimeout 8 True timeout_1 (poll_setup 3) = (True, snd (addTimeout 8 True timeout_1 (poll_setup 3)))"
    by (simp add: addTimeout_def timeout_1_def poll_setup_def)
  from addTimeout_too_short [OF this] show ?thesis
    by (simp add: addTimeout_def timeout_1_def poll_setup_def timer_value_def signed_divide_int_def signed_modulo_int_def)
qed

end
