(* ===== verification/Main_Loop.thy ===== *)
theory Main_Loop
  imports Lifecycle_Laws Poll_Array
begin

text \<open>
  The thread of the main loop (\<^verbatim>\<open>mainLoop\<close> of \<^verbatim>\<open>persistence_client_library_dbus_service.c\<close>): it
  dispatches what came in on the bus, polls the descriptors of the poll array, and serves those that are
  ready; and the handlers of the two services' object paths.  What libdbus does with a watch or a
  timeout, which may change the poll array again, is a parameter.
\<close>

section \<open>Calls that come in on the bus\<close>

record bus_call_in =
  i_iface :: string
  i_member :: string
  i_args :: "(32 word \<times> 32 word) option"

definition gDbusLcConsterface :: string where
  "gDbusLcConsterface = ''org.genivi.NodeStateManager.LifeCycleConsumer''"

definition gDbusLcConsMsg :: string where
  "gDbusLcConsMsg = ''LifecycleRequest''"

definition gDbusPersAdminConsMsg :: string where
  "gDbusPersAdminConsMsg = ''PersistenceAdminRequest''"

text \<open>The reply that is sent, if any, whether the call was handled, and the new state.\<close>

definition checkLifecycleMsg ::
  "pipe_os \<Rightarrow> bus_call_in \<Rightarrow> 'a loop_state_scheme \<Rightarrow> (unit + int) option \<times> bool \<times> 'a loop_state_scheme" where
  "checkLifecycleMsg wr m s =
     (if strn_eq 46 gDbusLcConsterface (i_iface m) \<and> strn_eq 16 gDbusLcConsMsg (i_member m) then
        case msg_lifecycleRequest wr (i_args m) s of (reply, handled, s) \<Rightarrow> (Some reply, handled, s)
      else (None, False, s))"

definition checkPersAdminMsg ::
  "pipe_os \<Rightarrow> bus_call_in \<Rightarrow> 'a loop_state_scheme \<Rightarrow> (unit + int) option \<times> bool \<times> 'a loop_state_scheme" where
  "checkPersAdminMsg wr m s =
     (if i_iface m = gDbusPersAdminConsInterface \<and> i_member m = gDbusPersAdminConsMsg then
        case msg_persAdminRequest wr (i_args m) s of (reply, handled, s) \<Rightarrow> (Some reply, handled, s)
      else (None, False, s))"

section \<open>One round of the loop\<close>

text \<open>The events of a descriptor that \<^verbatim>\<open>poll\<close> reports.\<close>

record revents =
  r_in :: bool
  r_out :: bool
  r_err :: bool
  r_hup :: bool
  r_nval :: bool

definition ready :: "revents \<Rightarrow> bool" where
  "ready r \<longleftrightarrow> r_in r \<or> r_out r \<or> r_err r \<or> r_hup r \<or> r_nval r"

record watch_flags =
  DBUS_WATCH_READABLE :: bool
  DBUS_WATCH_WRITABLE :: bool
  DBUS_WATCH_ERROR :: bool
  DBUS_WATCH_HANGUP :: bool

datatype poll_result = Poll_Failed | Poll_Timeout | Poll_Ready "nat \<Rightarrow> revents"

record 'w main_env =
  m_loop :: "'w loop_env"
  m_pipe :: int
  m_timeout :: "nat \<Rightarrow> tPollInfo \<Rightarrow> tPollInfo"
  m_watch :: "nat \<Rightarrow> watch_flags \<Rightarrow> tPollInfo \<Rightarrow> bool \<times> tPollInfo"

type_synonym ('w, 'x) main_run = "tPollInfo \<times> ('w, 'x) run"

text \<open>
  The entries are served in order, up to the number of entries in use, which a callback may change.  The
  first result is whether the loop goes on; a quit command ends the round.
\<close>

fun serve_entries ::
  "'w main_env \<Rightarrow> (nat \<Rightarrow> revents) \<Rightarrow> nat list \<Rightarrow> bool \<Rightarrow> ('w, 'x) main_run \<Rightarrow> (bool \<times> ('w, 'x) main_run) option" where
  "serve_entries M evs [] bContinue (p, r) = Some (bContinue, p, r)"
| "serve_entries M evs (i # is) bContinue (p, r) =
     (if i \<ge> nfds p then Some (bContinue, p, r)
      else if \<not> ready (evs i) then serve_entries M evs is bContinue (p, r)
      else if objtype (objects p ! i) = OT_TIMEOUT then
        serve_entries M evs is True (m_timeout M (obj (objects p ! i)) p, r)
      else if pfd (fds p ! i) = m_pipe M then
        if r_in (evs i) then
          case read_command (m_loop M) r of
            None \<Rightarrow> None
          | Some (go, r) \<Rightarrow> if go then serve_entries M evs is True (p, r) else Some (False, p, r)
        else serve_entries M evs is bContinue (p, r)
      else
        (case m_watch M (obj (objects p ! i))
            \<lparr>DBUS_WATCH_READABLE = r_in (evs i), DBUS_WATCH_WRITABLE = r_out (evs i),
             DBUS_WATCH_ERROR = r_err (evs i), DBUS_WATCH_HANGUP = r_hup (evs i)\<rparr> p of
           (ok, p) \<Rightarrow> serve_entries M evs is ok (p, r)))"

definition dispatch_calls :: "'w main_env \<Rightarrow> bus_call_in list \<Rightarrow> ('w, 'x) run \<Rightarrow> ('w, 'x) run" where
  "dispatch_calls M cs = (\<lambda>(s, w). (fold (\<lambda>c s. snd (snd (checkLifecycleMsg (e_wr (l_env (m_loop M))) c s))) cs s, w))"

definition main_round ::
  "'w main_env \<Rightarrow> bus_call_in list \<times> poll_result \<Rightarrow> bool \<Rightarrow> ('w, 'x) main_run \<Rightarrow> (bool \<times> ('w, 'x) main_run) option" where
  "main_round M = (\<lambda>(cs, polled) bContinue (p, r).
     let r = dispatch_calls M cs r in
     case polled of
       Poll_Ready evs \<Rightarrow> serve_entries M evs [0..<ARRAY_SIZE_fds] bContinue (p, r)
     | _ \<Rightarrow> Some (bContinue, p, r))"

text \<open>
  The loop over the rounds that happen.  The result is whether it is still running after them.
\<close>

fun main_rounds ::
  "'w main_env \<Rightarrow> (bus_call_in list \<times> poll_result) list \<Rightarrow> bool \<Rightarrow> ('w, 'x) main_run \<Rightarrow> (bool \<times> ('w, 'x) main_run) option" where
  "main_rounds M [] bContinue st = Some (True, st)"
| "main_rounds M (x # xs) bContinue st =
     (case main_round M x bContinue st of
        None \<Rightarrow> None
      | Some (bContinue, st) \<Rightarrow> if bContinue then main_rounds M xs bContinue st else Some (False, st))"

definition mainLoop ::
  "'w main_env \<Rightarrow> (bus_call_in list \<times> poll_result) list \<Rightarrow> ('w, 'x) main_run \<Rightarrow> (bool \<times> ('w, 'x) main_run) option" where
  "mainLoop M xs st = main_rounds M xs False st"

section \<open>Commands leave the pipe alone\<close>

lemma list_iterate_kept:
  assumes "list_iterate get callback s p = Some s'" "\<And>f s s'. callback f s = Some s' \<Longrightarrow> P s' = P s"
  shows "P s' = P s"
proof -
  have "(\<forall>f s s'. callback f s = Some s' \<longrightarrow> P s' = P s) \<longrightarrow> P s' = P s"
  proof (rule list_iterate.raw_induct [OF _ assms(1), where P = "\<lambda>get callback s p s'.
      (\<forall>f s s'. callback f s = Some s' \<longrightarrow> P s' = P s) \<longrightarrow> P s' = P s"])
    fix it get callback s p s'
    assume IH: "\<And>get callback s p s'. it get callback s p = Some s' \<Longrightarrow>
        (\<forall>f s s'. callback f s = Some s' \<longrightarrow> P s' = P s) \<longrightarrow> P s' = P s"
      and e: "(if p = 0 then Some s
               else do { c \<leftarrow> get s p; s \<leftarrow> callback (fd c) s; c \<leftarrow> get s p; it get callback s (nxt c) }) = Some s'"
    show "(\<forall>f s s'. callback f s = Some s' \<longrightarrow> P s' = P s) \<longrightarrow> P s' = P s"
    proof
      assume K: "\<forall>f s s'. callback f s = Some s' \<longrightarrow> P s' = P s"
      have "s' = s \<or> (\<exists>f s1 q. callback f s = Some s1 \<and> it get callback s1 q = Some s')"
        using e by (cases "p = 0") (simp_all add: Option.bind_eq_Some_conv, blast)
      then show "P s' = P s"
      proof (elim disjE exE conjE)
        fix f s1 q
        assume "callback f s = Some s1" "it get callback s1 q = Some s'"
        then show ?thesis
          using IH [THEN mp, OF _ K] K by metis
      qed simp
    qed
  qed
  then show ?thesis
    using assms(2) by blast
qed

lemma pclFileClose_pipe: "pclFileClose E C f s = Some (r, s') \<Longrightarrow> pipe s' = pipe s"
  by (auto simp: pclFileClose_def Let_def case_prod_beta Option.bind_eq_Some_conv split: if_splits)

lemma flush_files_pipe:
  assumes "flush_files E C complete (s, w) = Some (s', w')"
  shows "pipe s' = pipe s"
proof -
  have "pipe (fst r') = pipe (fst r)" if "close_one E C f r = Some r'" for f and r r' :: "('a, 'b) run"
    using that pclFileClose_pipe by (auto simp: close_one_def case_prod_beta)
  moreover have "pipe (fst r') = pipe (fst r)" if "sync_one f r = Some r'" for f and r r' :: "('a, 'b) run"
    using that by (auto simp: sync_one_def case_prod_beta)
  ultimately have l: "pipe (fst r') = pipe (fst r)"
    if "list_iterate open_cells (close_one E C) r p = Some r' \<or> list_iterate open_cells sync_one r p = Some r'"
    for p and r r' :: "('a, 'b) run"
    using that list_iterate_kept [of open_cells _ r p r' "\<lambda>r. pipe (fst r)"] by blast
  consider "complete = 1" | "complete = 0" | "complete \<noteq> 0 \<and> complete \<noteq> 1"
    by blast
  then show ?thesis
    using assms l by cases (fastforce simp: flush_files_def)+
qed

lemma close_loops_pipe:
  "pipe (fst (pers_rct_close_all s w)) = pipe s" "pipe (fst (database_close_all E s w)) = pipe s"
  for s :: "('w, 'x) lib_state_scheme"
  using rct_close_loop_rest [of s _ w] close_loop_rest [of s _ w]
  by (simp_all add: pers_rct_close_all_def database_close_all_def same_rest_def)

lemma close_handles_pipe: "close_all_persistence_handle l s = Some s' \<Longrightarrow> pipe s' = pipe s"
  by (auto simp: close_all_persistence_handle_def Option.bind_eq_Some_conv split: if_splits)

lemma prepare_shutdown_pipe:
  assumes "process_prepare_shutdown E C hl complete (s, w) = Some (s', w')"
  shows "pipe s' = pipe s"
proof -
  obtain s1 w1 where 1: "flush_files E C complete (pers_lock_access s, w) = Some (s1, w1)"
    using assms by (auto simp: process_prepare_shutdown_def Option.bind_eq_Some_conv)
  obtain s2 w2 where 2: "pers_rct_close_all s1 w1 = (s2, w2)"
    by (cases "pers_rct_close_all s1 w1")
  obtain s3 w3 where 3: "database_close_all E s2 w2 = (s3, w3)"
    by (cases "database_close_all E s2 w2")
  have p: "pipe s3 = pipe s"
    using flush_files_pipe [OF 1] close_loops_pipe(1) [of s1 w1] close_loops_pipe(2) [of E s2 w2] 2 3
    by (simp add: pers_lock_access_def)
  define fin where "fin = (\<lambda>(s :: ('a, 'b) lib_state_scheme, w :: 'a).
    (if gIsNodeStateManager s = 0 then s\<lparr>gDisk := sys_syncfs (gSyncFd s) (gDisk s)\<rparr> else s, w))"
  show ?thesis
  proof (cases "complete > 0")
    case True
    then obtain s4 where 4: "close_all_persistence_handle hl s3 = Some s4"
      using assms 1 2 3 by (cases "close_all_persistence_handle hl s3") (simp_all add: process_prepare_shutdown_def Let_def)
    obtain l w4 where "deinit_plugins [0..8] (loader s4) w3 = (l, w4)"
      by (cases "deinit_plugins [0..8] (loader s4) w3")
    then show ?thesis
      using assms 1 2 3 4 True p close_handles_pipe [OF 4] by (auto simp: process_prepare_shutdown_def Let_def)
  next
    case False
    then show ?thesis
      using assms 1 2 3 p by (auto simp: process_prepare_shutdown_def Let_def)
  qed
qed

lemma dispatch_pipe:
  assumes "dispatchInternalCommand L m (s, w) = Some (go, s', w')"
  shows "pipe s' = pipe s"
  using assms prepare_shutdown_pipe
  by (auto simp: dispatchInternalCommand_def on_bus_def process_block_and_write_data_back_def pers_lock_access_def Let_def
      split: tCmd.splits if_splits)

lemma read_command_pipe: "read_command L (s, w) = Some (go, s', w') \<Longrightarrow> pipe s' = tl (pipe s)"
  by (auto simp: read_command_def dest!: dispatch_pipe split: list.splits)

section \<open>Setting the loop up\<close>

text \<open>
  What the set-up meets: the threads of libdbus, the address of a private bus, the connection, the pipe,
  the object paths, the watches that libdbus has at once, and what \<^verbatim>\<open>pthread_create\<close> returns.
\<close>

record setup_env =
  s_threads :: bool
  s_address :: "string option"
  s_open :: bool
  s_register :: bool
  s_private :: bool
  s_pipe :: "int option"
  s_path :: bool
  s_fallback :: bool
  s_watches :: "dbus_watch list"
  s_timeouts :: bool
  s_thread :: int

fun add_watches :: "dbus_watch list \<Rightarrow> tPollInfo \<Rightarrow> bool \<times> tPollInfo" where
  "add_watches [] p = (True, p)"
| "add_watches (W # Ws) p = (case addWatch W p of (ok, p) \<Rightarrow> if ok then add_watches Ws p else (False, p))"

text \<open>The result, and the poll array of the new thread when there is one.\<close>

definition setup_dbus_mainloop :: "setup_env \<Rightarrow> int \<times> tPollInfo option" where
  "setup_dbus_mainloop S =
     (if \<not> s_threads S then (EPERS_COMMON, None)
      else if \<not> (if s_address S \<noteq> None then s_open S \<and> s_register S else s_private S) then (EPERS_COMMON, None)
      else case s_pipe S of
             None \<Rightarrow> (EPERS_COMMON, None)
           | Some f \<Rightarrow>
               if s_path S \<and> s_fallback S then
                 case add_watches (s_watches S) (poll_setup f) of (ok, p) \<Rightarrow>
                   if ok \<and> s_timeouts S then
                     if s_thread S \<noteq> -1 then (0, Some p) else (EPERS_COMMON, None)
                   else (EPERS_COMMON, None)
               else (EPERS_COMMON, None))"

lemma add_watches_reach:
  "poll_step\<^sup>*\<^sup>* (poll_setup f) p \<Longrightarrow> \<forall>W \<in> set Ws. w_addr W \<noteq> 0 \<Longrightarrow> poll_step\<^sup>*\<^sup>* (poll_setup f) (snd (add_watches Ws p))"
proof (induction Ws arbitrary: p)
  case (Cons W Ws)
  have "poll_step\<^sup>*\<^sup>* (poll_setup f) (snd (addWatch W p))"
    using Cons.prems by (intro rtranclp.rtrancl_into_rtrancl [OF Cons.prems(1)] step_add_watch [OF surjective_pairing]) simp
  then show ?case
    using Cons.IH Cons.prems(2) by (auto simp: case_prod_beta)
qed simp

text \<open>A loop that was set up runs on a reachable poll array whose first entry is the pipe.\<close>

lemma setup_reach:
  assumes "setup_dbus_mainloop S = (0, Some p)" "\<forall>W \<in> set (s_watches S). w_addr W \<noteq> 0"
  shows "\<exists>f. s_pipe S = Some f \<and> poll_step\<^sup>*\<^sup>* (poll_setup f) p"
proof -
  obtain f where f: "s_pipe S = Some f" "p = snd (add_watches (s_watches S) (poll_setup f))"
    using assms(1) by (auto simp: setup_dbus_mainloop_def case_prod_beta split: if_splits option.splits)
  then show ?thesis
    using add_watches_reach [OF rtranclp.rtrancl_refl assms(2), of f] by blast
qed

section \<open>The loop and its messages\<close>

text \<open>Only the pipe is ready.\<close>

definition pipe_ready :: "nat \<Rightarrow> revents" where
  "pipe_ready i = \<lparr>r_in = (i = 0), r_out = False, r_err = False, r_hup = False, r_nval = False\<rparr>"

definition pipe_rounds :: "nat \<Rightarrow> (bus_call_in list \<times> poll_result) list" where
  "pipe_rounds n = replicate n ([], Poll_Ready pipe_ready)"

lemma serve_idle: "\<forall>i \<in> set is. \<not> ready (evs i) \<Longrightarrow> serve_entries M evs is c (p, r) = Some (c, p, r)"
  by (induction "is") auto

lemma round_pipe:
  assumes "poll_ok (m_pipe M) p"
  shows "main_round M ([], Poll_Ready pipe_ready) c (p, r) = map_option (\<lambda>(go, r). (go, p, r)) (read_command (m_loop M) r)"
proof -
  have i: "[0..<10] = 0 # [1..<10]"
    by (simp add: upt_conv_Cons)
  have r0: "ready (pipe_ready 0)" "r_in (pipe_ready 0)"
    by (simp_all add: ready_def pipe_ready_def)
  have rest: "serve_entries M pipe_ready [1..<10] b (p, r) = Some (b, p, r)" for b r
    by (intro serve_idle) (auto simp: ready_def pipe_ready_def)
  have "serve_entries M pipe_ready (0 # [1..<10]) c (p, r) = map_option (\<lambda>(go, r). (go, p, r)) (read_command (m_loop M) r)"
    using assms rest r0 by (auto simp: poll_ok_def split: option.split)
  moreover have "dispatch_calls M [] r = r"
    by (simp add: dispatch_calls_def case_prod_beta)
  ultimately show ?thesis
    by (simp add: main_round_def i del: serve_entries.simps)
qed

lemma rounds_messages:
  assumes "poll_ok (m_pipe M) p"
  shows "length (pipe (fst r)) = n \<Longrightarrow>
    main_rounds M (pipe_rounds n) c (p, r) =
      map_option (\<lambda>(go, r). (go, p, r)) (loop_messages (m_loop M) n r)"
proof (induction n arbitrary: r c)
  case (Suc n)
  obtain s w where r: "r = (s, w)"
    by (cases r)
  have "length (pipe (fst r')) = n" if "read_command (m_loop M) r = Some (go, r')" for go r'
    using read_command_pipe [of "m_loop M" s w go "fst r'" "snd r'"] that Suc.prems by (simp add: r)
  moreover have "pipe (fst r) \<noteq> []"
    using Suc.prems by auto
  ultimately show ?case
    using Suc.IH by (auto simp: pipe_rounds_def round_pipe [OF assms] split: option.splits prod.splits)
qed (simp add: pipe_rounds_def)

lemma loop_messages_quit:
  assumes "m \<in> set (pipe (fst r))" "cmd m = CMD_QUIT" "loop_messages L n r = Some (go, r')" "length (pipe (fst r)) \<le> n"
  shows "\<not> go"
  using assms
proof (induction n arbitrary: r)
  case (Suc n)
  obtain s w where r: "r = (s, w)"
    by (cases r)
  obtain h t where h: "pipe s = h # t"
    using Suc.prems(1) by (cases "pipe s") (auto simp: r)
  show ?case
  proof (cases "cmd h = CMD_QUIT")
    case True
    then show ?thesis
      using Suc.prems(3) h by (auto simp: r read_command_def dispatchInternalCommand_def Let_def)
  next
    case False
    obtain go1 s1 w1 where c: "read_command L r = Some (go1, s1, w1)"
      using Suc.prems(3) h by (auto simp: r split: option.splits)
    have p: "pipe s1 = t"
      using read_command_pipe [of L s w go1 s1 w1] c h by (simp add: r)
    moreover have "m \<in> set t"
      using Suc.prems(1,2) False h by (auto simp: r)
    ultimately show ?thesis
      using Suc.IH [of "(s1, w1)"] Suc.prems(2,3,4) c h by (auto simp: r split: if_splits)
  qed
qed simp

text \<open>
  C22: the thread of the main loop works off the messages of its pipe: with as many rounds in which the
  pipe is ready as there are messages, it has dispatched each of them in order, exactly as the commands
  alone prescribe, until one of them is a quit; and if one of them is a quit it has ended.
\<close>

theorem mainLoop_messages:
  assumes "poll_step\<^sup>*\<^sup>* (poll_setup (m_pipe M)) p"
  shows "mainLoop M (pipe_rounds (length (pipe (fst r)))) (p, r) = map_option (\<lambda>(go, r). (go, p, r)) (main_loop (m_loop M) r) \<and>
    (\<forall>m \<in> set (pipe (fst r)). cmd m = CMD_QUIT \<longrightarrow>
       main_loop (m_loop M) r = None \<or> (\<exists>r'. mainLoop M (pipe_rounds (length (pipe (fst r)))) (p, r) = Some (False, p, r')))"
proof -
  have "poll_ok (m_pipe M) p"
    using assms(1) by (rule polls.good_reachable)
  from rounds_messages [OF this refl]
  have e: "mainLoop M (pipe_rounds (length (pipe (fst r)))) (p, r) = map_option (\<lambda>(go, r). (go, p, r)) (main_loop (m_loop M) r)"
    by (simp add: mainLoop_def main_loop_def)
  moreover have "main_loop (m_loop M) r = None \<or> (\<exists>r'. mainLoop M (pipe_rounds (length (pipe (fst r)))) (p, r) = Some (False, p, r'))"
    if "m \<in> set (pipe (fst r))" "cmd m = CMD_QUIT" for m
    using loop_messages_quit [OF that, of "m_loop M" "length (pipe (fst r))"]
    by (cases "main_loop (m_loop M) r") (auto simp: e main_loop_def)
  ultimately show ?thesis
    by blast
qed

text \<open>A watch for which libdbus is out of memory ends the loop, whatever is left in the pipe.\<close>

lemma watch_failure_ends_loop:
  assumes "i < nfds p" "i < 10" "objtype (objects p ! i) \<noteq> OT_TIMEOUT" "pfd (fds p ! i) \<noteq> m_pipe M"
    and "\<And>j. ready (evs j) \<longleftrightarrow> j = i" "\<And>f. m_watch M (obj (objects p ! i)) f p = (False, p')"
  shows "main_rounds M (([], Poll_Ready evs) # xs) c (p, r) = Some (False, p', r)"
proof -
  have split: "[0..<10] = [0..<i] @ i # [Suc i..<10]"
    using assms(2) by (metis le0 less_or_eq_imp_le upt_add_eq_append upt_conv_Cons le_add_diff_inverse)
  have skip: "serve_entries M evs (is @ js) c (q, r) = serve_entries M evs js c (q, r)"
    if "\<forall>j \<in> set is. j < nfds q \<and> \<not> ready (evs j)" for "is" js c q
    using that by (induction "is") auto
  have "serve_entries M evs [Suc i..<10] b (q, r) = Some (b, q, r)" for b q
    by (intro serve_idle) (simp add: assms(5))
  then have "serve_entries M evs [0..<10] c (p, r) = Some (False, p', r)"
    using assms by (simp add: split skip)
  moreover have "dispatch_calls M [] r = r"
    by (simp add: dispatch_calls_def case_prod_beta)
  ultimately show ?thesis
    by (simp add: main_round_def)
qed

section \<open>Waiting for the loop\<close>

text \<open>
  The caller of \<^verbatim>\<open>deliverToMainloop\<close> writes its message, waits for \<open>gMainLoopCondValue\<close> to be set and
  resets it; a mutex admits one caller at a time.  The steps of the callers and of the loop: \<open>nm\<close> says
  whether other threads send messages without waiting as well.  The third component is the message that
  the waiting caller has written.
\<close>

type_synonym ('w, 'x) wait_state = "('w, 'x) lib_state_scheme \<times> 'w \<times> main_msg option"

inductive wait_step :: "bool \<Rightarrow> 'w loop_env \<Rightarrow> pipe_os \<Rightarrow> ('w, 'x) wait_state \<Rightarrow> ('w, 'x) wait_state \<Rightarrow> bool"
  for nm L wr where
  wait_send: "nm \<Longrightarrow> deliverToMainloop_NM wr m s = (r, s') \<Longrightarrow> wait_step nm L wr (s, w, q) (s', w, q)"
| wait_call: "deliverToMainloop_NM wr m s = (r, s') \<Longrightarrow> wait_step nm L wr (s, w, None) (s', w, Some m)"
| wait_loop: "read_command L (s, w) = Some (go, s', w') \<Longrightarrow> wait_step nm L wr (s, w, q) (s', w', q)"
| wait_return: "gMainLoopCondValue s \<noteq> 0 \<Longrightarrow>
     wait_step nm L wr (s, w, Some m) (s\<lparr>gMainLoopCondValue := 0\<rparr>, w, None)"

inductive_cases wait_stepE: "wait_step nm L wr (s, w, q) (s', w', q')"

definition waited :: "('w, 'x) wait_state \<Rightarrow> bool" where
  "waited = (\<lambda>(s, w, q).
     case q of
       None \<Rightarrow> pipe s = [] \<and> gMainLoopCondValue s = 0
     | Some m \<Rightarrow> pipe s = [m] \<and> gMainLoopCondValue s = 0 \<or> pipe s = [])"

lemma read_command_cond: "read_command L (s, w) = Some (go, s', w') \<Longrightarrow> gMainLoopCondValue s' = 1"
  by (auto simp: read_command_def split: list.splits)

lemma read_command_empty: "read_command L (s, w) = Some (go, s', w') \<Longrightarrow> pipe s \<noteq> []"
  by (auto simp: read_command_def)

lemma waited_step: "wait_step False L wr x y \<Longrightarrow> waited x \<Longrightarrow> waited y"
  by (erule wait_step.cases)
    (auto simp: waited_def deliverToMainloop_NM_def dest: read_command_pipe read_command_cond read_command_empty
      split: option.splits if_splits)

text \<open>With all threads waiting, the invariant is that of a state machine.\<close>

lemma waited_machine: "waited (s, w, None) \<Longrightarrow> state_machine (s, w, None) (wait_step False L wr) waited"
  by unfold_locales (auto intro: waited_step)

text \<open>
  C23: \<^verbatim>\<open>deliverToMainloop\<close> waits for its own message only while nobody sends a message without
  waiting.  If all threads wait, the pipe is empty whenever a call has returned, so its message has been
  dispatched.  After one message that nobody waited for the next call returns at once: it can return
  while its message is still in the pipe.
\<close>

theorem deliver_waits:
  assumes "pipe s = []" "gMainLoopCondValue s = 0" "\<And>l. length l \<le> 1 \<Longrightarrow> wr l"
    and "dispatchInternalCommand L m1 (s, w) = Some (True, s1, w1)"
  shows "((wait_step False L wr)\<^sup>*\<^sup>* (s, w, None) (s', w', None) \<longrightarrow> pipe s' = []) \<and>
    (\<exists>s2. (wait_step True L wr)\<^sup>*\<^sup>* (s, w, None) (s2, w1, None) \<and> pipe s2 = [m2])"
proof (intro conjI impI)
  assume "(wait_step False L wr)\<^sup>*\<^sup>* (s, w, None) (s', w', None)"
  then show "pipe s' = []"
    using state_machine.good_reachable [OF waited_machine, of s w L wr "(s', w', None)"] assms(1,2) by (simp add: waited_def)
next
  let ?s1 = "s1\<lparr>gMainLoopCondValue := 1\<rparr>"
  have p: "pipe s1 = []"
    using dispatch_pipe [OF assms(4)] assms(1) by simp
  have "s\<lparr>pipe := []\<rparr> = s"
    using assms(1) by simp
  then have r: "read_command L (s\<lparr>pipe := [m1]\<rparr>, w) = Some (True, ?s1, w1)"
    using assms(4) by (simp add: read_command_def)
  have d: "deliverToMainloop_NM wr m1 s = (0, s\<lparr>pipe := [m1]\<rparr>)"
    "deliverToMainloop_NM wr m2 ?s1 = (0, ?s1\<lparr>pipe := [m2]\<rparr>)"
    using assms(1,3) p by (simp_all add: deliverToMainloop_NM_def)
  have "(wait_step True L wr)\<^sup>*\<^sup>* (s, w, None) (s\<lparr>pipe := [m1]\<rparr>, w, None)"
    by (rule r_into_rtranclp, rule wait_send [OF TrueI d(1)])
  also have "(wait_step True L wr)\<^sup>*\<^sup>* (s\<lparr>pipe := [m1]\<rparr>, w, None) (?s1, w1, None)"
    by (rule r_into_rtranclp, rule wait_loop [OF r])
  also have "(wait_step True L wr)\<^sup>*\<^sup>* (?s1, w1, None) (?s1\<lparr>pipe := [m2]\<rparr>, w1, Some m2)"
    by (rule r_into_rtranclp, rule wait_call [OF d(2)])
  also have "(wait_step True L wr)\<^sup>*\<^sup>* (?s1\<lparr>pipe := [m2]\<rparr>, w1, Some m2)
      (?s1\<lparr>pipe := [m2], gMainLoopCondValue := 0\<rparr>, w1, None)"
    using wait_return [of "?s1\<lparr>pipe := [m2]\<rparr>" True L wr w1 m2] by (intro r_into_rtranclp) simp
  finally have "(wait_step True L wr)\<^sup>*\<^sup>* (s, w, None) (?s1\<lparr>pipe := [m2], gMainLoopCondValue := 0\<rparr>, w1, None)" .
  then show "\<exists>s2. (wait_step True L wr)\<^sup>*\<^sup>* (s, w, None) (s2, w1, None) \<and> pipe s2 = [m2]"
    by (rule exI [of _ "?s1\<lparr>pipe := [m2], gMainLoopCondValue := 0\<rparr>", OF conjI]) simp
qed

section \<open>Concrete runs\<close>

definition main_1 :: "mem main_env" where
  "main_1 = \<lparr>m_loop = loop_1, m_pipe = 3, m_timeout = (\<lambda>_ p. p), m_watch = (\<lambda>_ _ p. (True, p))\<rparr>"

theorem mainLoop_messages_witness:
  "\<exists>r'. mainLoop main_1 (pipe_rounds 2)
     (poll_setup 3, ((lib_1 None empty_list 1)\<lparr>pipe := [msg2 CMD_NONE 0 0, msg2 CMD_QUIT 0 0]\<rparr>, mem_2)) =
     Some (False, poll_setup 3, r')"
proof -
  define r where "r = ((lib_1 None empty_list 1)\<lparr>pipe := [msg2 CMD_NONE 0 0, msg2 CMD_QUIT 0 0]\<rparr>, mem_2)"
  have l: "length (pipe (fst r)) = 2" "m_loop main_1 = loop_1"
    by (simp_all add: r_def main_1_def)
  have "poll_step\<^sup>*\<^sup>* (poll_setup (m_pipe main_1)) (poll_setup 3)"
    by (simp add: main_1_def)
  from mainLoop_messages [OF this, of r]
  have "mainLoop main_1 (pipe_rounds 2) (poll_setup 3, r) = map_option (\<lambda>(go, r). (go, poll_setup 3, r)) (main_loop loop_1 r)"
    unfolding l by (rule conjunct1)
  moreover have "\<exists>r'. main_loop loop_1 r = Some (False, r')"
    by (simp add: main_loop_def r_def read_command_def dispatchInternalCommand_def msg2_def Let_def)
  ultimately show ?thesis
    by (auto simp: r_def)
qed

theorem deliver_waits_witness:
  "\<exists>s2. (wait_step True loop_1 (e_wr env_1))\<^sup>*\<^sup>* (lib_1 None empty_list 1, mem_2, None) (s2, mem_2, None) \<and>
     pipe s2 = [msg2 CMD_SEND_LC_REGISTER 1 1]"
proof -
  have "dispatchInternalCommand loop_1 (msg2 CMD_NONE 0 0) (lib_1 None empty_list 1, mem_2) =
      Some (True, lib_1 None empty_list 1, mem_2)"
    by (simp add: dispatchInternalCommand_def msg2_def Let_def)
  moreover have "e_wr env_1 l" if "length l \<le> 1" for l
    using that by (simp add: env_1_def)
  ultimately show ?thesis
    using deliver_waits [of "lib_1 None empty_list 1" "e_wr env_1" loop_1 "msg2 CMD_NONE 0 0" mem_2 _ _ _ _ "msg2 CMD_SEND_LC_REGISTER 1 1"]
    by (simp add: lib_1_def)
qed

end
