(* ===== verification/Rb_Laws.thy ===== *)
theory Rb_Laws
  imports Tree_Helper
begin

text \<open>
  What the red-black tree guarantees to its users, for any sequence of insertions and removals: the
  operations return, they only touch nodes of the tree, the tree stays a balanced search tree, and it
  holds exactly the items a map would hold.
\<close>

section \<open>Sequences of operations\<close>

datatype 'a tree_op = Op_Insert 'a | Op_Erase 'a

fun tree_run :: "'a tree_op list \<Rightarrow> 'a jsw_rbtree \<Rightarrow> 'a jsw_rbtree option" where
  "tree_run [] t = Some t"
| "tree_run (Op_Insert x # os) t = do { (r, t) \<leftarrow> jsw_rbinsert True t x; tree_run os t }"
| "tree_run (Op_Erase x # os) t = do { (r, t, rel) \<leftarrow> jsw_rberase t x; tree_run os t }"

fun map_run :: "('a \<Rightarrow> int) \<Rightarrow> ('a \<Rightarrow> 'a) \<Rightarrow> 'a tree_op list \<Rightarrow> (int \<rightharpoonup> 'a) \<Rightarrow> (int \<rightharpoonup> 'a)" where
  "map_run key dp [] m = m"
| "map_run key dp (Op_Insert x # os) m =
     map_run key dp os (if m (key x) = None then m(key x \<mapsto> dp x) else m)"
| "map_run key dp (Op_Erase x # os) m = map_run key dp os (m(key x := None))"

context rb_item begin

lemma tree_run_rep: "rb_rep t m \<Longrightarrow> \<exists>t'. tree_run os t = Some t' \<and> rb_rep t' (map_run key dupf os m)"
proof (induction os arbitrary: t m)
  case (Cons p os)
  show ?case
  proof (cases p)
    case (Op_Insert x)
    then show ?thesis
      using store.ins_rep [OF Cons.prems, of x] Cons.IH by fastforce
  next
    case (Op_Erase x)
    then show ?thesis
      using store.era_rep [OF Cons.prems, of x] Cons.IH by fastforce
  qed
qed simp

lemma tree_run_tree:
  "\<exists>t T. tree_run os (jsw_rbnew cmpf dupf) = Some t \<and> rb_tree t T \<and>
     item_map key (inorder T) = map_run key dupf os Map.empty"
  using tree_run_rep [OF store.rep_new, of os] by (auto simp: rb_rep_def)

lemma tree_run_valid:
  "\<exists>t T. tree_run os (jsw_rbnew cmpf dupf) = Some t \<and> cmp t = cmpf \<and> root t = ad T \<and>
    tree_at (nodes t) T \<and> dom (nodes t) = set (addrs T) \<and> distinct (addrs T) \<and> rbi T \<and> \<not> rd T \<and>
    sorted_items key (inorder T) \<and> item_map key (inorder T) = map_run key dupf os Map.empty \<and>
    (\<forall>x. jsw_rbfind t x = Some (map_run key dupf os Map.empty (key x)))"
proof -
  obtain t T where t: "tree_run os (jsw_rbnew cmpf dupf) = Some t" "rb_tree t T"
    "item_map key (inorder T) = map_run key dupf os Map.empty"
    using tree_run_tree by blast
  have "jsw_rbfind t x = Some (map_run key dupf os Map.empty (key x))" for x
    using rbfind_correct [OF t(2)] t(3) by simp
  with t show ?thesis
    by (intro exI [of _ t] exI [of _ T]) (simp add: rb_tree_def)
qed

end

text \<open>
  C6: every sequence of insertions and removals, started on a new tree, returns; the nodes that are
  allocated are exactly those of the tree, so none is lost and none is used after it was freed; the
  root is black, no red node has a red child and all paths have the same number of black nodes; the
  items are in the order of their keys; and the tree holds what the map of the same operations holds,
  which is also what a search finds.
\<close>

theorem rbtree_sequences:
  assumes "\<And>x y. c y x < 0 \<longleftrightarrow> key y < key x" "\<And>x y. c y x = 0 \<longleftrightarrow> key y = key x" "\<And>x. key (dp x) = key x"
  shows "\<exists>t T. tree_run os (jsw_rbnew c dp) = Some t \<and> cmp t = c \<and> root t = ad T \<and>
    tree_at (nodes t) T \<and> dom (nodes t) = set (addrs T) \<and> distinct (addrs T) \<and> rbi T \<and> \<not> rd T \<and>
    sorted_items key (inorder T) \<and> item_map key (inorder T) = map_run key dp os Map.empty \<and>
    (\<forall>x. jsw_rbfind t x = Some (map_run key dp os Map.empty (key x)))"
  by (rule rb_item.tree_run_valid, unfold_locales) (use assms in auto)

theorem rbtree_sequences_witness:
  "\<forall>h h'. \<exists>t T. tree_run [Op_Insert (key_item.make 7 h), Op_Insert (key_item.make 9 h),
       Op_Erase (key_item.make 7 h), Op_Insert (key_item.make 8 h)]
       (jsw_rbnew kh_key_val_cmp kh_key_val_dup) = Some t \<and>
     root t = ad T \<and> tree_at (nodes t) T \<and> rbi T \<and> \<not> rd T \<and> sorted_items (\<lambda>i. - kkey i) (inorder T) \<and>
     jsw_rbfind t (key_item.make 7 h') = Some None \<and>
     jsw_rbfind t (key_item.make 8 h') = Some (Some (key_item.make 8 h))"
proof (intro allI)
  fix h h'
  let ?os = "[Op_Insert \<lparr>kkey = 7, khandle = h\<rparr>, Op_Insert \<lparr>kkey = 9, khandle = h\<rparr>,
    Op_Erase \<lparr>kkey = 7, khandle = h\<rparr>, Op_Insert \<lparr>kkey = 8, khandle = h\<rparr>]"
  obtain t and T :: "key_item atree" where t: "tree_run ?os (jsw_rbnew kh_key_val_cmp kh_key_val_dup) = Some t"
    "root t = ad T" "tree_at (nodes t) T" "rbi T" "\<not> rd T" "sorted_items (\<lambda>i. - kkey i) (inorder T)"
    "\<forall>x. jsw_rbfind t x = Some (map_run (\<lambda>i. - kkey i) kh_key_val_dup ?os Map.empty (- kkey x))"
    using rbtree_sequences [where c = kh_key_val_cmp and key = "\<lambda>i. - kkey i" and dp = kh_key_val_dup,
      OF kh.cmp_less kh.cmp_zero kh.key_dup, of ?os] by blast
  have "jsw_rbfind t \<lparr>kkey = 7, khandle = h'\<rparr> = Some None"
    "jsw_rbfind t \<lparr>kkey = 8, khandle = h'\<rparr> = Some (Some \<lparr>kkey = 8, khandle = h\<rparr>)"
    using t(7) by auto
  then show "\<exists>t T. tree_run [Op_Insert (key_item.make 7 h), Op_Insert (key_item.make 9 h),
       Op_Erase (key_item.make 7 h), Op_Insert (key_item.make 8 h)]
       (jsw_rbnew kh_key_val_cmp kh_key_val_dup) = Some t \<and>
     root t = ad T \<and> tree_at (nodes t) T \<and> rbi T \<and> \<not> rd T \<and> sorted_items (\<lambda>i. - kkey i) (inorder T) \<and>
     jsw_rbfind t (key_item.make 7 h') = Some None \<and>
     jsw_rbfind t (key_item.make 8 h') = Some (Some (key_item.make 8 h))"
    unfolding key_item.make_def using t(1-6) by blast
qed

section \<open>The cost of a search\<close>

text \<open>The search loop with a bound on the number of nodes it may look at.\<close>

fun rbfind_within :: "nat \<Rightarrow> 'a rbheap \<Rightarrow> ('a \<Rightarrow> 'a \<Rightarrow> int) \<Rightarrow> 'a \<Rightarrow> addr \<Rightarrow> addr option" where
  "rbfind_within n h c x it =
     (if it = NULL then Some NULL
      else case n of 0 \<Rightarrow> None
      | Suc n \<Rightarrow> do { d \<leftarrow> h it;
                      if c (data d) x = 0 then Some it
                      else rbfind_within n h c x (link d (c (data d) x < 0)) })"

declare rbfind_within.simps [simp del]

fun height :: "'a atree \<Rightarrow> nat" where
  "height Lf = 0"
| "height (Nd a c x l r) = Suc (max (height l) (height r))"

lemma height_bh: "rbi T \<Longrightarrow> height T \<le> 2 * bh T + (if rd T then 1 else 0)"
  by (induction T) (auto split: if_splits)

lemma bh_size: "rbi T \<Longrightarrow> 2 ^ bh T \<le> Suc (length (addrs T))"
  by (induction T) auto

lemma height_log:
  assumes "rbi T" "\<not> rd T" "length (addrs T) < 2 ^ k"
  shows "height T \<le> 2 * k"
proof -
  have "(2 :: nat) ^ bh T \<le> 2 ^ k"
    using bh_size [OF assms(1)] assms(3) by linarith
  then have "bh T \<le> k"
    by (rule power_le_imp_le_exp [rotated]) simp
  then show ?thesis
    using height_bh [OF assms(1)] assms(2) by simp
qed

lemma within_height: "tree_at h T \<Longrightarrow> height T \<le> n \<Longrightarrow>
    \<exists>b. rbfind_loop h c x (ad T) = Some b \<and> rbfind_within n h c x (ad T) = Some b"
proof (induction T arbitrary: n)
  case Lf
  then show ?case
    by (simp add: rbfind_within.simps rbfind_loop.simps)
next
  case (Nd a col y l r)
  obtain m where m: "n = Suc m" "height l \<le> m" "height r \<le> m"
    using Nd.prems(2) by (cases n) auto
  have "h a = Some \<lparr>red = col, data = y, link = lk False (ad l) (ad r)\<rparr>" "a \<noteq> NULL"
    "tree_at h l" "tree_at h r"
    using Nd.prems(1) by auto
  then show ?case
    using Nd.IH(1) [of m] Nd.IH(2) [of m] m
    by (cases "c y x < 0") (simp_all add: rbfind_within.simps [of "Suc m" h c x a] rbfind_loop.simps [of h c x a])
qed

lemma length_inorder: "length (inorder T) = length (addrs T)"
  by (induction T) auto

lemma nodes_items:
  assumes "sorted_items key (inorder T)"
  shows "card (dom (item_map key (inorder T))) = length (addrs T)"
  using distinct_card [OF sorted_items_distinct [OF assms]]
  by (simp add: dom_item_map length_inorder)

text \<open>
  C7: a search is logarithmic.  Whatever insertions and removals built the tree, when it holds fewer
  than \<open>2 ^ k\<close> items the search of \<^verbatim>\<open>jsw_rbfind\<close> ends after looking at no more than \<open>2 * k\<close> nodes.
\<close>

theorem rbfind_logarithmic:
  assumes "\<And>x y. c y x < 0 \<longleftrightarrow> key y < (key x :: int)" "\<And>x y. c y x = 0 \<longleftrightarrow> key y = key x"
    "\<And>x. key (dp x) = key x" "card (dom (map_run key dp os Map.empty)) < 2 ^ k"
  shows "\<exists>t a. tree_run os (jsw_rbnew c dp) = Some t \<and> rbfind_loop (nodes t) (cmp t) x (root t) = Some a \<and>
    rbfind_within (2 * k) (nodes t) (cmp t) x (root t) = Some a"
proof -
  have R: "rb_item c dp key"
    by unfold_locales (use assms in auto)
  obtain t T where T: "tree_run os (jsw_rbnew c dp) = Some t" "cmp t = c" "root t = ad T" "tree_at (nodes t) T"
    "rbi T" "\<not> rd T" "sorted_items key (inorder T)" "item_map key (inorder T) = map_run key dp os Map.empty"
    using rb_item.tree_run_valid [OF R, of os] by auto
  then have "height T \<le> 2 * k"
    using assms(4) nodes_items [OF T(7)] by (intro height_log) auto
  then show ?thesis
    using within_height [OF T(4), of "2 * k" c x] T(1-3) by auto
qed

theorem rbfind_logarithmic_witness:
  "\<forall>h x. \<exists>t a. tree_run [Op_Insert (key_item.make 7 h), Op_Insert (key_item.make 9 h),
       Op_Insert (key_item.make 8 h)] (jsw_rbnew kh_key_val_cmp kh_key_val_dup) = Some t \<and>
     rbfind_loop (nodes t) (cmp t) x (root t) = Some a \<and>
     rbfind_within 4 (nodes t) (cmp t) x (root t) = Some a"
  using rbfind_logarithmic [of kh_key_val_cmp "\<lambda>i. - kkey i" kh_key_val_dup
    "[Op_Insert (key_item.make 7 _), Op_Insert (key_item.make 9 _), Op_Insert (key_item.make 8 _)]" 2]
    kh.cmp_less kh.cmp_zero by (simp add: key_item.make_def)

end
