(* ===== verification/Client_Tool.thy ===== *)
theory Client_Tool
  imports Lifecycle C_Stdlib
begin

text \<open>
  The command line tool of the library (\<^verbatim>\<open>src/tools/persistence_client_tool.c\<close>): it initialises the
  library for an application, reads, writes, sizes or deletes one key, with a file as the source or the
  target of the data, and shuts the library down.  What is printed is a list with one string for each
  call of \<^verbatim>\<open>printf\<close>.  The environment holds what the library's own models take, the answers of the
  allocator, and the bytes that uninitialised memory holds.
\<close>

section \<open>Environment\<close>

record 'w tool_env =
  t_loop :: "'w loop_env"
  t_file :: file_env
  t_init :: init_env
  t_call :: "nat \<Rightarrow> call_env"
  t_mem :: bool
  t_junk :: "nat \<Rightarrow> 8 word"
  t_lock :: bool
  t_strerror :: string

definition tool_app :: "string \<Rightarrow> 'w tool_env \<Rightarrow> 'w tool_env" where
  "tool_app app T =
     T\<lparr>t_loop := (t_loop T)\<lparr>l_env := (l_env (t_loop T))\<lparr>e_app := c_copy (resp_len (e_pco (l_env (t_loop T)))) app\<rparr>\<rparr>\<rparr>"

abbreviation tool_lib :: "'w tool_env \<Rightarrow> 'w env" where
  "tool_lib T \<equiv> l_env (t_loop T)"

datatype eOperationMode = modeReadKey | modeWriteKey | modeDeleteKey | modeGetKeySize | modeInvalid

record tool_args =
  opMode :: eOperationMode
  appName :: "string option"
  resourceID :: "string option"
  payloadBuffer :: "string option"
  fileName :: "string option"
  user_arg :: "32 word"
  seat_arg :: "32 word"
  ldbid_arg :: "32 word"
  doHexdump :: bool

section \<open>Printing\<close>

text \<open>The string that a buffer of bytes holds.\<close>

definition b_str :: "byte_buf \<Rightarrow> string option" where
  "b_str buf = c_str (chars_of buf)"

text \<open>The conversion \<^verbatim>\<open>%3d\<close> of a number that is not negative.\<close>

definition fmt_3d :: "nat \<Rightarrow> string" where
  "fmt_3d n = (let s = show_base 10 n in replicate (3 - length s) (CHR '' '') @ s)"

fun hex_rows :: "nat \<Rightarrow> nat \<Rightarrow> nat \<Rightarrow> 8 word list \<Rightarrow> string list" where
  "hex_rows n i j [] = []"
| "hex_rows n i j (b # bs) =
     (show_base 16 (unat b) @ '' '')
       # (if (i + 1) mod n = 0 then (nl @ ''   ['' @ fmt_3d (n * (j + 1)) @ ''] - '') # hex_rows n (i + 1) (j + 1) bs
          else hex_rows n (i + 1) j bs)"

definition hex_rule :: string where
  "hex_rule = ''   '' @ replicate 57 (CHR ''-'') @ nl"

definition printHexDump :: "byte_buf \<Rightarrow> nat \<Rightarrow> string list option" where
  "printHexDump buf n =
     map_option (\<lambda>s.
       if length s \<noteq> 0 then
         [nl @ ''   HEXDUMP:'' @ nl, hex_rule @ ''   ['' @ fmt_3d (n * 0) @ ''] - '']
           @ hex_rows n 0 0 (take (length s) buf) @ [nl @ hex_rule @ nl]
       else []) (b_str buf)"

definition hex_dump :: "bool \<Rightarrow> byte_buf \<Rightarrow> int \<Rightarrow> string list option" where
  "hex_dump hex buf nbytes = (if hex then printHexDump buf (if nbytes \<ge> 120 then 16 else 8) else Some [])"

definition tool_title :: "string \<Rightarrow> 32 word \<Rightarrow> 32 word \<Rightarrow> 32 word \<Rightarrow> string" where
  "tool_title f user seat ldb =
     ''- '' @ f @ '' - User: '' @ fmt_u user @ '' - Seat: '' @ fmt_u seat @ '' - ldbid: 0x'' @ fmt_x ldb @ nl @ nl"

definition quoted :: "string \<Rightarrow> string" where
  "quoted s = [CHR 0x22] @ s @ [CHR 0x22]"

section \<open>The operations on a key\<close>

definition readKey ::
  "'w tool_env \<Rightarrow> string \<Rightarrow> 32 word \<Rightarrow> 32 word \<Rightarrow> 32 word \<Rightarrow> bool \<Rightarrow> byte_buf \<Rightarrow> int \<Rightarrow> ('w, 'x) run
    \<Rightarrow> (int \<times> byte_buf \<times> string list \<times> ('w, 'x) run) option" where
  "readKey T rid user seat ldb hex buf nbytes = (\<lambda>(s, w).
     do { (rval, buf, s, w) \<leftarrow> pclKeyReadData (tool_lib T) (t_call T 1) ldb rid user seat buf nbytes s w;
          line \<leftarrow> (if rval \<ge> 0 then map_option (\<lambda>d. ''   Data      : '' @ quoted d @ nl) (b_str buf)
                   else Some (''Failed to read: '' @ fmt_d rval @ nl));
          dump \<leftarrow> hex_dump hex buf nbytes;
          Some (rval, buf, [tool_title ''readKey'' user seat ldb, ''   ResourceID: '' @ quoted rid @ nl, line] @ dump,
                s, w) })"

definition writeKey ::
  "'w tool_env \<Rightarrow> string \<Rightarrow> 32 word \<Rightarrow> 32 word \<Rightarrow> 32 word \<Rightarrow> byte_buf \<Rightarrow> bool \<Rightarrow> ('w, 'x) run
    \<Rightarrow> (int \<times> string list \<times> ('w, 'x) run) option" where
  "writeKey T rid user seat ldb buf hex = (\<lambda>(s, w).
     do { d \<leftarrow> b_str buf;
          (nbytes, s, w) \<leftarrow> pclKeyWriteData (tool_lib T) (t_call T 1) ldb rid user seat buf (c_int (int (length d))) s w;
          dump \<leftarrow> hex_dump hex buf nbytes;
          Some (0, [tool_title ''writeKey'' user seat ldb, ''   ResourceID: '' @ quoted rid @ nl,
                    ''   Data      : '' @ quoted d @ nl] @ dump, s, w) })"

definition deletekey ::
  "'w tool_env \<Rightarrow> string \<Rightarrow> 32 word \<Rightarrow> 32 word \<Rightarrow> 32 word \<Rightarrow> ('w, 'x) run
    \<Rightarrow> (int \<times> string list \<times> ('w, 'x) run) option" where
  "deletekey T rid user seat ldb = (\<lambda>(s, w).
     do { (rval, s, w) \<leftarrow> pclKeyDelete (tool_lib T) (t_call T 1) ldb rid user seat s w;
          Some (rval, (''deletekey - ResourceID: '' @ quoted rid @ '' - User: '' @ fmt_u user @ '' - Seat: '' @ fmt_u seat
                         @ '' - ldbid: 0x'' @ fmt_x ldb @ nl)
                      # (if rval < 0 then [''Failed to deletekey: '' @ fmt_d rval @ nl] else []), s, w) })"

definition getkeysize ::
  "'w tool_env \<Rightarrow> string \<Rightarrow> 32 word \<Rightarrow> 32 word \<Rightarrow> 32 word \<Rightarrow> ('w, 'x) run
    \<Rightarrow> (int \<times> string list \<times> ('w, 'x) run) option" where
  "getkeysize T rid user seat ldb = (\<lambda>(s, w).
     do { (rval, s, w) \<leftarrow> pclKeyGetSize (tool_lib T) (t_call T 1) ldb rid user seat s w;
          Some (rval, [tool_title ''getkeysize'' user seat ldb, ''   ResourceID: '' @ quoted rid @ nl,
                       ''   KeySize: '' @ fmt_d rval @ nl], s, w) })"

section \<open>Files\<close>

definition sys_ftruncate :: "int \<Rightarrow> int \<Rightarrow> disk \<Rightarrow> int \<times> disk" where
  "sys_ftruncate h n d =
     (case descs d h of
        None \<Rightarrow> (-1, d)
      | Some e \<Rightarrow>
          if d_wr e \<and> 0 \<le> n then
            (0, d\<lparr>inodes := (inodes d)(d_ino e := take (nat n) (inodes d (d_ino e))
                                         @ replicate (nat n - length (inodes d (d_ino e))) 0)\<rparr>)
          else (-1, d))"

definition writeDataToFile ::
  "'w tool_env \<Rightarrow> string \<Rightarrow> byte_buf \<Rightarrow> int \<Rightarrow> disk \<Rightarrow> int \<times> string list \<times> disk" where
  "writeDataToFile T file buf nbytes d =
     (case sys_create (v_os (t_file T)) True True file d of
        (Opened h, d) \<Rightarrow>
          (let (rval, d) = sys_ftruncate h nbytes d in
           if rval \<noteq> -1 then
             let (rval, d) = sys_write (v_os (t_file T)) h (take (nat nbytes) buf) d
             in (rval, if rval = -1 then [''Failed to write to file: '' @ file @ '' - '' @ t_strerror T @ nl] else [],
                 snd (sys_close h d))
           else (rval, [], snd (sys_close h d)))
      | (_, d) \<Rightarrow> (0, [''Failed to open file: '' @ file @ '' - '' @ t_strerror T @ nl], d))"

text \<open>
  A regular file as a buffer on the heap, \<open>Inl\<close> when the program exits: the last byte of the file is not
  read, and its place in the buffer keeps what the memory held.
\<close>

definition readDataFromFile ::
  "'w tool_env \<Rightarrow> string \<Rightarrow> disk \<Rightarrow> (unit + byte_buf option) \<times> string list \<times> disk" where
  "readDataFromFile T file d =
     (case content d file of
        None \<Rightarrow> (Inl (), [''Failed to stat file'' @ nl], d)
      | Some bs \<Rightarrow>
          if length bs > 0 then
            case sys_open (v_os (t_file T)) True False False file d of
              (Opened h, d) \<Rightarrow>
                if t_mem T then
                  let (readSize, rd, d) = sys_read h (int (length bs) - 1) d
                  in (Inr (Some (rd @ map (t_junk T) [length rd..<length bs])),
                      if readSize < 0 then [''Failed to read data: '' @ fmt_d readSize @ nl] else [],
                      snd (sys_close h d))
                else (Inl (), [''Failed to allocate memory'' @ nl], d)
            | (_, d) \<Rightarrow> (Inr None, [''Failed to open file: '' @ file @ '' - '' @ t_strerror T @ nl], d)
          else (Inl (), [''Empty file'' @ nl], d))"

section \<open>The command line\<close>

definition printSynopsis :: "string list" where
  "printSynopsis =
     [''Usage: persistence_client_tool [-o <action to do>] [-a <application name>] [-r <resource id>] [-l <logical db id>]'' @ nl,
      ''                       [-u <user no>] [-s <seat no>] [-f <file>] [-p <payload>] [-H] [-h] [-v]'' @ nl,
      nl,
      ''-o, --option=<action to do>   The possible actions are:'' @ nl,
      ''                              readkey    - read out the given key'' @ nl,
      ''                              writekey   - write something to a key'' @ nl,
      ''                              deletekey  - delete a key'' @ nl,
      ''                              getkeysize - get the size of a key'' @ nl,
      ''-a, --appname=<application name>   The Application Name used for the initialization of the PCL'' @ nl,
      ''-f, --file=<filename>              The file for data import or export'' @ nl,
      ''-p, --payload=<payload>            The data to be written to a key if no file is specified as source.'' @ nl,
      ''-r, --resource_id=<resource id>    The resource ID is the name of the key to process'' @ nl,
      ''-l, --ldbid=<logical db id>        Logical Database ID in hex notation! e.g. 0xFF. If not specified the default value '' @ [CHR 0x27] @ ''0xFF'' @ [CHR 0x27] @ '' is used'' @ nl,
      ''-u, --user_no=<user no>            The user number. If not specified the default value '' @ [CHR 0x27] @ ''0'' @ [CHR 0x27] @ '' is used'' @ nl,
      ''-s, --seat_no=<seat no>            The seat number. If not specified the default value '' @ [CHR 0x27] @ ''0'' @ [CHR 0x27] @ '' is used'' @ nl,
      ''-H, --forcehexdump                 Force print out a HexDump of the written/read data'' @ nl,
      ''-h, --help                         Print help message'' @ nl,
      ''-V, --version                      Print program version'' @ nl,
      nl,
      ''Examples:'' @ nl,
      ''1.) Read a Key and show value as HexDump:'' @ nl,
      ''    persistence_client_tool -o readkey -a MyApplication -r MyKey                   optional parameters: [-l 0xFF -u 0 -s 0]'' @ nl,
      ''2.) Read a Key into a file:'' @ nl,
      ''    persistence_client_tool -o readkey -a MyApplication -r MyKey -f outfile.bin    optional parameters: [-l 0xFF -u 0 -s 0 -H]'' @ nl,
      ''3.) Write a Key and use the <payload> as the data source.:'' @ nl,
      ''    persistence_client_tool -o writekey -a MyApplication -r MyKey -p '' @ [CHR 0x27] @ ''Hello World'' @ [CHR 0x27] @ '' optional parameters: [-l 0xFF -u 0 -s 0 -H]'' @ nl,
      ''4.) Write a Key and use a file as the data source.:'' @ nl,
      ''    persistence_client_tool -o writekey -a MyApplication -r MyKey -f infile.bin    optional parameters: [-l 0xFF -u 0 -s 0 -H]'' @ nl,
      ''5.) Get the size of a key [bytes]:'' @ nl,
      ''    persistence_client_tool -o getkeysize -a MyApplication -r MyKey                optional parameters: [-l 0xFF -u 0 -s 0]'' @ nl,
      ''6.) Delete a key:'' @ nl,
      ''    persistence_client_tool -o deletekey -a MyApplication -r MyKey                 optional parameters: [-l 0xFF -u 0 -s 0]'' @ nl]"

definition tool_defaults :: tool_args where
  "tool_defaults =
     \<lparr>opMode = modeInvalid, appName = None, resourceID = None, payloadBuffer = None, fileName = None,
       user_arg = 0, seat_arg = 0, ldbid_arg = 0xFF, doHexdump = False\<rparr>"

text \<open>
  One option: what is printed, and the arguments, or nothing when the program exits.  The outer \<open>None\<close>
  is the undefined behaviour of a number that is no int.
\<close>

definition tool_option :: "bool \<Rightarrow> opt \<Rightarrow> tool_args \<Rightarrow> (string list \<times> tool_args option) option" where
  "tool_option mem = (\<lambda>(c, optarg) a.
     let copy = (if mem then Some optarg else None) in
     if c = CHR ''o'' then
       if optarg = ''readkey'' then Some ([], Some (a\<lparr>opMode := modeReadKey\<rparr>))
       else if optarg = ''writekey'' then Some ([], Some (a\<lparr>opMode := modeWriteKey\<rparr>))
       else if optarg = ''deletekey'' then Some ([], Some (a\<lparr>opMode := modeDeleteKey\<rparr>))
       else if optarg = ''getkeysize'' then Some ([], Some (a\<lparr>opMode := modeGetKeySize\<rparr>))
       else Some ((''Unsupported Unsupported mode: '' @ optarg @ [CHR 0x22] @ nl @ [CHR 0x22]) # printSynopsis, None)
     else if c = CHR ''a'' then Some ([], Some (a\<lparr>appName := copy\<rparr>))
     else if c = CHR ''r'' then Some ([], Some (a\<lparr>resourceID := copy\<rparr>))
     else if c = CHR ''p'' then Some ([], Some (a\<lparr>payloadBuffer := copy\<rparr>))
     else if c = CHR ''f'' then Some ([], Some (a\<lparr>fileName := copy\<rparr>))
     else if c = CHR ''u'' then map_option (\<lambda>n. ([], Some (a\<lparr>user_arg := unsigned_of n\<rparr>))) (atoi optarg)
     else if c = CHR ''s'' then map_option (\<lambda>n. ([], Some (a\<lparr>seat_arg := unsigned_of n\<rparr>))) (atoi optarg)
     else if c = CHR ''l'' then Some ([], Some (a\<lparr>ldbid_arg := unsigned_of (strtol 16 optarg)\<rparr>))
     else if c = CHR ''H'' then Some ([], Some (a\<lparr>doHexdump := True\<rparr>))
     else if c = CHR ''h'' then Some (printSynopsis, Some a)
     else if c = CHR ''v'' then Some ([''Version: 0.1'' @ nl], Some a)
     else Some (printSynopsis, None))"

fun tool_options :: "bool \<Rightarrow> opt list \<Rightarrow> tool_args \<Rightarrow> (string list \<times> tool_args option) option" where
  "tool_options mem [] a = Some ([], Some a)"
| "tool_options mem (x # xs) a =
     (case tool_option mem x a of
        None \<Rightarrow> None
      | Some (out, None) \<Rightarrow> Some (out, None)
      | Some (out, Some a) \<Rightarrow> map_option (\<lambda>(out', r). (out @ out', r)) (tool_options mem xs a))"

definition tool_optstring :: string where
  "tool_optstring = ''hVo:a:u:s:r:-l:p:f:H''"

section \<open>The program\<close>

definition run_disk :: "(disk \<Rightarrow> 'r \<times> string list \<times> disk) \<Rightarrow> ('w, 'x) run \<Rightarrow> 'r \<times> string list \<times> ('w, 'x) run" where
  "run_disk f = (\<lambda>(s, w). case f (gDisk s) of (r, out, d) \<Rightarrow> (r, out, s\<lparr>gDisk := d\<rparr>, w))"

definition tool_read ::
  "'w tool_env \<Rightarrow> tool_args \<Rightarrow> string \<Rightarrow> ('w, 'x) run \<Rightarrow> (string list \<times> ('w, 'x) run) option" where
  "tool_read T a rid = (\<lambda>(s, w).
     do { (keysize, s, w) \<leftarrow> pclKeyGetSize (tool_lib T) (t_call T 0) (ldbid_arg a) rid (user_arg a) (seat_arg a) s w;
          if keysize > 0 then
            if t_mem T then
              do { (r, buf, out, s, w) \<leftarrow> readKey T rid (user_arg a) (seat_arg a) (ldbid_arg a) (doHexdump a)
                                            (replicate (nat keysize + 1) 0) keysize (s, w);
                   (case fileName a of
                      Some f \<Rightarrow>
                        (let (r, out', s, w) = run_disk (writeDataToFile T f buf keysize) (s, w)
                         in Some (out @ out', s, w))
                    | None \<Rightarrow> Some (out, s, w)) }
            else Some ([], s, w)
          else Some ([''readkey: key is empty: '' @ fmt_d keysize @ nl], s, w) })"

text \<open>The result says first whether the program goes on.\<close>

definition tool_write ::
  "'w tool_env \<Rightarrow> tool_args \<Rightarrow> string \<Rightarrow> ('w, 'x) run \<Rightarrow> (bool \<times> string list \<times> ('w, 'x) run) option" where
  "tool_write T a rid r =
     (let (src, out, r) = (case fileName a of
            Some f \<Rightarrow> run_disk (readDataFromFile T f) r
          | None \<Rightarrow> (Inr (map_option (\<lambda>p. bytes_of p @ [0]) (payloadBuffer a)), [], r))
      in case src of
           Inl _ \<Rightarrow> Some (False, out, r)
         | Inr None \<Rightarrow> Some (True, out @ [''No Data to write to key'' @ nl], r)
         | Inr (Some buf) \<Rightarrow>
             map_option (\<lambda>(_, out', r). (True, out @ out', r))
               (writeKey T rid (user_arg a) (seat_arg a) (ldbid_arg a) buf (doHexdump a) r))"

definition tool_action ::
  "'w tool_env \<Rightarrow> tool_args \<Rightarrow> string \<Rightarrow> ('w, 'x) run \<Rightarrow> (bool \<times> string list \<times> ('w, 'x) run) option" where
  "tool_action T a rid r =
     (case opMode a of
        modeReadKey \<Rightarrow> map_option (\<lambda>(out, r). (True, out, r)) (tool_read T a rid r)
      | modeWriteKey \<Rightarrow> tool_write T a rid r
      | modeDeleteKey \<Rightarrow>
          map_option (\<lambda>(_, out, r). (True, out, r)) (deletekey T rid (user_arg a) (seat_arg a) (ldbid_arg a) r)
      | modeGetKeySize \<Rightarrow>
          map_option (\<lambda>(_, out, r). (True, out, r)) (getkeysize T rid (user_arg a) (seat_arg a) (ldbid_arg a) r)
      | modeInvalid \<Rightarrow> Some (True, printSynopsis, r))"

text \<open>
  The program on the words of its command line: its exit status, what it prints and the state it leaves.
  The messages it sends to the main loop are worked off when the library is deinitialised.
\<close>

definition tool_main ::
  "'w tool_env \<Rightarrow> string list \<Rightarrow> ('w, 'x) run \<Rightarrow> (int \<times> string list \<times> ('w, 'x) run) option" where
  "tool_main T args r =
     (case tool_options (t_mem T) (getopt tool_optstring args) tool_defaults of
        None \<Rightarrow> None
      | Some (out, None) \<Rightarrow> Some (1, nl # out, r)
      | Some (out, Some a) \<Rightarrow>
          (case (appName a, resourceID a) of
             (Some app, Some rid) \<Rightarrow>
               let T = tool_app app T in
               do { (_, r) \<leftarrow> pclInitLibrary (tool_lib T) (t_file T) (t_init T) (Some app) PCL_SHUTDOWN_TYPE_NONE r;
                    (go, out', r) \<leftarrow> tool_action T a rid r;
                    let out = nl # out @ [''Application name: '' @ app @ nl] @ out';
                    if go then
                      do { (_, r) \<leftarrow> pclDeinitLibrary (t_loop T) (t_lock T)
                                      (snd (pclLifecycleSet (e_wr (tool_lib T)) PCL_SHUTDOWN (fst r)), snd r);
                           Some (0, out @ [nl], r) }
                    else Some (1, out, r) }
           | _ \<Rightarrow> Some (1, nl # out @ [''Invalid application name or resourceID'' @ nl], r)))"

end
