(* ===== verification/Tool_Laws.thy ===== *)
theory Tool_Laws
  imports Client_Tool Lifecycle_Laws
begin

text \<open>
  What the command line tool does: its options say what the caller wrote, a value it exports is the
  contents of the file, and a file it imports loses its last byte.
\<close>

section \<open>Options\<close>

lemma strtol_0x [simp]: "unsigned_of (strtol 16 (''0x'' @ fmt_x w)) = w"
proof -
  obtain c t where f: "fmt_x w = c # t"
    by (cases "fmt_x w") (auto simp: fmt_x_def)
  have "c \<in> set (show_base 16 (unat w))"
    using f by (simp add: fmt_x_def)
  then have "is_hex c"
    using show_base_vals [of 16 "unat w"] by (auto simp: is_hex_def)
  then have "hex_prefix 16 (''0x'' @ fmt_x w) = fmt_x w"
    by (simp add: hex_prefix_def f)
  then have "strtol 16 (''0x'' @ fmt_x w) = strtol 16 (fmt_x w)"
    using show_base_plain [of 16 "unat w"] by (simp add: strtol_def fmt_x_def is_space_def Let_def)
  then show ?thesis
    by simp
qed

lemma opt_kinds:
  "opt_kind tool_optstring c = (if c \<in> {CHR ''o'', CHR ''a'', CHR ''u'', CHR ''s'', CHR ''r'', CHR ''l'', CHR ''p'', CHR ''f''} then Some True
     else if c \<in> {CHR ''h'', CHR ''V'', CHR ''-'', CHR ''H''} then Some False else None)"
  by (simp add: opt_kind_def tool_optstring_def)

lemma getopt_arg: "opt_kind spec c = Some True \<Longrightarrow> c \<noteq> CHR ''-'' \<Longrightarrow>
    getopt spec ([CHR ''-'', c] # x # args) = (c, x) # getopt spec args"
  by simp

text \<open>
  C38: the options say what the caller means: whatever the names, the numbers and the payload are, also
  when they are empty or begin with a dash, the tool gets exactly them.
\<close>

theorem tool_options_roundtrip:
  "tool_options True (getopt tool_optstring
       [''-o'', ''writekey'', ''-a'', app, ''-r'', rid, ''-l'', ''0x'' @ fmt_x ldb, ''-u'', fmt_d (sint user), ''-s'', fmt_d (sint seat),
        ''-p'', payload]) tool_defaults =
     Some ([], Some \<lparr>opMode = modeWriteKey, appName = Some app, resourceID = Some rid, payloadBuffer = Some payload,
                fileName = None, user_arg = user, seat_arg = seat, ldbid_arg = ldb, doHexdump = False\<rparr>)"
  using strtol_0x [of ldb]
  by (simp add: getopt_arg opt_kinds tool_option_def tool_defaults_def Let_def del: getopt.simps(2))

section \<open>Files\<close>

definition plain_file :: "'w tool_env \<Rightarrow> string \<Rightarrow> disk \<Rightarrow> bool" where
  "plain_file T f d \<longleftrightarrow>
     os_permits (v_os (t_file T)) UNIV \<and> disk_ok d \<and> comps f \<noteq> [] \<and> butlast (comps f) \<in> dirs d \<and> comps f \<notin> dirs d"

lemma writeDataToFile_content:
  assumes "plain_file T f d" "nat n \<le> length buf" "0 \<le> n"
  shows "\<exists>d'. writeDataToFile T f buf n d = (n, [], d') \<and> content d' f = Some (take (nat n) buf)"
proof -
  obtain i d1 where c: "sys_create (v_os (t_file T)) True True f d =
      (Opened (os_fd (v_os (t_file T)) d), add_fd (os_fd (v_os (t_file T)) d) \<lparr>d_ino = i, d_pos = 0, d_rd = True, d_wr = True\<rparr> d1)"
    "names d1 (comps f) = Some i" "inodes d1 i = []"
    using sys_create_file [of "v_os (t_file T)" d f True True] assms(1) by (auto simp: plain_file_def)
  have w: "os_written (v_os (t_file T)) k = int k" for k
    using assms(1) by (simp add: plain_file_def os_permits_def)
  have "put_at 0 xs (replicate (nat n) 0) = xs" if "length xs = nat n" for xs :: byte_buf
    using that by (simp add: put_at_def)
  then show ?thesis
    using c w assms(2,3)
    by (simp add: writeDataToFile_def sys_ftruncate_def sys_write_def sys_close_def content_def min_def add_fd_def Let_def)
qed

lemma readDataFromFile_content:
  assumes "content d f = Some bs" "bs \<noteq> []" "os_may_open (v_os (t_file T)) (comps f)" "t_mem T"
  shows "\<exists>d'. readDataFromFile T f d = (Inr (Some (butlast bs @ [t_junk T (length bs - 1)])), [], d')"
proof -
  obtain i where i: "names d (comps f) = Some i" "inodes d i = bs"
    using assms(1) by (auto simp: content_def)
  have k: "nat (int (length bs) - 1) = length bs - 1" "0 \<le> int (length bs) - 1"
    using assms(2) by (cases bs; simp)+
  have "[length bs - 1..<length bs] = [length bs - 1]"
    using assms(2) by (cases bs) auto
  then show ?thesis
    using i assms k
    by (simp add: readDataFromFile_def sys_open_file sys_read_def butlast_conv_take Let_def)
qed

lemma char_NUL: "char_of (unat b) = NUL \<longleftrightarrow> b = 0" for b :: "8 word"
proof
  assume "char_of (unat b) = NUL"
  then have "of_char (char_of (unat b)) = (0 :: nat)"
    by simp
  then have "unat b mod 256 = 0"
    by simp
  moreover have "unat b < 256"
    using unsigned_less [of b] by simp
  ultimately show "b = 0"
    by (simp add: unat_eq_0)
qed (simp add: char_of_def)

lemma b_str_bytes: "NUL \<notin> set p \<Longrightarrow> b_str (bytes_of p @ 0 # t) = Some p"
  using c_str_NUL [of p "chars_of t"] chars_of_bytes [of p] by (simp add: b_str_def chars_of_def char_of_def)

text \<open>
  C37: a file that is imported loses its last byte: the tool reads all but the last byte and hands a string
  to the library that has no end.  If the memory behind the bytes happens to hold a zero, the key gets the
  contents without the last byte, and otherwise the tool reads behind its buffer.
\<close>

theorem tool_import_drops:
  assumes "content (gDisk s) f = Some bs" "bs \<noteq> []" "0 \<notin> set bs" "length bs < 2 ^ 31"
    and "os_may_open (v_os (t_file T)) (comps f)" "t_mem T" "fileName a = Some f" "\<not> doHexdump a"
  shows "\<exists>d out. tool_write T a rid (s, w) =
    (if t_junk T (length bs - 1) = 0 then
       map_option (\<lambda>(r, s, w). (True, out, s, w))
         (pclKeyWriteData (tool_lib T) (t_call T 1) (ldbid_arg a) rid (user_arg a) (seat_arg a)
            (butlast bs @ [0]) (int (length bs) - 1) (s\<lparr>gDisk := d\<rparr>) w)
     else None)"
proof -
  let ?buf = "butlast bs @ [t_junk T (length bs - 1)]"
  obtain d where r: "run_disk (readDataFromFile T f) (s, w) = (Inr (Some ?buf), [], s\<lparr>gDisk := d\<rparr>, w)"
    using readDataFromFile_content [OF assms(1,2,5,6)] by (auto simp: run_disk_def)
  have z: "0 \<notin> set (butlast bs)"
    using assms(3) in_set_butlastD by fast
  then have n: "NUL \<notin> set (chars_of (butlast bs))"
    using char_NUL by (metis (no_types, lifting) chars_of_def image_iff list.set_map)
  show ?thesis
  proof (cases "t_junk T (length bs - 1) = 0")
    case True
    have "b_str ?buf = Some (chars_of (butlast bs))"
      using n c_str_NUL [of "chars_of (butlast bs)" "[]"] True by (simp add: b_str_def chars_of_def char_of_def)
    moreover have "length (chars_of (butlast bs)) = length bs - 1" "int (length bs - 1) = int (length bs) - 1"
      using assms(2) by (cases bs; simp add: chars_of_def)+
    moreover have "c_int (int (length bs) - 1) = int (length bs) - 1"
      using assms(4) by simp
    ultimately show ?thesis
      using r True assms(7,8)
      by (intro exI [of _ d] exI [of _ "[tool_title ''writeKey'' (user_arg a) (seat_arg a) (ldbid_arg a),
          ''   ResourceID: '' @ quoted rid @ nl, ''   Data      : '' @ quoted (chars_of (butlast bs)) @ nl]"],
          cases "pclKeyWriteData (tool_lib T) (t_call T 1) (ldbid_arg a) rid (user_arg a) (seat_arg a)
            (butlast bs @ [0]) (int (length bs) - 1) (s\<lparr>gDisk := d\<rparr>) w")
        (simp_all add: tool_write_def writeKey_def hex_dump_def case_prod_beta)
  next
    case False
    then have "b_str ?buf = None"
      using n char_NUL [of "t_junk T (length bs - 1)"] by (auto simp: b_str_def c_str_def chars_of_def)
    then show ?thesis
      using r False assms(7) by (simp add: tool_write_def writeKey_def)
  qed
qed

section \<open>A value that is written and exported\<close>

lemma stored_value:
  assumes "store_plugin (db_of s) nf mx view" "stored_locally (e_pco E) info"
    and "db_open_at (e_pco E) info (cpolicy (configKey info)) h s" "view w h key = Some v"
  shows "persistence_get_data_size E p key res info s w = Some (int (length v), s, w)"
    and "int (length v) \<le> m \<Longrightarrow>
      persistence_get_data E p key res info buf m s w = Some (int (length v), v @ drop (length v) buf, s, w)"
proof -
  have h: "0 \<le> h"
    using assms(3) by (simp add: db_open_at_def)
  have "storage_shared (e_pco E) = cstorage (configKey info) \<or> storage_local (e_pco E) = cstorage (configKey info)"
    using assms(2) by (auto simp: stored_locally_def)
  moreover obtain sz where "db_size (db_of s) = Some sz" "sz h key w = (int (length v), w)"
    using assms(1,4) by (auto simp: store_plugin_def size_result_def)
  ultimately show "persistence_get_data_size E p key res info s w = Some (int (length v), s, w)"
    using database_get_open [OF assms(3)] h
    by (simp add: persistence_get_data_size_def persistence_read_def read_database_def Let_def)
  obtain rd where rd: "db_read (db_of s) = Some rd"
    "rd h key buf m w = (fst (read_result nf (view w h key) buf m), snd (read_result nf (view w h key) buf m), w)"
    using store_read [OF assms(1)] by metis
  moreover assume "int (length v) \<le> m"
  ultimately have "rd h key buf m w = (int (length v), v @ drop (length v) buf, w)"
    using assms(4) by (simp add: read_result_def nat_le_iff)
  then show "persistence_get_data E p key res info buf m s w = Some (int (length v), v @ drop (length v) buf, s, w)"
    using rd(1) database_get_open [OF assms(3)] h assms(2)
    by (auto simp: persistence_get_data_def persistence_read_def read_database_def stored_locally_def Let_def)
qed

lemma database_get_disk:
  "database_get E info p t s w = Some (h, s', w') \<Longrightarrow> gDisk (s' :: ('w, 'x) lib_state_scheme) = gDisk s"
  by (auto simp: database_get_def Let_def split: if_splits option.splits prod.splits)

text \<open>A key that was written has the size of what was written, and is read as that.\<close>

lemma key_write_size_read:
  fixes s :: "('w, 'x) lib_state_scheme"
  assumes "store_plugin (db_of s) nf mx view" "pure_rct (rct_of s)" "pco_ok (e_pco E)"
    and "gPclInitCounter s > 0" "c_key_lock C" "gLockAccess s \<noteq> 1" "e_wr E (pipe s)"
    and "key_context E C ldb rid user seat s w = Some (x, s0, w0)" "may_write E x"
    and "stored_locally (e_pco E) (res_info x)" "user \<noteq> PCL_USER_DEFAULTDATA"
    and "database_get E (res_info x) (res_path x) (cpolicy (res_config x)) s0 w0 = Some (h, s1, w1)" "0 \<le> h"
    and n: "0 \<le> n" "n \<le> mx" "n \<le> max_key_data (e_pco E)" "n \<le> int (length d)"
  shows "\<exists>s2 w2. pclKeyWriteData E C ldb rid user seat d n s w = Some (n, s2, w2) \<and> gDisk s2 = gDisk s \<and>
    pclKeyGetSize E C ldb rid user seat s2 w2 = Some (n, s2, w2) \<and>
    pclKeyReadData E C ldb rid user seat buf n s2 w2 = Some (n, take (nat n) d @ drop (nat n) buf, s2, w2)"
proof -
  obtain p where p: "s0 = s\<lparr>prct := p\<rparr>"
    using assms(8) by (auto simp: key_context_def)
  have u: "ctx_user (dbctx (res_info x)) \<noteq> PCL_USER_DEFAULTDATA"
    using key_context_user [OF assms(3,8)] assms(11) by simp
  define s2 where "s2 = s1\<lparr>pipe := pipe s1 @ signals E rid (res_info x) pclNotifyStatus_changed\<rparr>"
  have "store_plugin (db_of s0) nf mx view" "e_wr E (pipe s0)"
    using assms(1,7) p by simp_all
  then obtain w2 where w: "write_database E (res_path x) (res_key x) rid (res_info x) d n s0 w0 = Some (n, s2, w2)"
    "view w2 h (res_key x) = Some (take (nat n) d)"
    using write_database_stored [where s = s0, OF _ n(1,2,4) _ u assms(12,13), of nf view "res_key x" rid]
    unfolding s2_def by auto
  have W: "persistence_set_data E (res_path x) (res_key x) rid (res_info x) d n s0 w0 = Some (n, s2, w2)"
    using w(1) assms(10) by (auto simp: persistence_set_data_def stored_locally_def Let_def)
  have o: "db_open_at (e_pco E) (res_info x) (cpolicy (res_config x)) h s2"
    using database_get_result_open [OF assms(12,13)] by (simp add: s2_def)
  have fr: "gPclInitCounter s2 = gPclInitCounter s" "gLockAccess s2 = gLockAccess s" "loader s2 = loader s"
    "prct s2 = prct s0" "gDisk s2 = gDisk s"
    using set_data_frame [OF assms(10) W] database_get_disk [OF assms(12)] p by (simp_all add: s2_def)
  have k: "key_context E C ldb rid user seat s2 w2 = Some (x, s2, w2)"
    using key_context_again [OF assms(2,8) fr(3,4)] by simp
  have st: "store_plugin (db_of s2) nf mx view" "int (length (take (nat n) d)) = n" "length (take (nat n) d) = nat n"
    using assms(1) fr(3) n by simp_all
  have "pclKeyWriteData E C ldb rid user seat d n s w = Some (n, s2, w2)"
    using assms(4-6,8,9) W n(3) by (auto simp: pclKeyWriteData_def isAccessLocked_def may_write_def)
  moreover have "pclKeyGetSize E C ldb rid user seat s2 w2 = Some (n, s2, w2)"
    using assms(4,5,9) fr(1) k stored_value(1) [where s = s2, OF st(1) assms(10) o w(2)] st(2)
    by (simp add: pclKeyGetSize_def may_write_def)
  moreover have "pclKeyReadData E C ldb rid user seat buf n s2 w2 = Some (n, take (nat n) d @ drop (nat n) buf, s2, w2)"
    using assms(4-6,9) fr k stored_value(2) [where s = s2, OF st(1) assms(10) o w(2), of n] st(2,3)
    by (simp add: pclKeyReadData_def isAccessLocked_def may_write_def)
  ultimately show ?thesis
    using fr(5) by blast
qed

text \<open>
  C36: a payload that the tool writes to a key it exports to a file again: with the library initialised and
  not locked, a resource that may be written, a database that opens, plugins that behave as documented
  and a place for the file, the file holds exactly the characters of the payload.
\<close>

theorem tool_write_read:
  fixes s :: "('w, 'x) lib_state_scheme"
  assumes "store_plugin (db_of s) nf mx view" "pure_rct (rct_of s)" "pco_ok (e_pco (tool_lib T))"
    and "gPclInitCounter s > 0" "c_key_lock C" "gLockAccess s \<noteq> 1" "e_wr (tool_lib T) (pipe s)"
    and "key_context (tool_lib T) C ldb rid user seat s w = Some (x, s0, w0)" "may_write (tool_lib T) x"
    and "stored_locally (e_pco (tool_lib T)) (res_info x)" "user \<noteq> PCL_USER_DEFAULTDATA"
    and "database_get (tool_lib T) (res_info x) (res_path x) (cpolicy (res_config x)) s0 w0 = Some (h, s1, w1)" "0 \<le> h"
    and "t_mem T" "\<And>i. t_call T i = C" "plain_file T f (gDisk s)"
    and "pay \<noteq> []" "NUL \<notin> set pay" "length pay < 2 ^ 31"
    and "int (length pay) \<le> mx" "int (length pay) \<le> max_key_data (e_pco (tool_lib T))"
    and "a = \<lparr>opMode = modeWriteKey, appName = app, resourceID = Some rid, payloadBuffer = Some pay, fileName = None,
      user_arg = user, seat_arg = seat, ldbid_arg = ldb, doHexdump = hex\<rparr>"
  shows "\<exists>out s2 w2 out' s3. tool_write T a rid (s, w) = Some (True, out, s2, w2) \<and>
    tool_read T (a\<lparr>opMode := modeReadKey, fileName := Some f\<rparr>) rid (s2, w2) = Some (out', s3, w2) \<and>
    content (gDisk s3) f = Some (bytes_of pay)"
proof -
  define n where "n = int (length pay)"
  define buf where "buf = bytes_of pay @ [0]"
  have n: "0 \<le> n" "nat n = length pay" "c_int n = n" "length buf = length pay + 1" "take (nat n) buf = bytes_of pay"
    "n \<le> mx" "n \<le> max_key_data (e_pco (tool_lib T))" "n \<le> int (length buf)" "0 < n"
    using assms(17,19-21) by (simp_all add: n_def buf_def bytes_of_def)
  have "take (nat n) buf @ drop (nat n) (replicate (length pay + 1) 0) = buf"
    using replicate_append_same [of "length pay" "0 :: 8 word"] n(2,5)
    by (simp add: buf_def flip: replicate_append_same)
  then obtain s2 w2 where k: "pclKeyWriteData (tool_lib T) C ldb rid user seat buf n s w = Some (n, s2, w2)"
    "pclKeyGetSize (tool_lib T) C ldb rid user seat s2 w2 = Some (n, s2, w2)" "gDisk s2 = gDisk s"
    "pclKeyReadData (tool_lib T) C ldb rid user seat (replicate (length pay + 1) 0) n s2 w2 = Some (n, buf, s2, w2)"
    using key_write_size_read [OF assms(1-13) n(1,6-8), of "replicate (length pay + 1) 0"] by auto
  have b: "b_str buf = Some pay"
    using b_str_bytes [OF assms(18)] by (simp add: buf_def)
  then have "hex_dump hex buf n \<noteq> None"
    by (simp add: hex_dump_def printHexDump_def)
  then obtain dump where dump: "hex_dump hex buf n = Some dump"
    by blast
  obtain d' where d: "writeDataToFile T f buf n (gDisk s2) = (n, [], d')" "content d' f = Some (bytes_of pay)"
    using writeDataToFile_content [of T f "gDisk s2" n buf] assms(16) k(3) n by auto
  have "\<exists>out. writeKey T rid user seat ldb buf hex (s, w) = Some (0, out, s2, w2)"
    using b n(3) k(1) dump assms(15) by (simp add: writeKey_def n_def)
  then have "\<exists>out. tool_write T a rid (s, w) = Some (True, out, s2, w2)"
    by (auto simp: tool_write_def assms(22) buf_def)
  moreover have "\<exists>out. readKey T rid user seat ldb hex (replicate (length pay + 1) 0) n (s2, w2) =
      Some (n, buf, out, s2, w2)"
    using b k(4) n(1) dump assms(15) by (simp add: readKey_def del: replicate_Suc)
  then have "\<exists>out'. tool_read T (a\<lparr>opMode := modeReadKey, fileName := Some f\<rparr>) rid (s2, w2) =
      Some (out', s2\<lparr>gDisk := d'\<rparr>, w2)"
    using k(2) assms(14,15) d(1) n(2,9) by (auto simp: tool_read_def run_disk_def assms(22) simp del: replicate_Suc)
  ultimately show ?thesis
    using d(2) by fastforce
qed

section \<open>Concrete runs\<close>

definition tool_1 :: "8 word \<Rightarrow> mem tool_env" where
  "tool_1 z = \<lparr>t_loop = loop_1, t_file = fenv_1, t_init = init_1 NoStat, t_call = (\<lambda>_. call_0), t_mem = True,
     t_junk = (\<lambda>_. z), t_lock = True, t_strerror = []\<rparr>"

definition lib_2 :: "mem lib_state" where
  "lib_2 = (lib_1 None empty_list 1)\<lparr>gHandlesDBCreated := (\<lambda>_ _. 0), loader := loader_1\<lparr>plugin_rct := rct_2\<rparr>\<rparr>"

definition args_1 :: tool_args where
  "args_1 = \<lparr>opMode = modeWriteKey, appName = Some ''app'', resourceID = Some ''pos'', payloadBuffer = Some ''12'',
     fileName = None, user_arg = 1, seat_arg = 0, ldbid_arg = 0xFF, doHexdump = False\<rparr>"

lemma tool_1_simps [simp]:
  "tool_lib (tool_1 z) = env_1" "t_mem (tool_1 z)" "t_call (tool_1 z) i = call_0" "v_os (t_file (tool_1 z)) = free_os"
  "t_junk (tool_1 z) i = z"
  by (simp_all add: tool_1_def loop_1_def fenv_1_def)

lemma lib_2_simps [simp]:
  "loader lib_2 = loader key_0" "prct lib_2 = prct key_0" "gPclInitCounter lib_2 = 1" "gLockAccess lib_2 = 0"
  "pipe lib_2 = []" "gDisk lib_2 = open_disk" "gHandlesDBCreated lib_2 i j = 0"
  by (simp_all add: lib_2_def lib_1_def key_0_def)

theorem tool_import_drops_witness:
  "\<forall>w. (\<exists>d out. tool_write (tool_1 0) (args_1\<lparr>fileName := Some orig_1\<rparr>) ''pos'' (lib_2, w) =
       map_option (\<lambda>(r, s, w). (True, out, s, w))
         (pclKeyWriteData env_1 call_0 0xFF ''pos'' 1 0 [1, 0] 1 (lib_2\<lparr>gDisk := d\<rparr>) w)) \<and>
     tool_write (tool_1 9) (args_1\<lparr>fileName := Some orig_1\<rparr>) ''pos'' (lib_2, w) = None"
proof
  fix w
  have c: "content (gDisk lib_2) orig_1 = Some [1, 2]" "0 \<notin> set [1, 2 :: 8 word]"
    by simp_all
  have o: "os_may_open free_os (comps orig_1)"
    by (simp add: free_os_def)
  show "(\<exists>d out. tool_write (tool_1 0) (args_1\<lparr>fileName := Some orig_1\<rparr>) ''pos'' (lib_2, w) =
       map_option (\<lambda>(r, s, w). (True, out, s, w))
         (pclKeyWriteData env_1 call_0 0xFF ''pos'' 1 0 [1, 0] 1 (lib_2\<lparr>gDisk := d\<rparr>) w)) \<and>
     tool_write (tool_1 9) (args_1\<lparr>fileName := Some orig_1\<rparr>) ''pos'' (lib_2, w) = None"
    using tool_import_drops [OF c(1) _ c(2), of "tool_1 0" "args_1\<lparr>fileName := Some orig_1\<rparr>" "''pos''" w]
      tool_import_drops [OF c(1) _ c(2), of "tool_1 9" "args_1\<lparr>fileName := Some orig_1\<rparr>" "''pos''" w] o
    by (simp add: args_1_def)
qed

lemma lib_2_context:
  "\<exists>x h s1 w1. key_context env_1 call_0 0xFF ''pos'' 1 0 lib_2 (\<lambda>_ _. None) = Some (x, lib_2\<lparr>prct := prct_1\<rparr>, \<lambda>_ _. None) \<and>
     may_write env_1 x \<and> stored_locally pco_1 (res_info x) \<and>
     database_get env_1 (res_info x) (res_path x) (cpolicy (res_config x)) (lib_2\<lparr>prct := prct_1\<rparr>) (\<lambda>_ _. None) =
       Some (h, s1, w1) \<and> 0 \<le> h"
proof -
  obtain x where x: "key_context env_1 call_0 0xFF ''pos'' 1 0 key_0 (\<lambda>_ _. None) =
      Some (x, key_0\<lparr>prct := prct_1\<rparr>, \<lambda>_ _. None)" "res_rval x = 0"
    "res_info x = (key_info call_0 0xFF 1 0)\<lparr>configKey := config_1\<rparr>"
    using key_context_0 [of "''pos''"] by fastforce
  obtain p where p: "get_db_context (e_pco env_1) (names_of key_0) (e_app env_1) (rct_of key_0) (key_info call_0 0xFF 1 0)
      ''pos'' False (prct key_0) (\<lambda>_ _. None) = Some (x, p, \<lambda>_ _. None)" "key_0\<lparr>prct := p\<rparr> = key_0\<lparr>prct := prct_1\<rparr>"
    using x(1) by (auto simp: key_context_def)
  have "p = prct_1"
    using arg_cong [OF p(2), of prct] by simp
  with p(1) have k: "key_context env_1 call_0 0xFF ''pos'' 1 0 lib_2 (\<lambda>_ _. None) =
      Some (x, lib_2\<lparr>prct := prct_1\<rparr>, \<lambda>_ _. None)"
    by (simp add: key_context_def)
  have c: "cpolicy (res_config x) = 1" "cstorage (res_config x) = 0" "ctype (res_config x) = 0"
    "cpermission (res_config x) = 0" "ctx_ldbid (dbctx (res_info x)) = 0xFF"
    by (simp_all add: x(3) config_1_def key_info_def)
  have f: "db_file pco_1 (names_of key_0) (res_path x) 1 =
      Some (c_copy (path_len pco_1) (res_path x @ gLocalWt (names_of key_0)), 3)" "policy_last pco_1 = 3"
    "db_open mem_db = Some (\<lambda>p f w. (int (length p), w))"
    by (simp_all add: db_file_def pco_1_def mem_db_def)
  have "may_write env_1 x" "stored_locally pco_1 (res_info x)"
    using c x(2) by (simp_all add: may_write_def is_key_resource_def stored_locally_def pco_1_def)
  then show ?thesis
    using k c f by (simp add: database_get_def db_index_def Let_def)
qed

theorem tool_write_read_witness:
  "\<exists>out s2 w2 out' s3. tool_write (tool_1 0) args_1 ''pos'' (lib_2, \<lambda>_ _. None) = Some (True, out, s2, w2) \<and>
     tool_read (tool_1 0) (args_1\<lparr>opMode := modeReadKey, fileName := Some ''/Data/out''\<rparr>) ''pos'' (s2, w2) = Some (out', s3, w2) \<and>
     content (gDisk s3) ''/Data/out'' = Some (bytes_of ''12'')"
proof -
  obtain x h s1 w1 where x: "key_context env_1 call_0 0xFF ''pos'' 1 0 lib_2 (\<lambda>_ _. None) =
      Some (x, lib_2\<lparr>prct := prct_1\<rparr>, \<lambda>_ _. None)" "may_write env_1 x" "stored_locally pco_1 (res_info x)"
    "database_get env_1 (res_info x) (res_path x) (cpolicy (res_config x)) (lib_2\<lparr>prct := prct_1\<rparr>) (\<lambda>_ _. None) =
       Some (h, s1, w1)" "0 \<le> h"
    using lib_2_context by blast
  have p: "plain_file (tool_1 0) ''/Data/out'' (gDisk lib_2)"
  proof -
    have "disk_ok open_disk"
      using place_1 by (simp only: backup_place_def)
    moreover have "comps ''/Data/out'' = [''Data'', ''out'']" "dirs open_disk = {[], [''Data'']}"
      by (simp_all add: comps_def tokens_def open_disk_def disk_1_def)
    ultimately show ?thesis
      by (simp add: plain_file_def)
  qed
  show ?thesis
    using tool_write_read [where s = lib_2 and T = "tool_1 0" and C = call_0 and nf = "-8" and mx = 16384 and view = "\<lambda>w. w"
        and pay = "''12''" and a = args_1 and hex = False and app = "Some ''app''", OF _ _ _ _ _ _ _ _ _ _ _ _ x(5) _ _ p]
      x mem_db_store rct_2_pure pco_1_ok
    by (simp add: args_1_def env_1_def pco_1_def)
qed

end
