(* ===== verification/Db_Viewer.thy ===== *)
theory Db_Viewer
  imports C_Stdlib "HOL-Library.Monad_Syntax"
begin

text \<open>
  The viewer of databases and configuration tables (\<^verbatim>\<open>src/tools/persistence_db_viewer.c\<close>).  The functions
  of the common object's library, the folders of the disk and the stack's uninitialised configuration
  are the fields of \<open>viewer_lib\<close>, over a world \<open>'w\<close>.  What is printed is a list with one string for each
  call of \<^verbatim>\<open>printf\<close>.  An access behind an array and a string without end are \<open>None\<close>.
\<close>

section \<open>The library\<close>

record 'w viewer_lib =
  v_mem :: bool
  v_dir :: "string \<Rightarrow> string list option"
  v_strerror :: string
  v_config :: config_key
  vdb_open :: "string \<Rightarrow> int \<Rightarrow> 'w \<Rightarrow> int \<times> 'w"
  vdb_list_size :: "int \<Rightarrow> 'w \<Rightarrow> int \<times> 'w"
  vdb_list :: "int \<Rightarrow> string \<Rightarrow> int \<Rightarrow> 'w \<Rightarrow> int \<times> string \<times> 'w"
  vdb_read :: "int \<Rightarrow> string \<Rightarrow> string \<Rightarrow> int \<Rightarrow> 'w \<Rightarrow> int \<times> string \<times> 'w"
  vdb_close :: "int \<Rightarrow> 'w \<Rightarrow> int \<times> 'w"
  vrct_open :: "string \<Rightarrow> int \<Rightarrow> 'w \<Rightarrow> int \<times> 'w"
  vrct_list_size :: "int \<Rightarrow> 'w \<Rightarrow> int \<times> 'w"
  vrct_list :: "int \<Rightarrow> string \<Rightarrow> int \<Rightarrow> 'w \<Rightarrow> int \<times> string \<times> 'w"
  vrct_read :: "int \<Rightarrow> string \<Rightarrow> config_key \<Rightarrow> 'w \<Rightarrow> int \<times> config_key \<times> 'w"
  vrct_close :: "int \<Rightarrow> 'w \<Rightarrow> int \<times> 'w"

abbreviation (input) dbTypeNone :: "32 word" where "dbTypeNone \<equiv> 0"
abbreviation (input) dbTypeCached :: "32 word" where "dbTypeCached \<equiv> 1"
abbreviation (input) dbTypeWriteThrough :: "32 word" where "dbTypeWriteThrough \<equiv> 2"
abbreviation (input) dbTypeDefault :: "32 word" where "dbTypeDefault \<equiv> 4"
abbreviation (input) dbTypeConfDefault :: "32 word" where "dbTypeConfDefault \<equiv> 8"
abbreviation (input) dbTypeRCT :: "32 word" where "dbTypeRCT \<equiv> 0x10"
abbreviation (input) dbTypeAll :: "32 word" where "dbTypeAll \<equiv> 0x1F"

definition gDbMaskArray :: "32 word list" where
  "gDbMaskArray = [dbTypeNone, dbTypeCached, dbTypeWriteThrough, dbTypeDefault, dbTypeConfDefault, dbTypeRCT]"

definition dashes :: string where
  "dashes = replicate 69 (CHR ''-'') @ nl"

definition equals :: string where
  "equals = replicate 85 (CHR ''='') @ nl"

section \<open>Configurations\<close>

definition at_index :: "'a list \<Rightarrow> int \<Rightarrow> 'a option" where
  "at_index xs i = (if 0 \<le> i \<and> i < int (length xs) then Some (xs ! nat i) else None)"

definition policy_names :: "string list" where
  "policy_names = [''cache'', ''wt'', ''na'']"

definition storage_names :: "string list" where
  "storage_names = [''local'', ''shared'', ''custom'', ''na'']"

definition permission_names :: "string list" where
  "permission_names = [''ReadWrite'', ''ReadOnly'', ''WriteOnly'', ''na'']"

text \<open>One line of a configuration: nothing when the value is above the bound the code tests.\<close>

definition named_line :: "string \<Rightarrow> string list \<Rightarrow> int \<Rightarrow> int \<Rightarrow> string list option" where
  "named_line title ns bound i =
     (if i \<le> bound then map_option (\<lambda>n. [title @ n @ nl]) (at_index ns i) else Some [])"

definition printRCTcfg :: "config_key \<Rightarrow> string list option" where
  "printRCTcfg c =
     do { a \<leftarrow> named_line ''   PersistencePolicy_e    : '' policy_names 2 (cpolicy c);
          b \<leftarrow> named_line ''   PersistenceStorage_e   : '' storage_names 3 (cstorage c);
          p \<leftarrow> named_line ''   PersistencePermission_e: '' permission_names 3 (ctype c);
          Some (a @ b @ p @
            [''   max_size               : '' @ fmt_d (cmax_size c) @ nl,
             ''   reponsible             : '' @ cstr (creponsible c) @ nl,
             ''   custom_name            : '' @ cstr (ccustom_name c) @ nl,
             ''   customID               : '' @ cstr (ccustomID c) @ nl @ nl]) }"

section \<open>The list of keys\<close>

text \<open>
  The keys come as one array, each with its terminating NUL.  The indices at which they start are
  written to an array of 256 places, whose first one is 0.
\<close>

fun key_starts :: "nat list \<Rightarrow> string \<Rightarrow> nat list \<Rightarrow> nat list option" where
  "key_starts [] buf st = Some st"
| "key_starts (i # is) buf st =
     (if length buf \<le> i then None
      else if buf ! i = NUL then
        if length st < 256 then key_starts is buf (st @ [i + 1]) else None
      else key_starts is buf st)"

definition resource_starts :: "int \<Rightarrow> string \<Rightarrow> nat list option" where
  "resource_starts listSize buf = key_starts [1..<nat listSize] buf [0]"

section \<open>Databases\<close>

fun print_values ::
  "'w viewer_lib \<Rightarrow> int \<Rightarrow> string \<Rightarrow> int \<Rightarrow> nat list \<Rightarrow> 'w \<Rightarrow> (string list \<times> 'w) option" where
  "print_values V h buf i [] w = Some ([], w)"
| "print_values V h buf i (st # sts) w =
     do { key \<leftarrow> c_str (drop st buf);
          let (r, val, w) = vdb_read V h key (replicate 8192 NUL) 8192 w;
          v \<leftarrow> c_str val;
          (out, w) \<leftarrow> print_values V h buf (i + 1) sts w;
          Some ((''Key['' @ fmt_d i @ '']: '' @ key @ nl) # ('' value: '' @ v @ nl @ nl) # out, w) }"

text \<open>The array is cleared before the result of \<^verbatim>\<open>malloc\<close> is tested: without memory that is a fault.\<close>

definition print_db_list :: "'w viewer_lib \<Rightarrow> int \<Rightarrow> int \<Rightarrow> 'w \<Rightarrow> (string list \<times> 'w) option" where
  "print_db_list V h listSize w =
     (if v_mem V then
        let (ret, buf, w) = vdb_list V h (replicate (nat listSize) NUL) listSize w in
        if ret \<noteq> 0 then
          do { starts \<leftarrow> resource_starts listSize buf;
               (out, w) \<leftarrow> print_values V h buf 0 (butlast starts) w;
               Some ((''NumOf resources: '' @ fmt_d (int (length starts) - 1) @ '' '' @ nl) # out @ [dashes], w) }
        else Some ([dashes], w)
      else None)"

definition db_title :: "string \<Rightarrow> 32 word \<Rightarrow> (string \<times> string) option" where
  "db_title appname type =
     (let file = (\<lambda>db. c_copy 512 (''/Data/mnt-c/'' @ appname @ ''/'' @ db)) in
      if type = dbTypeCached then Some (''Cachded DB keys: '', file ''cached.itz'')
      else if type = dbTypeWriteThrough then Some (''Write Through DB keys: '', file ''wt.itz'')
      else if type = dbTypeDefault then Some (''Default DB keys: '', file ''default-data.itz'')
      else if type = dbTypeConfDefault then
        Some (''Default Config DB keys: '', file ''configurable-default-data.itz'')
      else None)"

definition printDBcontent :: "'w viewer_lib \<Rightarrow> string \<Rightarrow> 32 word \<Rightarrow> 'w \<Rightarrow> (string list \<times> 'w) option" where
  "printDBcontent V appname type w =
     (case db_title appname type of
        None \<Rightarrow>
          Some ([dashes, ''printDBcontent ==> wrong type, valid is 0 (cached) or 1 (write through)'' @ nl], w)
      | Some (title, filename) \<Rightarrow>
          (let head = [dashes, title @ filename @ nl, dashes];
               (h, w) = vdb_open V filename 0 w
           in if h \<ge> 0 then
                let (listSize, w) = vdb_list_size V h w in
                do { (out, w) \<leftarrow> (if listSize > 0 then print_db_list V h listSize w
                                  else Some ([''* Database is empty!! *'' @ nl @ nl], w));
                     let (ret, w) = vdb_close V h w;
                     Some (head @ out @ (if ret \<noteq> 0 then [''Failed to close db'' @ nl] else []), w) }
              else Some (head @ [''Failed to open'' @ nl], w)))"

section \<open>Configuration tables\<close>

fun print_configs ::
  "'w viewer_lib \<Rightarrow> bool \<Rightarrow> int \<Rightarrow> string \<Rightarrow> int \<Rightarrow> nat list \<Rightarrow> 'w \<Rightarrow> (string list \<times> 'w) option" where
  "print_configs V full h buf i [] w = Some ([], w)"
| "print_configs V full h buf i (st # sts) w =
     do { key \<leftarrow> c_str (drop st buf);
          (cfg, w) \<leftarrow> (if full then
                         let (r, c, w) = vrct_read V h key (v_config V) w in
                         map_option (\<lambda>cfg. (cfg, w)) (printRCTcfg c)
                       else Some ([], w));
          (out, w) \<leftarrow> print_configs V full h buf (i + 1) sts w;
          Some ((''RCT['' @ fmt_d i @ '']                    : '' @ [CHR 0x22] @ key @ [CHR 0x22] @ nl) # cfg @ out, w) }"

definition print_rct_list ::
  "'w viewer_lib \<Rightarrow> bool \<Rightarrow> string \<Rightarrow> int \<Rightarrow> int \<Rightarrow> 'w \<Rightarrow> (string list \<times> 'w) option" where
  "print_rct_list V full filename h listSize w =
     (if v_mem V then
        let (ret, buf, w) = vrct_list V h (replicate (nat listSize) NUL) listSize w in
        if ret \<noteq> 0 then
          do { starts \<leftarrow> resource_starts listSize buf;
               (out, w) \<leftarrow> print_configs V full h buf 0 (butlast starts) w;
               Some ([dashes, ''RCT keys ['' @ fmt_d (int (length starts) - 1) @ '']: '' @ filename @ '' '' @ nl, dashes]
                       @ out @ [dashes], w) }
        else Some ([dashes], w)
      else None)"

definition printRCTcontent :: "'w viewer_lib \<Rightarrow> string \<Rightarrow> bool \<Rightarrow> 'w \<Rightarrow> (string list \<times> 'w) option" where
  "printRCTcontent V appname full w =
     (let filename = c_copy 512 (''/Data/mnt-c/'' @ appname @ ''/resource-table-cfg.itz'');
          (h, w) = vrct_open V filename 0 w
      in if h \<ge> 0 then
           let (listSize, w) = vrct_list_size V h w in
           do { (out, w) \<leftarrow> (if listSize > 0 then print_rct_list V full filename h listSize w
                             else Some ([''* Database is empty!! *'' @ nl @ nl], w));
                let (ret, w) = vrct_close V h w;
                Some (out @ (if ret \<noteq> 0 then [''Failed to close db'' @ nl] else []), w) }
         else Some ([''Failed to open'' @ nl], w))"

section \<open>Applications\<close>

definition printAppManual :: "string list" where
  "printAppManual =
     [nl @ ''NAME'' @ nl,
      ''   ./persistence_db_viewer - display database content of different persistence applications'' @ nl,
      nl @ ''SYNOPSIS'' @ nl,
      ''   persistence_db_viewer [-p path] [-lacwdfr] -n appname '' @ nl,
      nl @ ''DESCRIPTION'' @ nl,
      ''   Display content of persistent databases like cached, write through and default value database,'' @ nl,
      ''   as well as content of resource configuration table'' @ nl,
      nl @ ''OPTIONS'' @ nl,
      ''   -p   Path to the persistence storage location [default location is '' @ [CHR 0x22] @ ''/Data/mnt-c/'' @ [CHR 0x22] @ '']'' @ nl,
      ''   -n   Name of the application to display the database [use '' @ [CHR 0x22] @ ''all'' @ [CHR 0x22] @ '' to display content of all available applications]'' @ nl,
      ''   -l   List all available applications under persistence storage locations'' @ nl,
      ''   -a   Display content of all database types'' @ nl,
      ''   -c   Display cached database content'' @ nl,
      ''   -w   Display writhe though database content'' @ nl,
      ''   -d   Display default value database content'' @ nl,
      ''   -f   Display configurable default value database content'' @ nl,
      ''   -r   Display resource configuration table database content'' @ nl,
      nl]"

fun print_types ::
  "'w viewer_lib \<Rightarrow> string \<Rightarrow> 32 word \<Rightarrow> 32 word list \<Rightarrow> 'w \<Rightarrow> (string list \<times> 'w) option" where
  "print_types V appname databaseTypes [] w = Some ([], w)"
| "print_types V appname databaseTypes (m # ms) w =
     do { (out, w) \<leftarrow> (if databaseTypes AND m \<noteq> 0 then
                         if m \<noteq> dbTypeRCT then printDBcontent V appname m w else printRCTcontent V appname True w
                       else Some ([], w));
          (out', w) \<leftarrow> print_types V appname databaseTypes ms w;
          Some (out @ out', w) }"

definition printSingleApplicationDBs ::
  "'w viewer_lib \<Rightarrow> string \<Rightarrow> string \<Rightarrow> 32 word \<Rightarrow> 'w \<Rightarrow> (string list \<times> 'w) option" where
  "printSingleApplicationDBs V appname thePath databaseTypes w =
     do { (out, w) \<leftarrow> (if databaseTypes \<noteq> dbTypeNone then print_types V appname databaseTypes (tl gDbMaskArray) w
                       else Some ([''Print no database database content'' @ nl], w));
          Some ([equals, ''* '' @ appname @ '' - '' @ thePath @ nl] @ out @ [equals @ nl], w) }"

text \<open>The character of a string at an index; the terminating NUL is one of them.\<close>

definition c_at :: "string \<Rightarrow> nat \<Rightarrow> char" where
  "c_at s i = (if i < length s then s ! i else NUL)"

definition FILE_DIR_NOT_SELF_OR_PARENT :: "string \<Rightarrow> bool" where
  "FILE_DIR_NOT_SELF_OR_PARENT s \<longleftrightarrow>
     c_at s 0 \<noteq> CHR ''.'' \<and> ((c_at s 1 \<noteq> CHR ''.'' \<or> c_at s 2 \<noteq> NUL) \<or> c_at s 1 = NUL)"

fun print_apps ::
  "'w viewer_lib \<Rightarrow> string \<Rightarrow> 32 word \<Rightarrow> string list \<Rightarrow> 'w \<Rightarrow> (string list \<times> 'w) option" where
  "print_apps V thePath databaseTypes [] w = Some ([], w)"
| "print_apps V thePath databaseTypes (d # ds) w =
     (if FILE_DIR_NOT_SELF_OR_PARENT d then
        do { (out, w) \<leftarrow> printSingleApplicationDBs V d thePath databaseTypes w;
             (out', w) \<leftarrow> print_apps V thePath databaseTypes ds w;
             Some (out @ out', w) }
      else print_apps V thePath databaseTypes ds w)"

definition printAllApplicationDBs ::
  "'w viewer_lib \<Rightarrow> string \<Rightarrow> 32 word \<Rightarrow> 'w \<Rightarrow> (string list \<times> 'w) option" where
  "printAllApplicationDBs V thePath databaseTypes w =
     (case v_dir V thePath of
        Some ds \<Rightarrow> print_apps V thePath databaseTypes ds w
      | None \<Rightarrow>
          Some ([''Print database content - Failed to open directory: '' @ [CHR 0x22] @ v_strerror V @ [CHR 0x22] @ nl @ nl], w))"

definition printAvailableApplication :: "'w viewer_lib \<Rightarrow> string \<Rightarrow> string list" where
  "printAvailableApplication V thePath =
     (case v_dir V thePath of
        Some ds \<Rightarrow>
          [equals @ nl, ''Available applications: '' @ thePath @ nl, equals]
            @ map (\<lambda>d. '' - '' @ d @ nl) (filter FILE_DIR_NOT_SELF_OR_PARENT ds) @ [equals @ nl]
      | None \<Rightarrow>
          [''List applications - Failed to open directory: '' @ [CHR 0x22] @ v_strerror V @ [CHR 0x22] @ nl @ nl])"

section \<open>The program\<close>

record viewer_args =
  persPath :: string
  singleAppName :: string
  printAllAppsContent :: int
  listAllApps :: int
  dbTypeAccum :: "32 word"
  v_ret :: int

definition viewer_defaults :: viewer_args where
  "viewer_defaults =
     \<lparr>persPath = c_copy 128 ''/Data/mnt-c/'', singleAppName = [], printAllAppsContent = -1, listAllApps = -1,
       dbTypeAccum = dbTypeNone, v_ret = 0\<rparr>"

definition viewer_option :: "opt \<Rightarrow> viewer_args \<Rightarrow> string list \<times> viewer_args" where
  "viewer_option = (\<lambda>(c, optarg) a.
     if c = CHR ''p'' then ([], a\<lparr>persPath := c_copy 64 optarg\<rparr>)
     else if c = CHR ''l'' then ([], a\<lparr>listAllApps := 1\<rparr>)
     else if c = CHR ''n'' then
       if optarg = ''all'' then ([], a\<lparr>printAllAppsContent := 1\<rparr>)
       else ([], a\<lparr>printAllAppsContent := 0, singleAppName := c_copy 64 optarg\<rparr>)
     else if c = CHR ''a'' then ([], a\<lparr>dbTypeAccum := dbTypeAccum a OR dbTypeAll\<rparr>)
     else if c = CHR ''c'' then ([], a\<lparr>dbTypeAccum := dbTypeAccum a OR dbTypeCached\<rparr>)
     else if c = CHR ''w'' then ([], a\<lparr>dbTypeAccum := dbTypeAccum a OR dbTypeWriteThrough\<rparr>)
     else if c = CHR ''d'' then ([], a\<lparr>dbTypeAccum := dbTypeAccum a OR dbTypeDefault\<rparr>)
     else if c = CHR ''f'' then ([], a\<lparr>dbTypeAccum := dbTypeAccum a OR dbTypeConfDefault\<rparr>)
     else if c = CHR ''r'' then ([], a\<lparr>dbTypeAccum := dbTypeAccum a OR dbTypeRCT\<rparr>)
     else (printAppManual, a\<lparr>v_ret := -1\<rparr>))"

fun viewer_options :: "opt list \<Rightarrow> viewer_args \<Rightarrow> string list \<times> viewer_args" where
  "viewer_options [] a = ([], a)"
| "viewer_options (os # l) a =
     (let (out, a) = viewer_option os a; (out', a) = viewer_options l a in (out @ out', a))"

definition viewer_main :: "'w viewer_lib \<Rightarrow> string list \<Rightarrow> 'w \<Rightarrow> (int \<times> string list \<times> 'w) option" where
  "viewer_main V args w =
     (let (out, a) = viewer_options (getopt ''p:n:lacwdfr'' args) viewer_defaults;
          out = out @ (if listAllApps a = -1 \<and> printAllAppsContent a = -1 then printAppManual else [])
                    @ (if listAllApps a = 1 then printAvailableApplication V (persPath a) else [])
      in do { (out', w) \<leftarrow> (if printAllAppsContent a = 1 then printAllApplicationDBs V (persPath a) (dbTypeAccum a) w
                           else if printAllAppsContent a = 0
                           then printSingleApplicationDBs V (singleAppName a) (persPath a) (dbTypeAccum a) w
                           else Some ([], w));
              Some (v_ret a, out @ out', w) })"

section \<open>What the list of keys says\<close>

definition key_list :: "string list \<Rightarrow> string" where
  "key_list ks = concat (map (\<lambda>k. k @ [NUL]) ks)"

fun starts_of :: "nat \<Rightarrow> string list \<Rightarrow> nat list" where
  "starts_of p [] = [p]"
| "starts_of p (k # ks) = p # starts_of (p + length k + 1) ks"

lemma starts_of_not_Nil [simp]: "starts_of p ks \<noteq> []"
  by (cases ks) auto

lemma length_starts_of [simp]: "length (starts_of p ks) = Suc (length ks)"
  by (induction ks arbitrary: p) auto

lemma key_starts_append:
  "key_starts (is @ js) buf st = Option.bind (key_starts is buf st) (key_starts js buf)"
  by (induction "is" buf st rule: key_starts.induct) auto

lemma key_starts_plain:
  "\<forall>i \<in> set is. i < length buf \<and> buf ! i \<noteq> NUL \<Longrightarrow> key_starts is buf st = Some st"
  by (induction "is") auto

lemma key_starts_key:
  assumes "NUL \<notin> set k" "a \<le> length k"
  shows "key_starts [length pre + a..<length pre + length k + 1] (pre @ k @ NUL # t) st =
    (if length st < 256 then Some (st @ [length pre + length k + 1]) else None)"
proof -
  have "\<forall>i \<in> set [length pre + a..<length pre + length k].
      i < length (pre @ k @ NUL # t) \<and> (pre @ k @ NUL # t) ! i \<noteq> NUL"
    using assms(1) by (auto simp: nth_append in_set_conv_nth)
  moreover have "[length pre + a..<length pre + length k + 1] =
      [length pre + a..<length pre + length k] @ [length pre + length k]"
    using assms(2) by simp
  ultimately show ?thesis
    by (simp add: key_starts_append key_starts_plain nth_append del: upt_Suc)
qed

lemma key_starts_list:
  assumes "\<forall>k \<in> set ks. NUL \<notin> set k"
  shows "key_starts [length pre..<length pre + length (key_list ks)] (pre @ key_list ks) st =
    (if ks = [] \<or> length st + length ks \<le> 256 then Some (st @ tl (starts_of (length pre) ks)) else None)"
  using assms
proof (induction ks arbitrary: pre st)
  case Nil
  then show ?case
    by (simp add: key_list_def)
next
  case (Cons k ks)
  define pre' where "pre' = pre @ k @ [NUL]"
  have l: "key_list (k # ks) = k @ NUL # key_list ks"
    by (simp add: key_list_def)
  have s: "[length pre..<length pre + length (key_list (k # ks))] =
      [length pre..<length pre + length k + 1] @ [length pre'..<length pre' + length (key_list ks)]"
    using upt_add_eq_append [of "length pre" "length pre + length k + 1" "length (key_list ks)"]
    unfolding l pre'_def by (simp add: ac_simps del: upt_Suc)
  have "key_starts [length pre..<length pre + length k + 1] (pre @ key_list (k # ks)) st =
      (if length st < 256 then Some (st @ [length pre + length k + 1]) else None)"
    using Cons.prems key_starts_key [of k 0 pre "key_list ks" st] by (simp add: l)
  moreover have "key_starts [length pre'..<length pre' + length (key_list ks)] (pre @ key_list (k # ks))
        (st @ [length pre + length k + 1]) =
      (if ks = [] \<or> length st + 1 + length ks \<le> 256
       then Some ((st @ [length pre + length k + 1]) @ tl (starts_of (length pre') ks)) else None)"
    using Cons.IH [of pre' "st @ [length pre + length k + 1]"] Cons.prems by (simp add: l pre'_def)
  moreover have "starts_of (length pre') ks = (length pre + length k + 1) # tl (starts_of (length pre') ks)"
    by (cases ks) (simp_all add: pre'_def)
  ultimately show ?case
    unfolding s key_starts_append by (auto simp: pre'_def)
qed

text \<open>The scan begins at the second character, which makes no difference when the first key is not empty.\<close>

lemma resource_starts_list:
  assumes "\<forall>k \<in> set ks. k \<noteq> [] \<and> NUL \<notin> set k" "ks \<noteq> []"
  shows "resource_starts (int (length (key_list ks))) (key_list ks) =
    (if length ks < 256 then Some (starts_of 0 ks) else None)"
proof -
  obtain c k ks' where ks: "ks = (c # k) # ks'" "c \<noteq> NUL"
    using assms by (cases ks; cases "hd ks") auto
  have "[0..<length (key_list ks)] = 0 # [1..<length (key_list ks)]"
    by (simp add: ks key_list_def upt_rec)
  then have "key_starts [1..<length (key_list ks)] (key_list ks) [0] = key_starts [0..<length (key_list ks)] (key_list ks) [0]"
    using ks by (simp add: key_list_def)
  also have "\<dots> = (if length ks < 256 then Some (0 # tl (starts_of 0 ks)) else None)"
    using key_starts_list [of ks "[]" "[0]"] assms by auto
  also have "0 # tl (starts_of 0 ks) = starts_of 0 ks"
    by (simp add: ks)
  finally show ?thesis
    by (simp add: resource_starts_def)
qed

lemma drop_key: "NUL \<notin> set k \<Longrightarrow> c_str (drop (length pre) (pre @ key_list (k # ks))) = Some k"
  by (simp add: key_list_def)

section \<open>What a database shows\<close>

text \<open>A library whose open database has the keys \<open>ks\<close> with the values \<open>val\<close>.\<close>

definition holds_keys :: "'w viewer_lib \<Rightarrow> int \<Rightarrow> string list \<Rightarrow> (string \<Rightarrow> string) \<Rightarrow> 'w \<Rightarrow> bool" where
  "holds_keys V h ks val w \<longleftrightarrow>
     vdb_list_size V h w = (int (length (key_list ks)), w) \<and>
     (\<exists>r. r \<noteq> 0 \<and> vdb_list V h (replicate (length (key_list ks)) NUL) (int (length (key_list ks))) w =
            (r, key_list ks, w)) \<and>
     (\<forall>k \<in> set ks. \<exists>r buf. vdb_read V h k (replicate 8192 NUL) 8192 w = (r, buf, w) \<and> c_str buf = Some (val k)) \<and>
     vdb_close V h w = (0, w)"

fun shown_entries :: "(string \<Rightarrow> string) \<Rightarrow> int \<Rightarrow> string list \<Rightarrow> string list" where
  "shown_entries val i [] = []"
| "shown_entries val i (k # ks) =
     (''Key['' @ fmt_d i @ '']: '' @ k @ nl) # ('' value: '' @ val k @ nl @ nl) # shown_entries val (i + 1) ks"

lemma print_values_list:
  assumes "\<forall>k \<in> set ks. NUL \<notin> set k"
    and "\<forall>k \<in> set ks. \<exists>r buf. vdb_read V h k (replicate 8192 NUL) 8192 w = (r, buf, w) \<and> c_str buf = Some (val k)"
  shows "print_values V h (pre @ key_list ks) i (butlast (starts_of (length pre) ks)) w =
    Some (shown_entries val i ks, w)"
  using assms
proof (induction ks arbitrary: pre i)
  case (Cons k ks)
  obtain r buf where r: "vdb_read V h k (replicate 8192 NUL) 8192 w = (r, buf, w)" "c_str buf = Some (val k)"
    using Cons.prems(2) by auto
  have l: "pre @ key_list (k # ks) = (pre @ k @ [NUL]) @ key_list ks"
    by (simp add: key_list_def)
  have "print_values V h ((pre @ k @ [NUL]) @ key_list ks) (i + 1)
      (butlast (starts_of (length (pre @ k @ [NUL])) ks)) w = Some (shown_entries val (i + 1) ks, w)"
    using Cons.prems by (intro Cons.IH) auto
  then show ?case
    using drop_key [of k pre ks] Cons.prems(1) r unfolding l by simp
qed simp

text \<open>
  C39: the viewer shows every key of a database with its value, in the order of the database, when there
  are fewer than 256 of them; the 256th key is written behind an array on the stack.
\<close>

theorem viewer_shows_keys:
  assumes "v_mem V" "db_title app t = Some (title, file)" "vdb_open V file 0 w = (h, w')" "0 \<le> h"
    and "holds_keys V h ks val w'" "ks \<noteq> []" "\<forall>k \<in> set ks. k \<noteq> [] \<and> NUL \<notin> set k"
  shows "printDBcontent V app t w =
    (if length ks < 256 then
       Some ([dashes, title @ file @ nl, dashes, ''NumOf resources: '' @ fmt_d (int (length ks)) @ '' '' @ nl]
               @ shown_entries val 0 ks @ [dashes], w')
     else None)"
proof -
  have pos: "0 < length (key_list ks)"
    using assms(6) by (cases ks) (auto simp: key_list_def)
  have v: "print_values V h (key_list ks) 0 (butlast (starts_of 0 ks)) w' = Some (shown_entries val 0 ks, w')"
    using print_values_list [of ks V h w' val "[]" 0] assms(5,7) by (simp add: holds_keys_def)
  obtain r where "r \<noteq> 0" "vdb_list V h (replicate (length (key_list ks)) NUL) (int (length (key_list ks))) w' =
      (r, key_list ks, w')"
    using assms(5) by (auto simp: holds_keys_def)
  then have "print_db_list V h (int (length (key_list ks))) w' =
      (if length ks < 256 then
         Some ((''NumOf resources: '' @ fmt_d (int (length ks)) @ '' '' @ nl) # shown_entries val 0 ks @ [dashes], w')
       else None)"
    using resource_starts_list [OF assms(7,6)] v assms(1) by (simp add: print_db_list_def)
  then show ?thesis
    using assms pos by (simp add: printDBcontent_def holds_keys_def)
qed

text \<open>A library with one database, whose keys are \<open>ks\<close> and whose values are the keys twice.\<close>

definition viewer_of :: "string list \<Rightarrow> unit viewer_lib" where
  "viewer_of ks =
     \<lparr>v_mem = True, v_dir = (\<lambda>_. None), v_strerror = ''none'',
      v_config = \<lparr>cpolicy = 0, cstorage = 0, ctype = 0, cpermission = 0, cmax_size = 0, creponsible = [],
        ccustom_name = [], ccustomID = []\<rparr>,
      vdb_open = (\<lambda>_ _ w. (3, w)), vdb_list_size = (\<lambda>_ w. (int (length (key_list ks)), w)),
      vdb_list = (\<lambda>_ _ _ w. (1, key_list ks, w)),
      vdb_read = (\<lambda>_ k buf n w. (int (2 * length k), k @ k @ NUL # drop (2 * length k + 1) buf, w)),
      vdb_close = (\<lambda>_ w. (0, w)), vrct_open = (\<lambda>_ _ w. (-1, w)), vrct_list_size = (\<lambda>_ w. (0, w)),
      vrct_list = (\<lambda>_ buf _ w. (0, buf, w)), vrct_read = (\<lambda>_ _ c w. (0, c, w)), vrct_close = (\<lambda>_ w. (0, w))\<rparr>"

lemma viewer_of_holds:
  assumes "\<forall>k \<in> set ks. NUL \<notin> set k"
  shows "holds_keys (viewer_of ks) 3 ks (\<lambda>k. k @ k) ()"
proof -
  have "c_str (k @ k @ NUL # t) = Some (k @ k)" if "k \<in> set ks" for k t
    using assms that c_str_NUL [of "k @ k" t] by auto
  then show ?thesis
    by (simp add: holds_keys_def viewer_of_def)
qed

theorem viewer_shows_keys_witness:
  "printDBcontent (viewer_of [''pos'', ''id'']) ''app'' 1 () =
     Some ([dashes, ''Cachded DB keys: /Data/mnt-c/app/cached.itz'' @ nl, dashes, ''NumOf resources: 2 '' @ nl,
            ''Key[0]: pos'' @ nl, '' value: pospos'' @ nl @ nl, ''Key[1]: id'' @ nl, '' value: idid'' @ nl @ nl,
            dashes], ()) \<and>
   printDBcontent (viewer_of (replicate 256 ''id'')) ''app'' 1 () = None"
proof
  have o: "v_mem (viewer_of ks)" "vdb_open (viewer_of ks) f 0 () = (3, ())" for ks f
    by (simp_all add: viewer_of_def)
  have d: "fmt_d 0 = ''0''" "fmt_d 1 = ''1''" "fmt_d 2 = ''2''"
    by code_simp+
  have t: "db_title ''app'' 1 = Some (''Cachded DB keys: '', ''/Data/mnt-c/app/cached.itz'')"
    by (simp add: db_title_def)
  show "printDBcontent (viewer_of [''pos'', ''id'']) ''app'' 1 () =
     Some ([dashes, ''Cachded DB keys: /Data/mnt-c/app/cached.itz'' @ nl, dashes, ''NumOf resources: 2 '' @ nl,
            ''Key[0]: pos'' @ nl, '' value: pospos'' @ nl @ nl, ''Key[1]: id'' @ nl, '' value: idid'' @ nl @ nl,
            dashes], ())"
    using viewer_shows_keys [OF o(1) t o(2) _ viewer_of_holds]
    by (simp add: d)
  show "printDBcontent (viewer_of (replicate 256 ''id'')) ''app'' 1 () = None"
    using viewer_shows_keys [OF o(1) t o(2) _ viewer_of_holds, of "replicate 256 ''id''"] by simp
qed

end
