(* ===== verification/Key_Sound.thy ===== *)
theory Key_Sound
  imports Key_Api
begin

text \<open>
  The key interface as a whole: no sequence of calls that read, write, size and delete keys, by name or
  through handles, runs into a memory fault.  \<open>key_wt\<close> says when a state is well formed, \<open>typed_result\<close>
  what a call may return in it; every call of a well-formed state returns such a result and leaves a
  well-formed state.  The calls are those of \<^verbatim>\<open>persistence_client_library_key.c\<close>; registrations
  are a theory of their own.
\<close>

section \<open>Calls\<close>

datatype key_op =
    Key_read "32 word" string "32 word" "32 word" byte_buf int
  | Key_write "32 word" string "32 word" "32 word" byte_buf int
  | Key_size "32 word" string "32 word" "32 word"
  | Key_delete "32 word" string "32 word" "32 word"
  | Handle_open "32 word" string "32 word" "32 word"
  | Handle_close int
  | Handle_read int byte_buf int
  | Handle_write int byte_buf int
  | Handle_size int

fun call_key ::
  "'w env \<Rightarrow> call_env \<Rightarrow> key_op \<Rightarrow> ('w, 'x) key_state_scheme \<Rightarrow> 'w \<Rightarrow> (int \<times> ('w, 'x) key_state_scheme \<times> 'w) option" where
  "call_key E C (Key_read ldb rid user seat buf n) s w =
     map_option (\<lambda>(r, _, s, w). (r, s, w)) (pclKeyReadData E C ldb rid user seat buf n s w)"
| "call_key E C (Key_write ldb rid user seat buf n) s w = pclKeyWriteData E C ldb rid user seat buf n s w"
| "call_key E C (Key_size ldb rid user seat) s w = pclKeyGetSize E C ldb rid user seat s w"
| "call_key E C (Key_delete ldb rid user seat) s w = pclKeyDelete E C ldb rid user seat s w"
| "call_key E C (Handle_open ldb rid user seat) s w = pclKeyHandleOpen E C ldb rid user seat s w"
| "call_key E C (Handle_close h) s w = map_option (\<lambda>(r, s). (r, s, w)) (pclKeyHandleClose E C h s)"
| "call_key E C (Handle_read h buf n) s w =
     map_option (\<lambda>(r, _, s, w). (r, s, w)) (pclKeyHandleReadData E C h buf n s w)"
| "call_key E C (Handle_write h buf n) s w = pclKeyHandleWriteData E C h buf n s w"
| "call_key E C (Handle_size h) s w = pclKeyHandleGetSize E C h s w"

section \<open>Well-formed states and results\<close>

text \<open>The policies of the common object are columns of the array of databases.\<close>

definition pco_wt :: "pco \<Rightarrow> bool" where
  "pco_wt P \<longleftrightarrow> pco_ok P \<and> 0 \<le> policy_last P \<and>
     {policy_wc P, policy_wt P} \<subseteq> {0..<PersistenceDB_LastEntry P}"

text \<open>The entries of the tables have one of the two policies and are not served by a custom library.\<close>

definition table_wt :: "pco \<Rightarrow> 'w rct_plugin \<Rightarrow> bool" where
  "table_wt P G \<longleftrightarrow>
     (\<forall>rd h k w e w'. rct_read G = Some rd \<longrightarrow> rd h k w = (cfg_size P, e, w') \<longrightarrow>
        cpolicy e \<in> {policy_wc P, policy_wt P} \<and> cstorage e \<noteq> storage_custom P)"

text \<open>\<open>K\<close> are the open key handles; other handles may be open as files.\<close>

definition key_wt :: "'w env \<Rightarrow> ('w, 'x) key_state_scheme \<Rightarrow> int set \<Rightarrow> bool" where
  "key_wt E s K \<longleftrightarrow> table_wt (e_pco E) (rct_of s) \<and> (\<exists>m H. handles_ok s m H \<and> dom m = K)"

text \<open>
  What a call may return while \<open>K\<close> are open: a fresh handle or an error, and an error for a handle that is
  not open.  Closing an open handle may fail only if its key has no name.
\<close>

abbreviation no_handle :: "int \<Rightarrow> bool" where
  "no_handle r \<equiv> r \<in> {EPERS_MAXHANDLE, EPERS_NOT_INITIALIZED}"

fun typed_result :: "int set \<Rightarrow> key_op \<Rightarrow> int \<Rightarrow> bool" where
  "typed_result K (Handle_open ldb rid user seat) r \<longleftrightarrow> r < 0 \<or> r \<in> {1..<MaxPersHandle - 1} - K"
| "typed_result K (Handle_close h) r \<longleftrightarrow>
     (if h \<in> K then r = 1 \<or> r \<in> {EPERS_INVALID_HANDLE, EPERS_NOT_INITIALIZED} else no_handle r)"
| "typed_result K (Handle_read h buf n) r \<longleftrightarrow> (h \<notin> K \<longrightarrow> no_handle r)"
| "typed_result K (Handle_write h buf n) r \<longleftrightarrow> (h \<notin> K \<longrightarrow> no_handle r)"
| "typed_result K (Handle_size h) r \<longleftrightarrow> (h \<notin> K \<longrightarrow> no_handle r)"
| "typed_result K op r \<longleftrightarrow> True"

text \<open>The key handles that are open after a call.\<close>

fun track :: "key_op \<Rightarrow> int \<Rightarrow> int set \<Rightarrow> int set" where
  "track (Handle_open ldb rid user seat) r K = (if 0 \<le> r then insert r K else K)"
| "track (Handle_close h) r K = (if r = 1 then K - {h} else K)"
| "track op r K = K"

fun exhausted :: "key_op \<Rightarrow> int \<Rightarrow> bool" where
  "exhausted (Handle_open ldb rid user seat) r \<longleftrightarrow> r = EPERS_MAXHANDLE"
| "exhausted op r \<longleftrightarrow> False"

text \<open>
  A step is a call that does not run out of handles, or anything the main loop and the world do between
  two calls: whatever keeps the handles and the plugins, such as a lock or the closing of databases.
\<close>

inductive key_step ::
  "'w env \<Rightarrow> ('w, 'x) key_state_scheme \<times> 'w \<times> int set \<Rightarrow> ('w, 'x) key_state_scheme \<times> 'w \<times> int set \<Rightarrow> bool"
  for E :: "'w env" where
  step_call: "calls_ok C \<Longrightarrow> call_key E C op s w = Some (r, s', w') \<Longrightarrow> \<not> exhausted op r \<Longrightarrow>
     key_step E (s, w, K) (s', w', track op r K)"
| step_other: "gKeyHandleTree s' = gKeyHandleTree s \<Longrightarrow> handle_nums s' = handle_nums s \<Longrightarrow> loader s' = loader s \<Longrightarrow>
     key_step E (s, w, K) (s', w', K)"

section \<open>Progress of the calls by name\<close>

abbreviation same_handles :: "('w, 'x) key_state_scheme \<Rightarrow> ('w, 'x) key_state_scheme \<Rightarrow> bool" where
  "same_handles s s' \<equiv>
     gKeyHandleTree s' = gKeyHandleTree s \<and> handle_nums s' = handle_nums s \<and> loader s' = loader s"

lemma key_wt_same: "same_handles s s' \<Longrightarrow> key_wt E s K \<Longrightarrow> key_wt E s' K"
  by (simp add: key_wt_def handles_ok_def)

definition db_wt :: "pco \<Rightarrow> pers_info \<Rightarrow> bool" where
  "db_wt P info \<longleftrightarrow> cpolicy (configKey info) \<in> {0..<PersistenceDB_LastEntry P} \<and>
     cstorage (configKey info) \<noteq> storage_custom P"

lemma key_context_progress:
  assumes "pco_wt (e_pco E)" "table_wt (e_pco E) (rct_of s)"
  obtains x p w' where "key_context E C ldb rid user seat s w = Some (x, s\<lparr>prct := p\<rparr>, w')"
    "is_key_resource E x \<Longrightarrow> db_wt (e_pco E) (res_info x)"
proof -
  let ?P = "e_pco E"
  have P: "pco_ok ?P" "{policy_wc ?P, policy_wt ?P} \<subseteq> {0..<PersistenceDB_LastEntry ?P}" "storage_local ?P \<noteq> storage_custom ?P"
    using assms(1) by (auto simp: pco_wt_def pco_ok_def)
  have N: "\<exists>x. make_db_names ?P n app info r = Some x \<and> res_info x = info" for n app info r
    using make_db_names_total [of ?P n app info r] by fastforce
  have D: "\<exists>x. db_context_not_found ?P n app info r False v = Some x \<and>
      (res_rval x < 0 \<or> db_wt ?P (res_info x))" if "v < 0" for n app info r v
    using P N [of n app "info\<lparr>configKey := default_config ?P False (configKey info)\<rparr>" r] that
    by (auto simp: db_context_not_found_def db_wt_def default_config_def)
  have R: "\<exists>x. make_db_names ?P n app (info\<lparr>configKey := e\<rparr>) r = Some x \<and> db_wt ?P (res_info x) \<and> cstorage e \<noteq> storage_custom ?P"
    if "rct_read (rct_of s) = Some rd" "rd h k v = (cfg_size ?P, e, v')" for rd h k v e v' n app info r
  proof -
    have "cpolicy e \<in> {policy_wc ?P, policy_wt ?P} \<and> cstorage e \<noteq> storage_custom ?P"
      using that assms(2) unfolding table_wt_def by blast
    then show ?thesis
      using N [of n app "info\<lparr>configKey := e\<rparr>" r] P(2) by (auto simp: db_wt_def)
  qed
  obtain rct grp where t: "get_table_id (ctx_ldbid (dbctx (key_info C ldb user seat))) = (rct, grp)"
    by (cases "get_table_id (ctx_ldbid (dbctx (key_info C ldb user seat)))")
  obtain h p v where g: "get_resource_cfg_table ?P (names_of s) (e_app E) (rct_of s) rct grp (prct s) w = (h, p, v)"
    by (metis prod_cases3)
  have "\<exists>x w'. get_db_context ?P (names_of s) (e_app E) (rct_of s) (key_info C ldb user seat) rid False (prct s) w = Some (x, p, w') \<and>
      (res_rval x < 0 \<or> db_wt ?P (res_info x))"
  proof (cases "\<exists>rd e v'. 0 \<le> h \<and> rct_read (rct_of s) = Some rd \<and> rd h rid v = (cfg_size ?P, e, v')")
    case True
    then obtain rd e v' where r: "0 \<le> h" "rct_read (rct_of s) = Some rd" "rd h rid v = (cfg_size ?P, e, v')"
      by blast
    then show ?thesis
      using R [OF r(2,3), of "names_of s" "e_app E" "key_info C ldb user seat" rid] t g
      by (auto simp: get_db_context_def)
  next
    case False
    have "\<exists>e v'. get_db_context ?P (names_of s) (e_app E) (rct_of s) (key_info C ldb user seat) rid False (prct s) w =
        map_option (\<lambda>x. (x, p, v')) (db_context_not_found ?P (names_of s) (e_app E) (key_info C ldb user seat) rid False e) \<and> e < 0"
    proof (cases "0 \<le> h \<and> rct_read (rct_of s) \<noteq> None")
      case True
      then obtain rd c e v' where "rct_read (rct_of s) = Some rd" "rd h rid v = (c, e, v')"
        by (metis option.collapse prod_cases3)
      then show ?thesis
        using True False t g by (auto simp: get_db_context_def)
    next
      case None: False
      then show ?thesis
        using t g by (cases "0 \<le> h") (auto simp: get_db_context_def)
    qed
    then show ?thesis
      using D by fastforce
  qed
  then obtain x p w' where "key_context E C ldb rid user seat s w = Some (x, s\<lparr>prct := p\<rparr>, w')"
    "res_rval x < 0 \<or> db_wt ?P (res_info x)"
    by (auto simp: key_context_def)
  then show thesis
    using that by (auto simp: is_key_resource_def)
qed

lemma database_get_progress:
  assumes "0 \<le> t" "t < PersistenceDB_LastEntry (e_pco E)"
  obtains h s' w' where "database_get E info p t s w = Some (h, s', w')" "same_handles s s'"
proof -
  have "\<exists>h s' w'. database_get E info p t s w = Some (h, s', w') \<and> same_handles s s'"
    using assms by (auto simp: database_get_def Let_def split: option.splits prod.splits)
  then show thesis
    using that by blast
qed

lemma send_same:
  "pers_send_Notification_Signal E res cx c s = (r, s') \<Longrightarrow> same_handles s s'"
  by (auto simp: pers_send_Notification_Signal_def deliverToMainloop_def deliverToMainloop_NM_def Let_def
      split: if_splits)

text \<open>A call that returns and keeps the handles, for the two shapes of results.\<close>

definition fine_read :: "('w, 'x) key_state_scheme \<Rightarrow> (int \<times> byte_buf \<times> ('w, 'x) key_state_scheme \<times> 'w) option \<Rightarrow> bool" where
  "fine_read s x \<longleftrightarrow> (\<exists>r b s' w'. x = Some (r, b, s', w') \<and> same_handles s s')"

definition fine_call :: "('w, 'x) key_state_scheme \<Rightarrow> (int \<times> ('w, 'x) key_state_scheme \<times> 'w) option \<Rightarrow> bool" where
  "fine_call s x \<longleftrightarrow> (\<exists>r s' w'. x = Some (r, s', w') \<and> same_handles s s')"

lemma fine_simps [simp]:
  "fine_read s (Some (r, b, s', w')) \<longleftrightarrow> same_handles s s'"
  "fine_call s (Some (r, s', w')) \<longleftrightarrow> same_handles s s'"
  by (auto simp: fine_read_def fine_call_def)

lemma fine_read_call: "fine_read s x \<Longrightarrow> fine_call s (map_option (\<lambda>(r, _, s, w). (r, s, w)) x)"
  by (auto simp: fine_read_def fine_call_def)

lemma fine_read_same: "same_handles s s1 \<Longrightarrow> fine_read s1 x \<Longrightarrow> fine_read s x"
  by (simp add: fine_read_def)

lemma defaults_progress:
  assumes "set l \<subseteq> {0..<PersistenceDB_LastEntry (e_pco E)}"
  shows "fine_read s (defaults_loop E l p key info n job r0 buf s w)"
  using assms
proof (induction l arbitrary: r0 buf s w)
  case (Cons i l)
  have "0 \<le> i" "i < PersistenceDB_LastEntry (e_pco E)"
    using Cons.prems by simp_all
  then obtain h s1 w1 where g: "database_get E info p i s w = Some (h, s1, w1)" "same_handles s s1"
    by (rule database_get_progress)
  have IH: "fine_read s (defaults_loop E l p key info n job r0 buf s1 w)" for r0 buf w
    using Cons.IH Cons.prems by (intro fine_read_same [OF g(2)]) simp
  show ?case
    using g IH
    by (cases job; cases "db_read (db_of s1)"; cases "db_size (db_of s1)") (simp_all add: Let_def split: prod.split)
qed simp

lemma pers_get_defaults_progress:
  "pco_wt (e_pco E) \<Longrightarrow> fine_read s (pers_get_defaults E p key info buf n job s w)"
  unfolding pers_get_defaults_def by (rule defaults_progress) (simp add: pco_wt_def)

lemma read_progress:
  assumes "pco_wt (e_pco E)" "db_wt (e_pco E) info"
  shows "fine_read s (persistence_read E job p key res info buf n s w)"
proof -
  obtain h s1 w1 where g: "database_get E info p (cpolicy (configKey info)) s w = Some (h, s1, w1)" "same_handles s s1"
    using database_get_progress assms(2) unfolding db_wt_def by (metis atLeastLessThan_iff)
  have "fine_read s (pers_get_defaults E p res info b n job s1 w)" for b w
    using fine_read_same [OF g(2) pers_get_defaults_progress [OF assms(1)]] .
  then have "fine_read s (read_database E job p key res info buf n s w)"
    using g by (simp add: read_database_def Let_def split: option.split prod.split)
  then show ?thesis
    using assms(2) by (auto simp: persistence_read_def db_wt_def Let_def)
qed

lemma write_progress:
  assumes "pco_wt (e_pco E)" "db_wt (e_pco E) info"
  shows "fine_call s (persistence_set_data E p key res info buf n s w)"
proof -
  define t where "t = (if ctx_user (dbctx info) = PCL_USER_DEFAULTDATA then PersistenceDB_confdefault (e_pco E)
    else cpolicy (configKey info))"
  have "0 \<le> t" "t < PersistenceDB_LastEntry (e_pco E)"
    using assms by (simp_all add: t_def pco_wt_def db_wt_def)
  then obtain h s1 w1 where g: "database_get E info p t s w = Some (h, s1, w1)" "same_handles s s1"
    by (rule database_get_progress)
  then have "fine_call s (write_database E p key res info buf n s w)"
    by (cases "ctx_user (dbctx info) = PCL_USER_DEFAULTDATA")
      (auto simp: write_database_def t_def Let_def split: option.split prod.split dest: send_same)
  then show ?thesis
    using assms(2) by (auto simp: persistence_set_data_def db_wt_def Let_def)
qed

lemma delete_progress:
  assumes "db_wt (e_pco E) info"
  shows "fine_call s (persistence_delete_data E p key res info s w)"
proof -
  obtain h s1 w1 where g: "database_get E info p (cpolicy (configKey info)) s w = Some (h, s1, w1)" "same_handles s s1"
    using database_get_progress assms unfolding db_wt_def by (metis atLeastLessThan_iff)
  have "same_handles s1 (snd (pers_send_Notification_Signal E res (dbctx info) c s1))" for c
    by (rule send_same) (rule prod.collapse [symmetric])
  then show ?thesis
    using assms g
    by (auto simp: persistence_delete_data_def delete_database_def db_wt_def Let_def split: option.split prod.split)
qed

section \<open>The calls\<close>

lemma fine_call_same: "same_handles s s1 \<Longrightarrow> fine_call s1 x \<Longrightarrow> fine_call s x"
  by (simp add: fine_call_def)

lemma named_progress:
  assumes "pco_wt (e_pco E)" "table_wt (e_pco E) (rct_of s)"
  shows "fine_read s (pclKeyReadData E C ldb rid user seat buf n s w)"
    and "fine_call s (pclKeyWriteData E C ldb rid user seat buf n s w)"
    and "fine_call s (pclKeyGetSize E C ldb rid user seat s w)"
    and "fine_call s (pclKeyDelete E C ldb rid user seat s w)"
proof -
  obtain x p v where x: "key_context E C ldb rid user seat s w = Some (x, s\<lparr>prct := p\<rparr>, v)"
    "is_key_resource E x \<Longrightarrow> db_wt (e_pco E) (res_info x)"
    by (rule key_context_progress [OF assms, of C ldb rid user seat w]) blast
  let ?s = "s\<lparr>prct := p\<rparr>"
  have s: "same_handles s ?s"
    by simp
  note R = fine_read_same [OF s read_progress [OF assms(1)]]
  note W = fine_call_same [OF s write_progress [OF assms(1)]]
  note D = fine_call_same [OF s delete_progress]
  note Z = fine_call_same [OF s fine_read_call [OF read_progress [OF assms(1)]]]
  show "fine_read s (pclKeyReadData E C ldb rid user seat buf n s w)"
    using x R by (simp add: pclKeyReadData_def persistence_get_data_def)
  show "fine_call s (pclKeyWriteData E C ldb rid user seat buf n s w)"
    using x W by (simp add: pclKeyWriteData_def)
  show "fine_call s (pclKeyGetSize E C ldb rid user seat s w)"
    using x Z by (simp add: pclKeyGetSize_def persistence_get_data_size_def)
  show "fine_call s (pclKeyDelete E C ldb rid user seat s w)"
    using x D by (simp add: pclKeyDelete_def)
qed

text \<open>Progress and preservation of one call.\<close>

definition sound_call ::
  "'w env \<Rightarrow> int set \<Rightarrow> key_op \<Rightarrow> (int \<times> ('w, 'x) key_state_scheme \<times> 'w) option \<Rightarrow> bool" where
  "sound_call E K op x \<longleftrightarrow> (\<exists>r s' w'. x = Some (r, s', w') \<and> typed_result K op r \<and>
     (\<not> exhausted op r \<longrightarrow> key_wt E s' (track op r K)))"

lemma sound_call_Some [simp]:
  "sound_call E K op (Some (r, s', w')) \<longleftrightarrow>
     typed_result K op r \<and> (\<not> exhausted op r \<longrightarrow> key_wt E s' (track op r K))"
  by (simp add: sound_call_def)

lemma sound_fine:
  assumes "key_wt E s K" "\<And>r. typed_result K op r" "\<And>r. track op r K = K" "fine_call s x"
  shows "sound_call E K op x"
  using assms key_wt_same [OF _ assms(1)] by (auto simp: sound_call_def fine_call_def)

lemma sound_open:
  assumes "pco_wt (e_pco E)" "key_wt E s K" "calls_ok C"
  shows "sound_call E K (Handle_open ldb rid user seat) (pclKeyHandleOpen E C ldb rid user seat s w)"
proof -
  obtain m H where m: "handles_ok s m H" "dom m = K" "table_wt (e_pco E) (rct_of s)"
    using assms(2) by (auto simp: key_wt_def)
  obtain x p v where x: "key_context E C ldb rid user seat s w = Some (x, s\<lparr>prct := p\<rparr>, v)"
    by (rule key_context_progress [OF assms(1) m(3), of C ldb rid user seat w])
  obtain idx hs where g: "get_persistence_handle_idx True (handle_nums s) = (idx, hs)"
    by (cases "get_persistence_handle_idx True (handle_nums s)")
  obtain j where j: "c_tree C = all_ok j" "c_idx_lock C"
    using assms(3) by (auto simp: calls_ok_def)
  have I: "key_table (gKeyHandleTree s) m" "handle_inv (handle_nums s, H)" "dom m \<subseteq> H"
    using m(1) by (simp_all add: handles_ok_def)
  obtain t where t: "set_key_handle_data (e_pco E) (all_ok j) (gKeyHandleTree s) idx rid ldb user seat = Some (idx, t)"
    using set_key_table [OF I(1)] by blast
  show ?thesis
  proof (cases "0 < gPclInitCounter s \<and> c_handle_lock C \<and> is_key_resource E x \<and> cstorage (res_config x) < storage_last (e_pco E)")
    case True
    define s' where "s' = s\<lparr>prct := p, handle_nums := hs, gKeyHandleTree := t\<rparr>"
    have o: "pclKeyHandleOpen E C ldb rid user seat s w = Some (idx, s', v)"
      using True x g j t by (simp add: pclKeyHandleOpen_def s'_def)
    show ?thesis
    proof (cases "0 \<le> idx")
      case True
      then obtain kh where "handles_ok s' (m(idx \<mapsto> kh)) (insert idx H)"
        using open_key_handle [OF m(1) assms(3) o] by blast
      moreover have "dom (m(idx \<mapsto> kh)) = insert idx K"
        using m(2) by simp
      moreover have "table_wt (e_pco E) (rct_of s')"
        using m(3) by (simp add: s'_def)
      ultimately have "key_wt E s' (insert idx K)"
        unfolding key_wt_def by blast
      moreover have "idx \<in> {1..<MaxPersHandle - 1} - K"
        using open_cases [OF I(2) g] True I(3) m(2) by auto
      ultimately show ?thesis
        using o True by simp
    next
      case False
      then show ?thesis
        using open_cases [OF I(2) g] o by auto
    qed
  next
    case False
    then show ?thesis
      using x assms(2) by (auto simp: pclKeyHandleOpen_def key_wt_same [where s = s])
  qed
qed

lemma sound_close:
  assumes "key_wt E s K" "calls_ok C"
  shows "sound_call E K (Handle_close h) (map_option (\<lambda>(r, s). (r, s, w)) (pclKeyHandleClose E C h s))"
proof (cases "0 < gPclInitCounter s")
  case True
  obtain m H where m: "handles_ok s m H" "dom m = K" "table_wt (e_pco E) (rct_of s)"
    using assms(1) by (auto simp: key_wt_def)
  obtain j where j: "c_tree C = all_ok j" "c_handle_lock C"
    using assms(2) by (auto simp: calls_ok_def)
  have "key_table (gKeyHandleTree s) m"
    using m(1) by (simp add: handles_ok_def)
  note W = with_key_handle_eq [OF this j(1) True]
  show ?thesis
  proof (cases "\<exists>kh. m h = Some kh \<and> c_copy (key_name_len (e_pco E)) (resource_id kh) \<noteq> []")
    case named: True
    then obtain kh where kh: "m h = Some kh" "c_copy (key_name_len (e_pco E)) (resource_id kh) \<noteq> []"
      by blast
    obtain s' where s': "pclKeyHandleClose E C h s = Some (1, s')" "handles_ok s' (m(h := None)) (H - {h})"
      using pclKeyHandleClose_closes [OF m(1) assms(2) True kh] by blast
    have "loader s' = loader s"
      using s'(1) j kh by (auto simp: pclKeyHandleClose_def W)
    then have "table_wt (e_pco E) (rct_of s')" "dom (m(h := None)) = K - {h}"
      using m(2,3) by simp_all
    then have "key_wt E s' (K - {h})"
      using s'(2) unfolding key_wt_def by blast
    then show ?thesis
      using s'(1) kh m(2) by auto
  next
    case False
    then show ?thesis
      using assms(1) m(2) j(2) by (auto simp: pclKeyHandleClose_def W domIff split: option.split)
  qed
next
  case False
  then show ?thesis
    using assms(1) by (auto simp: pclKeyHandleClose_def with_key_handle_def)
qed

text \<open>
  A call through a handle either fails without a change or is the call by name; \<open>g\<close> drops the buffer
  from the result of a call that reads.
\<close>

lemma sound_through:
  assumes "key_wt E s K" "calls_ok C"
    and "\<And>r. h \<in> K \<or> no_handle r \<Longrightarrow> typed_result K op r" "\<And>r. track op r K = K"
    and "\<And>kh. fine_call s (g (f kh))" "\<And>r. g (Some (fail r)) = Some (r, s, w)"
  shows "sound_call E K op (g (with_key_handle E C h f fail s))"
proof -
  have E: "sound_call E K op (g (Some (fail r)))" if "h \<in> K \<or> no_handle r" for r
    using assms(1,3,4,6) that by simp
  have F: "sound_call E K op (g (f kh))" if "h \<in> K" for kh
    using sound_fine [OF assms(1) _ assms(4,5)] assms(3) that by simp
  show ?thesis
  proof (cases "0 < gPclInitCounter s")
    case True
    obtain m H j where m: "key_table (gKeyHandleTree s) m" "dom m = K" "c_tree C = all_ok j"
      using assms(1,2) by (auto simp: key_wt_def handles_ok_def calls_ok_def)
    show ?thesis
      using m(2) E F by (auto simp: with_key_handle_eq [OF m(1,3) True] split: option.split)
  next
    case False
    then show ?thesis
      using E by (simp add: with_key_handle_def)
  qed
qed

lemma key_call_sound:
  assumes "pco_wt (e_pco E)" "key_wt E s K" "calls_ok C"
  shows "sound_call E K op (call_key E C op s w)"
proof -
  have t: "table_wt (e_pco E) (rct_of s)"
    using assms(2) by (simp add: key_wt_def)
  have c: "c_handle_lock C"
    using assms(3) by (simp add: calls_ok_def)
  note N = named_progress [OF assms(1) t]
  note F = sound_fine [OF assms(2)]
  note H = sound_through [OF assms(2,3)]
  show ?thesis
  proof (cases op)
    case (Handle_open ldb rid user seat)
    then show ?thesis
      using sound_open [OF assms] by simp
  next
    case (Handle_close h)
    then show ?thesis
      using sound_close [OF assms(2,3)] by simp
  next
    case (Handle_read h buf n)
    show ?thesis
      unfolding Handle_read call_key.simps pclKeyHandleReadData_def
      using c by (auto intro!: H [where h = h] fine_read_call [simplified] N)
  next
    case (Handle_write h buf n)
    show ?thesis
      unfolding Handle_write call_key.simps pclKeyHandleWriteData_def
      using c by (auto intro!: H [where g = "\<lambda>x. x" and h = h] N)
  next
    case (Handle_size h)
    show ?thesis
      unfolding Handle_size call_key.simps pclKeyHandleGetSize_def
      using c by (auto intro!: H [where g = "\<lambda>x. x" and h = h] N)
  qed (auto intro!: F fine_read_call [simplified] N)
qed

lemma key_step_wt:
  assumes "pco_wt (e_pco E)" "key_step E x y" "key_wt E (fst x) (snd (snd x))"
  shows "key_wt E (fst y) (snd (snd y))"
  using assms(2,3)
proof cases
  case (step_call C op s w r s' w' K)
  then show ?thesis
    using key_call_sound [OF assms(1), of s K C op w] assms(3) by simp
qed (simp add: key_wt_same)

section \<open>Property\<close>

text \<open>
  C4: the key interface is type sound.  Started in a well-formed state, no sequence of calls, with
  locks, shutdowns and changes of the world in between, reaches a state in which a further call faults:
  the call returns, an opened handle is in the range of handle numbers and was not open before, a call
  with a handle that is not open is refused with the error for handles, closing an open one succeeds or
  is refused, and the state is well formed again, with the open handles \<open>track\<close> says, unless the call was
  an open that found all handles in use.
\<close>

theorem key_interface_sound:
  assumes "pco_wt (e_pco E)" "key_wt E s0 K0" "(key_step E)\<^sup>*\<^sup>* (s0, w0, K0) (s, w, K)" "calls_ok C"
  shows "\<exists>r s' w'. call_key E C op s w = Some (r, s', w') \<and> typed_result K op r \<and>
    (exhausted op r \<or> key_wt E s' (track op r K))"
proof -
  have "key_wt E (fst (s, w, K)) (snd (snd (s, w, K)))"
    using assms(3,2) by (induction rule: rtranclp_induct) (auto dest: key_step_wt [OF assms(1)])
  then show ?thesis
    using key_call_sound [OF assms(1) _ assms(4), of s K op w] by (auto simp: sound_call_def)
qed

theorem key_interface_sound_witness:
  "\<exists>r s' w'. call_key env_1 call_0 (Handle_size 5) (key_0\<lparr>gLockAccess := 1\<rparr>) mem_2 = Some (r, s', w') \<and>
     r \<in> {EPERS_MAXHANDLE, EPERS_NOT_INITIALIZED}"
proof -
  have "pco_wt (e_pco env_1)"
    using pco_1_ok by (simp add: pco_wt_def pco_1_def)
  moreover have "table_wt (e_pco env_1) (rct_of key_0)"
    by (auto simp: table_wt_def key_0_def loader_1_def rct_2_def config_1_def pco_1_def)
  then have "key_wt env_1 key_0 {}"
    unfolding key_wt_def using handles_ok_0 by auto
  moreover have "(key_step env_1)\<^sup>*\<^sup>* (key_0, mem_2, {}) (key_0\<lparr>gLockAccess := 1\<rparr>, mem_2, {})"
    by (rule r_into_rtranclp) (auto intro: step_other)
  ultimately show ?thesis
    using key_interface_sound [OF _ _ _ calls_ok_0, of env_1 key_0 "{}" mem_2 "key_0\<lparr>gLockAccess := 1\<rparr>" mem_2 "{}" "Handle_size 5"]
    by auto
qed

end
