(* ===== verification/Spec2Isabelle.thy ===== *)
theory Spec2Isabelle
  imports Main_Loop Rb_Laws Tool_Laws Db_Viewer Key_Sound
begin

text \<open>
  The persistence client library: a verification library for the C code under \<^verbatim>\<open>src/src\<close>.

  \<^bold>\<open>The program.\<close>  An application is linked with the library and stores small values under keys and
  whole files under names.  The library finds out from resource configuration tables (RCT) where a
  resource lives and who may change it, reaches the values through a database plugin or a custom
  plugin, and reaches files through the file system, with a backup and a checksum of every file that
  is written.  A second thread, the main loop, serves D-Bus: shutdown requests of the node state
  manager, lock requests of the persistence administration service, and change notifications.  The
  interface functions and the main loop share handle tables, the lock of the data access, a pipe for
  messages and a condition variable.

  \<^bold>\<open>How the code is modelled.\<close>  A C function is an Isabelle function on an explicit state with the same
  name; a struct is a record, a global variable a field of the state of its component.  A result in the
  option type is \<open>None\<close> when the C code has no defined behaviour or does not return: a NULL or freed
  pointer is followed, an array is left, a loop does not end.  Error codes are numbers, as in the code.
  Integers of fixed width are words where they can wrap around.  What the code calls but does not hold
  is a parameter: the persistence common object (record \<open>pco\<close>), the plugins (\<open>rct\<close>, \<open>pers_db\<close>, custom
  libraries), the decisions of the operating system (\<open>os\<close>), the bus, and whether malloc delivers.
  Their laws, where a theorem needs them, are hypotheses with a witness that meets them.

  \<^bold>\<open>The theories, in the order of the code.\<close>

  \<^item> \<open>Pcl_Prelude\<close>, \<open>Pcl_Config\<close>: C strings, binds of options, the locale \<open>state_machine\<close> (steps, runs and
    invariants); error codes (\<^verbatim>\<open>persistence_client_library_error_def.h\<close>) and constants.
  \<^item> \<open>Rb_Tree\<close>: \<^verbatim>\<open>rbtree.c\<close> over a heap of nodes.  \<open>Rb_Shape\<close>, \<open>Rb_Insert\<close>, \<open>Rb_Insert_Correct\<close>, \<open>Rb_Push\<close>,
    \<open>Rb_Erase\<close> and \<open>Rb_Map\<close> relate the heap to a tree and the tree to a finite map, round by round of the two
    loops with their grandparent and parent pointers; the result is the locale \<open>item_store\<close>, which every
    tree whose comparison compares a key interprets.  \<open>Rb_Laws\<close>: sequences of operations, cost of a search.
  \<^item> \<open>Tree_Helper\<close>: the items and comparisons of \<^verbatim>\<open>persistence_client_library_tree_helper.c\<close>.
  \<^item> \<open>Handle_Idx\<close>, \<open>Key_Handles\<close>, \<open>File_Handles\<close>, \<open>Fd_List\<close>: \<^verbatim>\<open>persistence_client_library_handle.c\<close>, that is
    the allocator of handle numbers, the trees of open keys and open files, the lists of open descriptors.
  \<^item> \<open>Crc32\<close>: \<^verbatim>\<open>crc32.c\<close>, compared with a bitwise CRC-32.
  \<^item> \<open>Data_Organization\<close>, \<open>Prct_Access\<close>: path templates of \<^verbatim>\<open>persistence_client_library_data_organization.c\<close>
    and the tables, contexts and database keys of \<^verbatim>\<open>persistence_client_library_prct_access.c\<close>.
  \<^item> \<open>Custom_Loader\<close>: the configuration file and the loading of plugins
    (\<^verbatim>\<open>persistence_client_library_custom_loader.c\<close>).
  \<^item> \<open>Loop_Msg\<close>: messages to the main loop, the access lock, and the requests that change it
    (\<^verbatim>\<open>persistence_client_library_pas_interface.c\<close>, \<^verbatim>\<open>persistence_client_library_lc_interface.c\<close>).
  \<^item> \<open>Db_Access\<close>, \<open>Notify\<close>: reading, writing and deleting values, defaults and the cache of open databases;
    the registration for changes (\<^verbatim>\<open>persistence_client_library_db_access.c\<close>).
  \<^item> \<open>Key_Api\<close>: \<^verbatim>\<open>persistence_client_library_key.c\<close>; \<open>Key_Sound\<close>: its calls as steps on well-formed states, none
    of which faults.
  \<^item> \<open>Posix_Files\<close>: the file calls of the operating system; \<open>Backup_Filelist\<close> and \<open>Backup_Laws\<close>: copies,
    checksums, recovery and the list of files without backup
    (\<^verbatim>\<open>persistence_client_library_backup_filelist.c\<close>); \<open>File_Api\<close> and \<open>File_Laws\<close>:
    \<^verbatim>\<open>persistence_client_library_file.c\<close>.
  \<^item> \<open>Dbus_Cmd\<close>: match rules, signals and calls on the bus (\<^verbatim>\<open>persistence_client_library_dbus_cmd.c\<close>);
    \<open>Lifecycle\<close> and \<open>Lifecycle_Laws\<close>: shutdown, write-back, initialisation and the life of the library
    (\<^verbatim>\<open>persistence_client_library.c\<close>); \<open>Poll_Array\<close> and \<open>Main_Loop\<close>: the polled descriptors, the callbacks of
    libdbus, the rounds of the loop, and the thread that waits for it
    (\<^verbatim>\<open>persistence_client_library_dbus_service.c\<close>).
  \<^item> \<open>C_Stdlib\<close>: numbers, strings and \<^verbatim>\<open>getopt\<close> of the C library; \<open>Client_Tool\<close> and \<open>Tool_Laws\<close>: the command
    line tool (\<^verbatim>\<open>src/tools/persistence_client_tool.c\<close>), which calls the key interface and the life of the
    library; \<open>Db_Viewer\<close>: the viewer of databases and tables (\<^verbatim>\<open>src/tools/persistence_db_viewer.c\<close>).

  \<^bold>\<open>What the lemmas show.\<close>  The containers are correct: the tree is balanced and behaves as a map, handle
  numbers in use are never handed out, the descriptor lists and the poll array are the lists of their
  entries.  A value that was written is read back under the same key, names and keys of different
  resources differ, defaults are asked in their order, and what the tables forbid is refused with the
  state unchanged.  A file that is written has a backup, the check of a file decides as the table of
  its states says, and a crash in a session loses no committed contents.  A shutdown locks the access
  and closes what is open; the messages of the pipe are all served; who waits for the loop is woken.
  What the command line tool writes it exports unchanged, and the viewer shows every key and value.
  Theorems of the kind error state what the code does where it does not do what it means to.

  \<^bold>\<open>Bounds and fuel.\<close>  \<open>loop_messages\<close> has the number of messages in the pipe as fuel; each round reads one,
  and the commands write none.  The poll array has ten places, as in the code.  Loops that follow
  pointers are partial functions into options; that they return is proved, not assumed.  The search of
  the tree needs at most \<open>2 * k\<close> steps below \<open>2 ^ k\<close> items.

  \<^bold>\<open>The build.\<close>  The model is the default build: no file cache, no application check, no registration
  with the administration service at initialisation (its requests and their handlers are modelled).

  \<^bold>\<open>Not modelled.\<close>  The tests under \<^verbatim>\<open>src/test\<close> are programs that call the interface; code under \<^verbatim>\<open>#if 0\<close>
  (the traversal of the tree) is not compiled; log messages have no effect on the state.
  libdbus, the plugins, dlopen and the operating system are parameters.
  Interleavings below the granularity of a call (two threads inside one function) are outside the
  model: the main loop and the callers alternate between calls, as the mutexes of the code make them.
\<close>

end
